(* ===== verification/Prelude.thy ===== *)
theory Prelude
  imports Main "HOL-Library.Word" "HOL-Library.Monad_Syntax" "HOL-Library.Sublist"
begin

text \<open>
  Shared vocabulary of the development: the machine integer types of the C and C++ sources,
  C arrays with checked access, C strings, and the lemma collections the component
  theories use.

  A result of type \<^typ>\<open>'a option\<close> is \<open>None\<close> where the source has undefined behaviour
  (an access outside an array, a null dereference) or does not return; every error the
  source itself reports is an ordinary value of the result.
\<close>

type_synonym u8 = "8 word"
type_synonym u32 = "32 word"
type_synonym u64 = "64 word"

named_theorems arr "checked array access"
named_theorems cstr "C string functions"

subsection \<open>Truth values of C\<close>

text \<open>The sources' \<open>BOOLEAN\<close> is an \<open>unsigned long\<close>: a test \<open>if (b)\<close> is \<open>truthy\<close>,
  a test \<open>b == TRUE\<close> compares with 1.\<close>

definition truthy :: "'a::len word \<Rightarrow> bool" where
  "truthy b \<longleftrightarrow> b \<noteq> 0"

lemma truthy_simps [simp]: "\<not> truthy 0" "truthy (1 :: 'a::len word)"
  by (simp_all add: truthy_def)

definition of_cbool :: "bool \<Rightarrow> 'a::len word" where
  "of_cbool b = (if b then 1 else 0)"

lemma truthy_of_cbool [simp]: "truthy (of_cbool b :: 'a::len word) \<longleftrightarrow> b"
  by (simp add: of_cbool_def)

subsection \<open>Signed reading of a 32-bit word\<close>

lemma sint_of_small_nat: "x < 2 ^ 31 \<Longrightarrow> sint (word_of_nat x :: u32) = int x"
  using int_word_sint [where 'a = 32, of "int x"] by simp

lemma nat_sint_count: "n < 2 ^ 31 \<Longrightarrow> nat (sint (word_of_nat n :: u32)) = n"
  by (simp add: sint_of_small_nat)

lemma unat_count: "n < 2 ^ 31 \<Longrightarrow> unat (word_of_nat n :: u32) = n"
  by (simp add: unat_of_nat)

lemma sint_nonneg_unat: "0 \<le> sint (w :: u32) \<Longrightarrow> nat (sint w) = unat w"
proof -
  assume "0 \<le> sint w"
  moreover have "sint w < 2 ^ 31" using sint_lt [of w] by simp
  moreover have "uint w = sint w mod 2 ^ 32"
    using uint_word_of_int [where 'a = 32, of "sint w"] by simp
  ultimately have "uint w = sint w" by simp
  then show ?thesis by (metis unat_eq_nat_uint)
qed

lemma sint_nonneg_bound: "0 \<le> sint (w :: u32) \<Longrightarrow> unat w < 2 ^ 31"
proof -
  assume *: "0 \<le> sint w"
  have "nat (sint w) < nat (2 ^ 31)" using sint_lt [of w] * by (subst nat_less_eq_zless) simp_all
  with sint_nonneg_unat [OF *] show ?thesis by simp
qed

subsection \<open>Arrays\<close>

definition rd_at :: "'a list \<Rightarrow> nat \<Rightarrow> 'a option" where
  "rd_at xs i = (if i < length xs then Some (xs ! i) else None)"

definition wr_at :: "'a list \<Rightarrow> nat \<Rightarrow> 'a \<Rightarrow> 'a list option" where
  "wr_at xs i v = (if i < length xs then Some (xs[i := v]) else None)"

lemma rd_at_Some [arr]: "i < length xs \<Longrightarrow> rd_at xs i = Some (xs ! i)"
  by (simp add: rd_at_def)

lemma rd_at_None [arr]: "length xs \<le> i \<Longrightarrow> rd_at xs i = None"
  by (simp add: rd_at_def)

lemma wr_at_Some [arr]: "i < length xs \<Longrightarrow> wr_at xs i v = Some (xs[i := v])"
  by (simp add: wr_at_def)

lemma wr_at_None [arr]: "length xs \<le> i \<Longrightarrow> wr_at xs i v = None"
  by (simp add: wr_at_def)

lemma rd_at_eq_SomeD: "rd_at xs i = Some x \<Longrightarrow> i < length xs \<and> x = xs ! i"
  by (simp add: rd_at_def split: if_splits)

lemma wr_at_eq_SomeD: "wr_at xs i v = Some ys \<Longrightarrow> i < length xs \<and> ys = xs[i := v]"
  by (simp add: wr_at_def split: if_splits)

lemma wr_at_length: "wr_at xs i v = Some ys \<Longrightarrow> length ys = length xs"
  by (auto dest: wr_at_eq_SomeD)

text \<open>Filling the front of an array, as a block copy does.\<close>

definition blit :: "'a list \<Rightarrow> 'a list \<Rightarrow> 'a list option" where
  "blit xs arr = (if length xs \<le> length arr then Some (xs @ drop (length xs) arr) else None)"

lemma blit_Some [arr]: "length xs \<le> length arr \<Longrightarrow> blit xs arr = Some (xs @ drop (length xs) arr)"
  by (simp add: blit_def)

lemma blit_None [arr]: "length arr < length xs \<Longrightarrow> blit xs arr = None"
  by (simp add: blit_def)

lemma blit_length: "blit xs arr = Some ys \<Longrightarrow> length ys = length arr"
  by (auto simp: blit_def split: if_splits)

text \<open>The loop \<open>for (i = ...; ...) if (P (xs[i])) { ...; break; }\<close>: the first element among the
  next \<open>n\<close> that satisfies \<open>P\<close>, undefined where the loop leaves the array.\<close>

fun scan_from :: "('a \<Rightarrow> bool) \<Rightarrow> 'a list \<Rightarrow> nat \<Rightarrow> nat \<Rightarrow> 'a option option" where
  "scan_from P xs i 0 = Some None"
| "scan_from P xs i (Suc n) =
     (case rd_at xs i of None \<Rightarrow> None
      | Some x \<Rightarrow> if P x then Some (Some x) else scan_from P xs (Suc i) n)"

lemma scan_from_eq_find [arr]:
  "i + n \<le> length xs \<Longrightarrow> scan_from P xs i n = Some (List.find P (take n (drop i xs)))"
proof (induction n arbitrary: i)
  case 0
  then show ?case by simp
next
  case (Suc n)
  then have "drop i xs = xs ! i # drop (Suc i) xs" by (simp add: Cons_nth_drop_Suc)
  with Suc show ?case by (simp add: arr)
qed

lemma scan_from_Some_find:
  "scan_from P xs i n = Some r \<Longrightarrow> r = List.find P (take n (drop i xs))"
proof (induction n arbitrary: i)
  case 0
  then show ?case by simp
next
  case (Suc n)
  then obtain x where x: "rd_at xs i = Some x" by (auto split: option.splits)
  then have "i < length xs" "x = xs ! i" by (auto dest: rd_at_eq_SomeD)
  then have "drop i xs = x # drop (Suc i) xs" by (simp add: Cons_nth_drop_Suc)
  with Suc x show ?case by (auto split: if_splits)
qed

subsection \<open>Lists\<close>

definition opt_list :: "'a option \<Rightarrow> 'a list" where
  "opt_list x = (case x of None \<Rightarrow> [] | Some a \<Rightarrow> [a])"

lemma opt_list_simps [simp]: "opt_list None = []" "opt_list (Some a) = [a]"
  by (simp_all add: opt_list_def)

lemma length_concat_opt_list: "length (concat (map (\<lambda>x. opt_list (f x)) xs)) \<le> length xs"
proof (induction xs)
  case Nil
  then show ?case by simp
next
  case (Cons x xs)
  then show ?case by (cases "f x") auto
qed

lemma prefix_drop_iff: "prefix t (drop i s) \<longleftrightarrow> take (length t) (drop i s) = t"
  by (metis append_eq_conv_conj prefix_def)

lemma prefix_iff_take: "prefix t s \<longleftrightarrow> take (length t) s = t"
  using prefix_drop_iff [of t 0 s] by simp

lemma find_eq_Some_iff:
  "List.find P xs = Some x \<longleftrightarrow>
     (\<exists>i < length xs. P (xs ! i) \<and> x = xs ! i \<and> (\<forall>j < i. \<not> P (xs ! j)))"
  by (rule find_Some_iff)

lemma find_map_Some: "List.find P xs = Some x \<Longrightarrow> P x \<and> x \<in> set xs"
  by (auto simp: find_Some_iff)

lemma take_Suc_snoc: "i < length xs \<Longrightarrow> take (Suc i) xs = take i xs @ [xs ! i]"
  by (rule take_Suc_conv_app_nth)

subsection \<open>Searching a string\<close>

text \<open>The first position of \<open>t\<close> in \<open>s\<close>, as the C library's \<open>strstr\<close> and
  \<open>std::string::find\<close> give it.\<close>

fun strpos :: "string \<Rightarrow> string \<Rightarrow> nat option" where
  "strpos t [] = (if t = [] then Some 0 else None)"
| "strpos t (c # s) = (if prefix t (c # s) then Some 0 else map_option Suc (strpos t s))"

lemma strpos_Some:
  "strpos t s = Some i \<longleftrightarrow> i \<le> length s \<and> prefix t (drop i s) \<and> (\<forall>j < i. \<not> prefix t (drop j s))"
proof (induction s arbitrary: i)
  case Nil
  then show ?case by auto
next
  case (Cons c s)
  show ?case
  proof (cases i)
    case 0
    then show ?thesis by auto
  next
    case (Suc k)
    then show ?thesis using Cons.IH [of k] by (auto simp: All_less_Suc2)
  qed
qed

lemma strpos_None: "strpos t s = None \<longleftrightarrow> (\<forall>i \<le> length s. \<not> prefix t (drop i s))"
proof (induction s)
  case Nil
  then show ?case by auto
next
  case (Cons c s)
  have "(\<forall>i \<le> length (c # s). \<not> prefix t (drop i (c # s))) \<longleftrightarrow>
        \<not> prefix t (c # s) \<and> (\<forall>i \<le> length s. \<not> prefix t (drop i s))"
    by (auto simp: less_Suc_eq_le [symmetric] All_less_Suc2)
  with Cons show ?case by auto
qed

lemma strpos_bound: "strpos t s = Some i \<Longrightarrow> i + length t \<le> length s"
  by (auto simp: strpos_Some dest: prefix_length_le)

subsection \<open>Characters\<close>

abbreviation NUL :: char where "NUL \<equiv> CHR 0x00"

definition tolower_c :: "char \<Rightarrow> char" where
  "tolower_c c = (if 65 \<le> (of_char c :: nat) \<and> (of_char c :: nat) \<le> 90
     then char_of ((of_char c :: nat) + 32) else c)"

definition toupper_c :: "char \<Rightarrow> char" where
  "toupper_c c = (if 97 \<le> (of_char c :: nat) \<and> (of_char c :: nat) \<le> 122
     then char_of ((of_char c :: nat) - 32) else c)"

lemma tolower_c_idem [simp]: "tolower_c (tolower_c c) = tolower_c c"
  by (auto simp: tolower_c_def)

lemma toupper_c_idem [simp]: "toupper_c (toupper_c c) = toupper_c c"
  by (auto simp: toupper_c_def)

lemma toupper_c_not_lower:
  "\<not> (97 \<le> (of_char (toupper_c c) :: nat) \<and> (of_char (toupper_c c) :: nat) \<le> 122)"
  by (auto simp: toupper_c_def)

text \<open>The C library's bounded comparisons on strings without an inner NUL, in the "C" locale:
  equal up to \<open>n\<close> characters, the terminator counting as a character.\<close>

definition strncmp_eq :: "string \<Rightarrow> string \<Rightarrow> nat \<Rightarrow> bool" where
  "strncmp_eq a b n \<longleftrightarrow> take n a = take n b"

definition strcaseeq :: "string \<Rightarrow> string \<Rightarrow> bool" where
  "strcaseeq a b \<longleftrightarrow> map tolower_c a = map tolower_c b"

definition strncaseeq :: "string \<Rightarrow> string \<Rightarrow> nat \<Rightarrow> bool" where
  "strncaseeq a b n \<longleftrightarrow> map tolower_c (take n a) = map tolower_c (take n b)"

lemma strncmp_eq_prefix: "strncmp_eq a b (length b) \<longleftrightarrow> prefix b a"
  by (simp add: strncmp_eq_def prefix_iff_take)

lemma strcaseeq_refl [simp]: "strcaseeq a a"
  by (simp add: strcaseeq_def)

lemma strcaseeq_sym: "strcaseeq a b \<Longrightarrow> strcaseeq b a"
  by (simp add: strcaseeq_def)

lemma strcaseeq_length: "strcaseeq a b \<Longrightarrow> length a = length b"
  unfolding strcaseeq_def by (metis length_map)

lemma strncaseeq_full: "length a = length b \<Longrightarrow> strncaseeq a b (length a) \<longleftrightarrow> strcaseeq a b"
  by (simp add: strncaseeq_def strcaseeq_def)

text \<open>\<open>strncpy (dst, src, n)\<close> into a zeroed buffer of \<open>cap\<close> bytes, for a source string without
  an inner NUL: the text the buffer holds, undefined when \<open>n\<close> exceeds the buffer, and not a
  string when no room for a terminator is left (a later read would run past the buffer).\<close>

definition strncpy0 :: "nat \<Rightarrow> string \<Rightarrow> nat \<Rightarrow> string option" where
  "strncpy0 cap src n =
     (if n \<le> cap \<and> length (take n src) < cap then Some (take n src) else None)"

lemma strncpy0_fits: "length src < cap \<Longrightarrow> strncpy0 cap src (length src + 1) = Some src"
  by (simp add: strncpy0_def)

lemma strncpy0_overflow: "cap \<le> length src \<Longrightarrow> strncpy0 cap src (length src + 1) = None"
  by (simp add: strncpy0_def)

end
