(* ===== verification/CStrings.thy ===== *)
theory CStrings
  imports Prelude
begin

text \<open>
  The string routines of \<open>PIKern/SmartCmd.cpp\<close> that the policy checks are built on:
  \<open>sms_strupr\<close>, \<open>sms_strstr2\<close>, \<open>sms_strstr\<close>, \<open>sms_strnstr\<close>, \<open>sms_strrchr\<close>. A C string is the
  list of its characters before the terminator; a returned pointer is the index it points
  to, \<open>None\<close> the null pointer. Null arguments, which every routine but \<open>sms_strnstr\<close> and
  \<open>sms_strrchr\<close> answers with null, are not modelled: the callers never pass one.
\<close>

subsection \<open>Upper case\<close>

definition sms_strupr :: "string \<Rightarrow> string" where
  "sms_strupr s = map toupper_c s"

lemma sms_strupr_length [simp]: "length (sms_strupr s) = length s"
  by (simp add: sms_strupr_def)

lemma sms_strupr_idem [simp]: "sms_strupr (sms_strupr s) = sms_strupr s"
  by (simp add: sms_strupr_def)

lemma sms_strupr_take: "sms_strupr (take n s) = take n (sms_strupr s)"
  by (simp add: sms_strupr_def take_map)

subsection \<open>Bounded search\<close>

text \<open>\<open>strnstr_from s c r slen i\<close> is the double loop of \<open>sms_strnstr\<close> at offset \<open>i\<close>: \<open>s\<close> is what
  is left of the text, \<open>c # r\<close> the searched string, \<open>slen\<close> the bound left.\<close>

fun strnstr_from :: "string \<Rightarrow> char \<Rightarrow> string \<Rightarrow> nat \<Rightarrow> nat \<Rightarrow> nat option" where
  "strnstr_from [] c r slen i = None"
| "strnstr_from (sc # s) c r slen i =
     (if slen < 1 then None
      else if sc \<noteq> c then strnstr_from s c r (slen - 1) (Suc i)
      else if slen - 1 < length r then None
      else if strncmp_eq s r (length r) then Some i
      else strnstr_from s c r (slen - 1) (Suc i))"

fun sms_strnstr :: "string \<Rightarrow> string \<Rightarrow> nat \<Rightarrow> nat option" where
  "sms_strnstr s [] slen = Some 0"
| "sms_strnstr s (c # r) slen = strnstr_from s c r slen 0"

lemma strnstr_from_Some_iff:
  "strnstr_from s c r n k = Some i \<longleftrightarrow>
     k \<le> i \<and> prefix (c # r) (drop (i - k) s) \<and> i - k + Suc (length r) \<le> n \<and>
     (\<forall>j < i - k. \<not> prefix (c # r) (drop j s))"
proof (induction s c r n k rule: strnstr_from.induct)
  case (1 c r slen i')
  then show ?case by simp
next
  case (2 sc s c r n k)
  let ?R = "\<lambda>m. prefix (c # r) (drop m s)"
  have step: "(k \<le> i \<and> prefix (c # r) (drop (i - k) (sc # s)) \<and> i - k + Suc (length r) \<le> n \<and>
       (\<forall>j < i - k. \<not> prefix (c # r) (drop j (sc # s)))) \<longleftrightarrow>
      (i = k \<and> sc = c \<and> prefix r s \<and> Suc (length r) \<le> n) \<or>
      (Suc k \<le> i \<and> \<not> (sc = c \<and> prefix r s) \<and> ?R (i - Suc k) \<and>
         i - Suc k + Suc (length r) \<le> n - 1 \<and> 1 \<le> n \<and> (\<forall>j < i - Suc k. \<not> ?R j))"
    (is "?L \<longleftrightarrow> ?A \<or> ?B")
  proof (cases "i \<le> k")
    case True
    then show ?thesis by (cases "i = k") auto
  next
    case False
    then obtain d where d: "i = Suc (k + d)" by (metis less_imp_Suc_add not_le)
    then show ?thesis by (auto simp: All_less_Suc2)
  qed
  show ?case
    using "2.IH"
    by (subst step) (auto simp: strncmp_eq_prefix)
qed

lemma sms_strnstr_Some_iff:
  "sms_strnstr s f n = Some i \<longleftrightarrow>
     prefix f (drop i s) \<and> (f = [] \<longrightarrow> i = 0) \<and> (f \<noteq> [] \<longrightarrow> i + length f \<le> n) \<and>
     (\<forall>j < i. \<not> prefix f (drop j s))"
  by (cases f) (auto simp: strnstr_from_Some_iff)

text \<open>With the searched string's own length as the bound, as every policy check calls it, the
  search is a prefix test.\<close>

lemma sms_strnstr_self_length [cstr]:
  "sms_strnstr s f (length f) \<noteq> None \<longleftrightarrow> prefix f s"
proof -
  have "prefix f s \<Longrightarrow> sms_strnstr s f (length f) = Some 0"
    by (simp add: sms_strnstr_Some_iff)
  moreover have "sms_strnstr s f (length f) = Some i \<Longrightarrow> prefix f s" for i
    by (cases i) (auto simp: sms_strnstr_Some_iff)
  ultimately show ?thesis by auto
qed

subsection \<open>Unbounded search without backtracking\<close>

definition starts :: "char \<Rightarrow> string \<Rightarrow> bool" where
  "starts c f = (case f of [] \<Rightarrow> False | d # _ \<Rightarrow> c = d)"

lemma starts_simps [simp]: "\<not> starts c []" "starts c (d # f) \<longleftrightarrow> c = d"
  by (simp_all add: starts_def)

text \<open>The state of the loop of \<open>sms_strstr\<close>: \<open>pos\<close> is \<open>pczPos\<close>, \<open>fnd\<close> is \<open>pczFind\<close>.\<close>

definition strstr_step :: "string \<Rightarrow> char \<Rightarrow> nat \<Rightarrow> nat option \<Rightarrow> string \<Rightarrow> nat option \<times> string" where
  "strstr_step tok c i pos fnd =
     (let reset = (pos \<noteq> None \<and> \<not> starts c fnd);
          pos1 = (if reset then None else pos);
          fnd1 = (if reset then tok else fnd);
          pos2 = (if pos1 = None \<and> starts c fnd1 then Some i else pos1);
          fnd2 = (if pos2 \<noteq> None \<and> starts c fnd1 then tl fnd1 else fnd1)
      in (pos2, fnd2))"

fun strstr_loop :: "string \<Rightarrow> string \<Rightarrow> nat \<Rightarrow> nat option \<Rightarrow> string \<Rightarrow> nat option" where
  "strstr_loop tok [] i pos fnd = None"
| "strstr_loop tok (c # s) i pos fnd =
     (case strstr_step tok c i pos fnd of (pos2, fnd2) \<Rightarrow>
        if pos2 \<noteq> None \<and> fnd2 = [] then pos2 else strstr_loop tok s (Suc i) pos2 fnd2)"

declare strstr_step_def [simp]

definition sms_strstr :: "string \<Rightarrow> string \<Rightarrow> nat option" where
  "sms_strstr s tok = strstr_loop tok s 0 None tok"

text \<open>The loop invariant: a match in progress has matched the text between \<open>pos\<close> and here.\<close>

definition strstr_inv :: "string \<Rightarrow> string \<Rightarrow> nat option \<Rightarrow> string \<Rightarrow> bool" where
  "strstr_inv tok pre pos fnd =
     (case pos of None \<Rightarrow> fnd = tok
      | Some p \<Rightarrow> p < length pre \<and> fnd \<noteq> [] \<and> tok = drop p pre @ fnd)"

lemma strstr_loop_sound:
  "strstr_inv tok pre pos fnd \<Longrightarrow> strstr_loop tok s (length pre) pos fnd = Some q \<Longrightarrow>
     prefix tok (drop q (pre @ s))"
proof (induction s arbitrary: pre pos fnd)
  case Nil
  then show ?case by simp
next
  case (Cons c s)
  have IH: "strstr_inv tok (pre @ [c]) pos' fnd' \<Longrightarrow>
      strstr_loop tok s (Suc (length pre)) pos' fnd' = Some q \<Longrightarrow>
      prefix tok (drop q (pre @ c # s))" for pos' fnd'
    using Cons.IH [of "pre @ [c]" pos' fnd'] by simp
  show ?case
  proof (cases "\<exists>p f. pos = Some p \<and> fnd = c # f")
    case True
    then obtain p f where pf: "pos = Some p" "fnd = c # f" by blast
    with Cons.prems(1) have p: "p < length pre" "tok = drop p pre @ c # f"
      by (simp_all add: strstr_inv_def)
    show ?thesis
    proof (cases "f = []")
      case True
      with pf Cons.prems(2) p show ?thesis by (simp add: prefix_def)
    next
      case False
      with pf Cons.prems(2) p show ?thesis
        by (intro IH) (auto simp: strstr_inv_def Let_def)
    qed
  next
    case False
    with Cons.prems have r: "strstr_loop tok (c # s) (length pre) None tok = Some q"
      by (cases pos; cases fnd) (auto simp: strstr_inv_def Let_def)
    show ?thesis
    proof (cases tok)
      case Nil
      then show ?thesis by simp
    next
      case (Cons d f)
      show ?thesis
      proof (cases "c = d")
        case True
        show ?thesis
        proof (cases "f = []")
          case True
          with \<open>c = d\<close> r Cons show ?thesis by (simp add: Let_def)
        next
          case False
          with \<open>c = d\<close> r Cons
          have "strstr_loop tok s (Suc (length pre)) (Some (length pre)) f = Some q"
            by (simp add: Let_def)
          with False \<open>c = d\<close> Cons show ?thesis
            by (intro IH) (simp_all add: strstr_inv_def)
        qed
      next
        case False
        with r Cons have "strstr_loop tok s (Suc (length pre)) None tok = Some q"
          by (simp add: Let_def)
        then show ?thesis by (intro IH) (simp_all add: strstr_inv_def)
      qed
    qed
  qed
qed

lemma sms_strstr_sound: "sms_strstr s tok = Some q \<Longrightarrow> prefix tok (drop q s)"
  using strstr_loop_sound [of tok "[]" None tok s q]
  by (simp add: sms_strstr_def strstr_inv_def)

lemma strstr_loop_finish:
  "u \<noteq> [] \<Longrightarrow> strstr_loop tok (u @ v) i (Some q) u = Some q"
proof (induction u arbitrary: i)
  case Nil
  then show ?case by simp
next
  case (Cons c u)
  then show ?case by (cases "u = []") (auto simp: Let_def)
qed

lemma strstr_loop_complete:
  assumes uniq: "d \<notin> set f"
  shows "(pos = None \<and> fnd = d # f) \<or> (pos \<noteq> None \<and> set fnd \<subseteq> set f \<and> fnd \<noteq> []) \<Longrightarrow>
     strstr_loop (d # f) (w @ d # f @ v) i pos fnd \<noteq> None"
proof (induction w arbitrary: i pos fnd)
  case Nil
  then have "\<not> (pos \<noteq> None \<and> starts d fnd)"
    using uniq by (cases fnd) auto
  then have "strstr_loop (d # f) (d # f @ v) i pos fnd =
      (if f = [] then Some i else strstr_loop (d # f) (f @ v) (Suc i) (Some i) f)"
    using Nil by (cases pos) (auto simp: Let_def)
  then show ?case by (simp add: strstr_loop_finish)
next
  case (Cons c w)
  show ?case
  proof (cases "pos \<noteq> None \<and> starts c fnd")
    case True
    then obtain g where g: "fnd = c # g" by (cases fnd) auto
    with True Cons.prems show ?thesis
      using Cons.IH [of pos g "Suc i"] by (cases "g = []") (auto simp: Let_def)
  next
    case False
    have none: "strstr_loop (d # f) (w @ d # f @ v) (Suc i) None (d # f) \<noteq> None"
      by (rule Cons.IH) simp
    have some: "f \<noteq> [] \<Longrightarrow> strstr_loop (d # f) (w @ d # f @ v) (Suc i) (Some i) f \<noteq> None"
      by (rule Cons.IH) simp
    from False Cons.prems
    have "strstr_loop (d # f) (c # w @ d # f @ v) i pos fnd =
        (if c = d then (if f = [] then Some i
             else strstr_loop (d # f) (w @ d # f @ v) (Suc i) (Some i) f)
         else strstr_loop (d # f) (w @ d # f @ v) (Suc i) None (d # f))"
      by (cases pos) (auto simp: Let_def)
    with none some show ?thesis by simp
  qed
qed

lemma sms_strstr_complete:
  assumes "d \<notin> set f" and "prefix (d # f) (drop q s)"
  shows "sms_strstr s (d # f) \<noteq> None"
proof -
  from assms(2) obtain v where "drop q s = d # f @ v" by (auto simp: prefix_def)
  then have "s = take q s @ d # f @ v" by (metis append_take_drop_id)
  then show ?thesis
    using strstr_loop_complete [OF assms(1), of None "d # f" "take q s" v 0]
    by (simp add: sms_strstr_def)
qed

subsection \<open>The second search routine\<close>

text \<open>\<open>same_run a b\<close> is how far the inner loop of \<open>sms_strstr2\<close> runs: it stops at the first
  difference; when both strings end together the terminators are equal and the loop reads
  past them, which is undefined.\<close>

fun same_run :: "string \<Rightarrow> string \<Rightarrow> nat option" where
  "same_run [] [] = None"
| "same_run [] (d # ds) = Some 0"
| "same_run (c # cs) [] = Some 0"
| "same_run (c # cs) (d # ds) = (if c = d then map_option Suc (same_run cs ds) else Some 0)"

fun strstr2_from :: "string \<Rightarrow> string \<Rightarrow> nat \<Rightarrow> nat option option" where
  "strstr2_from [] tok i = Some None"
| "strstr2_from (c # cs) tok i =
     (if starts c tok then
        (case same_run cs (tl tok) of
           None \<Rightarrow> None
         | Some n \<Rightarrow> if Suc n = length tok then Some (Some i) else strstr2_from cs tok (Suc i))
      else strstr2_from cs tok (Suc i))"

definition sms_strstr2 :: "string \<Rightarrow> string \<Rightarrow> nat option option" where
  "sms_strstr2 s tok = strstr2_from s tok 0"

lemma same_run_None_iff: "same_run a b = None \<longleftrightarrow> a = b"
  by (induction a b rule: same_run.induct) auto

lemma same_run_full_iff: "same_run a b = Some (length b) \<longleftrightarrow> strict_prefix b a"
proof (induction a b rule: same_run.induct)
  case (4 c cs d ds)
  then show ?case by (auto simp: strict_prefix_def)
qed (auto simp: strict_prefix_def)

lemma strstr2_from_eq:
  "tok \<noteq> [] \<Longrightarrow> strstr2_from s tok i =
     (case List.find (\<lambda>j. prefix tok (drop j s)) [0..<Suc (length s)] of
        None \<Rightarrow> Some None
      | Some j \<Rightarrow> if drop j s = tok then None else Some (Some (i + j)))"
proof (induction s arbitrary: i)
  case Nil
  then show ?case by simp
next
  case (Cons c cs)
  have shift: "List.find (\<lambda>j. prefix tok (drop j (c # cs))) [0..<Suc (length (c # cs))] =
      (if prefix tok (c # cs) then Some 0
       else map_option Suc (List.find (\<lambda>j. prefix tok (drop j cs)) [0..<Suc (length cs)]))"
  proof -
    have "[0..<Suc (length (c # cs))] = 0 # map Suc [0..<Suc (length cs)]"
      by (simp add: map_Suc_upt upt_conv_Cons del: upt_Suc)
    moreover have "List.find P (map Suc ns) = map_option Suc (List.find (\<lambda>j. P (Suc j)) ns)" for P ns
      by (induction ns) auto
    ultimately show ?thesis by (simp del: upt_Suc)
  qed
  obtain d f where tok: "tok = d # f" using Cons.prems by (cases tok) auto
  show ?case
  proof (cases "prefix tok (c # cs)")
    case True
    then have cd: "c = d" "prefix f cs" using tok by auto
    show ?thesis
    proof (cases "cs = f")
      case True
      then show ?thesis using tok cd shift by (simp add: same_run_None_iff [THEN iffD2] del: upt_Suc)
    next
      case False
      with cd have "same_run cs f = Some (length f)"
        by (simp add: same_run_full_iff strict_prefix_def)
      then show ?thesis using tok cd False shift True by (simp del: upt_Suc)
    qed
  next
    case False
    have "strstr2_from (c # cs) tok i = strstr2_from cs tok (Suc i)"
    proof (cases "c = d")
      case True
      with False tok have "\<not> prefix f cs" by simp
      then have "same_run cs f \<noteq> None" "same_run cs f \<noteq> Some (length f)"
        by (auto simp: same_run_None_iff same_run_full_iff strict_prefix_def)
      with tok True show ?thesis by (auto split: option.splits)
    next
      case False
      with tok show ?thesis by simp
    qed
    also have "\<dots> = (case List.find (\<lambda>j. prefix tok (drop j cs)) [0..<Suc (length cs)] of
        None \<Rightarrow> Some None
      | Some j \<Rightarrow> if drop j cs = tok then None else Some (Some (Suc i + j)))"
      by (rule Cons.IH [OF Cons.prems])
    finally show ?thesis using False shift
      by (auto split: option.splits simp del: upt_Suc)
  qed
qed

subsection \<open>Last occurrence\<close>

fun strrchr_from :: "string \<Rightarrow> char \<Rightarrow> nat \<Rightarrow> nat option \<Rightarrow> nat option" where
  "strrchr_from [] ch i tok = (if ch = NUL then Some i else tok)"
| "strrchr_from (c # s) ch i tok = strrchr_from s ch (Suc i) (if c = ch then Some i else tok)"

definition sms_strrchr :: "string \<Rightarrow> char \<Rightarrow> nat option" where
  "sms_strrchr s ch = strrchr_from s ch 0 None"

lemma strrchr_from_absent: "ch \<notin> set s \<Longrightarrow> ch \<noteq> NUL \<Longrightarrow> strrchr_from s ch i tok = tok"
  by (induction s arbitrary: i tok) auto

lemma strrchr_from_last:
  "ch \<notin> set t \<Longrightarrow> ch \<noteq> NUL \<Longrightarrow> strrchr_from (s @ ch # t) ch i tok = Some (i + length s)"
  by (induction s arbitrary: i tok) (auto simp: strrchr_from_absent)

lemma sms_strrchr_Some_iff:
  assumes "ch \<noteq> NUL"
  shows "sms_strrchr s ch = Some i \<longleftrightarrow> i < length s \<and> s ! i = ch \<and> ch \<notin> set (drop (Suc i) s)"
proof
  assume i: "i < length s \<and> s ! i = ch \<and> ch \<notin> set (drop (Suc i) s)"
  then have "s = take i s @ ch # drop (Suc i) s" by (metis id_take_nth_drop)
  with i assms show "sms_strrchr s ch = Some i"
    using strrchr_from_last [of ch "drop (Suc i) s" "take i s" 0 None]
    by (simp add: sms_strrchr_def min_absorb2)
next
  assume r: "sms_strrchr s ch = Some i"
  have "ch \<in> set s"
    using r assms strrchr_from_absent [of ch s 0 None] by (auto simp: sms_strrchr_def)
  then obtain u v where uv: "s = u @ ch # v" "ch \<notin> set v" by (auto dest: split_list_last)
  then have "sms_strrchr s ch = Some (length u)"
    using strrchr_from_last [of ch v u 0 None] assms by (simp add: sms_strrchr_def)
  with r uv show "i < length s \<and> s ! i = ch \<and> ch \<notin> set (drop (Suc i) s)" by simp
qed

subsection \<open>Properties\<close>



text \<open>The search gives up a partial match without going back, so a token that does occur can
  be missed: \<open>aab\<close> is not found in \<open>aaab\<close>.\<close>

theorem sms_strstr_incomplete: "sms_strstr ''aaab'' ''aab'' = None \<and> prefix ''aab'' (drop 1 ''aaab'')"
  by (simp add: sms_strstr_def)

end
