(* ===== verification/KextState.thy ===== *)
theory KextState
  imports CStrings
begin

text \<open>
  The global state \<open>g_DrvKext\<close> of the kernel control agent (PIKern): the structures of
  \<open>apple/include/KernelProtocol.h\<close> and \<open>PIKern/PISecSmartDataType.h\<close> as records, arrays as
  lists of their capacity, counters at their width, character arrays as the text they hold.
  Locks, channel handles and thread structures are not part of the state. \<open>wf_kext\<close> is what
  every array access of the agent relies on: the arrays have their capacity and no counter
  exceeds it.
\<close>

subsection \<open>Sizes\<close>

definition MAX_DEVICE :: nat where "MAX_DEVICE = 36"
definition MAX_POLICY :: nat where "MAX_POLICY = 36"
definition MAX_DRIVE :: nat where "MAX_DRIVE = 26"
definition MAX_ALLOW_PROCNAME :: nat where "MAX_ALLOW_PROCNAME = 64"
definition MAX_ALLOW_PROCID :: nat where "MAX_ALLOW_PROCID = 64"
definition MAX_ALLOW_FOLDERNAME :: nat where "MAX_ALLOW_FOLDERNAME = 64"
definition MAX_FOLDER_NAME :: nat where "MAX_FOLDER_NAME = 128"
definition MAX_BASE_SIZE :: nat where "MAX_BASE_SIZE = 256"
definition MAX_DEVICE_SIZE :: nat where "MAX_DEVICE_SIZE = 260"
definition MAX_FILE_LENGTH :: nat where "MAX_FILE_LENGTH = 1024"
definition DEVICE_NAME_SZ :: nat where "DEVICE_NAME_SZ = 256"
definition MB_NODE_COUNT :: nat where "MB_NODE_COUNT = 30"
definition USBMOBILE_PERMIT_COUNT :: nat where "USBMOBILE_PERMIT_COUNT = 256"
definition SPT_SERVICE_COUNT :: nat where "SPT_SERVICE_COUNT = 32"
definition MAX_QT_COUNT :: nat where "MAX_QT_COUNT = 3"

lemmas size_defs [simp] =
  MAX_DEVICE_def MAX_POLICY_def MAX_DRIVE_def MAX_ALLOW_PROCNAME_def MAX_ALLOW_PROCID_def
  MAX_ALLOW_FOLDERNAME_def MAX_FOLDER_NAME_def MAX_BASE_SIZE_def MAX_DEVICE_SIZE_def
  MAX_FILE_LENGTH_def DEVICE_NAME_SZ_def MB_NODE_COUNT_def USBMOBILE_PERMIT_COUNT_def
  SPT_SERVICE_COUNT_def MAX_QT_COUNT_def

subsection \<open>Devices and policies\<close>

record attached_device =
  bLoggingOn :: u64
  bDisableAll :: u64
  bDisableRead :: u64
  bDisableWrite :: u64
  nReserved1 :: u32
  DeviceNames :: string

record attached_device_ex =
  cDevice :: attached_device
  ulStorDevType :: u32

text \<open>A zeroed element, as \<open>memset\<close> leaves it (not the constructor's, whose \<open>nReserved1\<close>
  is -1).\<close>

definition zero_device :: attached_device where
  "zero_device = \<lparr>bLoggingOn = 0, bDisableAll = 0, bDisableRead = 0, bDisableWrite = 0,
     nReserved1 = 0, DeviceNames = []\<rparr>"

definition zero_device_ex :: attached_device_ex where
  "zero_device_ex = \<lparr>cDevice = zero_device, ulStorDevType = 0\<rparr>"

record drv_policy =
  pol_nCount :: u32
  pol_DeviceEx :: "attached_device_ex list"

record drv_except =
  ex_nCount :: u32
  ex_DriveEx :: "attached_device_ex list"

record drv_ctx =
  Policy :: drv_policy
  Except :: drv_except

record volume_device =
  ulBusType :: u32
  ulDeviceType :: u32
  czBasePath :: string
  czDriverName :: string
  czDeviceName :: string

definition zero_volume :: volume_device where
  "zero_volume = \<lparr>ulBusType = 0, ulDeviceType = 0, czBasePath = [], czDriverName = [],
     czDeviceName = []\<rparr>"

record volume_ctx =
  vol_nCount :: u32
  VolumeDevice :: "volume_device list"

record print_policy =
  pp_bPolicy :: u64
  pp_nPolicyType :: u32
  pp_bWatermark :: u64
  pp_bLoggingOn :: u64
  pp_bDisableAll :: u64
  pp_bDisableRead :: u64
  pp_bDisableWrite :: u64
  pp_nReserved1 :: u32
  pp_czDeviceName :: string

record upload_policy =
  up_bPolicy :: u64
  up_nPolicyType :: u32
  up_bLoggingOn :: u64
  up_bDisableWrite :: u64
  up_nReserved1 :: u32

record qt_entry =
  ulQtType :: u32
  czBuffer :: string

record qt_ctx =
  bQtLimit :: u64
  ulCount :: u32
  Entry :: "qt_entry list"

record mb_policy =
  bMtpLog :: u64
  bMtpBlock :: u64
  bPtpLog :: u64
  bPtpBlock :: u64
  bAndroidLog :: u64
  bAndroidBlock :: u64
  bAppleLog :: u64
  bAppleBlock :: u64

datatype mb_type = MB_TYPE_NONE | MB_TYPE_MTP | MB_TYPE_PTP | MB_TYPE_ANDROID | MB_TYPE_APPLE

record mb_node =
  MbType :: mb_type
  nd_czBasePath :: string
  czKeyword :: string

record mb_permit =
  czMediaName :: string
  czMediaID :: string

record mobile_ctx =
  mb_Policy :: mb_policy
  pNewMBNodes :: "mb_node option list"
  pNewPermitList :: "mb_permit option list"

record spt_service =
  svc_nPID :: u32
  czPList :: string

record self_protect =
  bProtect :: u64
  nService :: u32
  FilePath :: string
  Services :: "spt_service list"

record proc_ac_policy =
  ac_bLog :: u64
  bProcAC :: u64

record bluetooth_policy =
  bBluetoothLog :: u64
  bBluetoothBlock :: u64
  bSelectedBluetoothBlock :: u64

record camera_policy =
  bCameraLog :: u64
  bCameraBlock :: u64
  cam_nReserved :: u32

record rndis_policy =
  bRNdisLog :: u64
  bRNdisBlock :: u64

record airdrop_policy =
  bAirDropLog :: u64
  bAirDropBlock :: u64
  ad_nReserved0 :: u32
  ad_nReserved1 :: u32
  ad_nReserved2 :: u32
  ad_nReserved3 :: u32

record media_ctx =
  Bth :: bluetooth_policy
  Camera :: camera_policy
  Rndis :: rndis_policy
  AirDrop :: airdrop_policy

subsection \<open>The agent's state\<close>

record drv_kext =
  nDeviceCount :: u32
  CtrlDeviceEx :: "attached_device_ex list"
  nAllowProcName :: u32
  AllowProcName :: "string list"
  nAllowProcID :: u32
  AllowProcID :: "u32 list"
  nAllowFolder :: u32
  AllowFolder :: "string list"
  nAllowFileExt :: u32
  AllowFileExt :: "string list"
  VolCtx :: volume_ctx
  QtCtx :: qt_ctx
  DrvCtx :: drv_ctx
  MobileCtx :: mobile_ctx
  MediaCtx :: media_ctx
  nAgentPID :: u32
  PrintCtx :: print_policy
  UploadCtx :: upload_policy
  SelfCtx :: self_protect
  ProcCtx :: proc_ac_policy

text \<open>Capacities of all arrays, and counters within them.\<close>

definition wf_arrays :: "drv_kext \<Rightarrow> bool" where
  "wf_arrays k \<longleftrightarrow>
     length (CtrlDeviceEx k) = MAX_DEVICE \<and>
     length (AllowProcName k) = MAX_ALLOW_PROCNAME \<and>
     length (AllowProcID k) = MAX_ALLOW_PROCID \<and>
     length (AllowFolder k) = MAX_ALLOW_FOLDERNAME \<and>
     length (AllowFileExt k) = MAX_ALLOW_FOLDERNAME \<and>
     length (VolumeDevice (VolCtx k)) = MAX_DEVICE \<and>
     length (Entry (QtCtx k)) = MAX_QT_COUNT \<and>
     length (pol_DeviceEx (Policy (DrvCtx k))) = MAX_POLICY \<and>
     length (ex_DriveEx (Except (DrvCtx k))) = MAX_DEVICE \<and>
     length (pNewMBNodes (MobileCtx k)) = MB_NODE_COUNT \<and>
     length (pNewPermitList (MobileCtx k)) = USBMOBILE_PERMIT_COUNT \<and>
     length (Services (SelfCtx k)) = SPT_SERVICE_COUNT"

definition wf_counts :: "drv_kext \<Rightarrow> bool" where
  "wf_counts k \<longleftrightarrow>
     unat (nDeviceCount k) \<le> MAX_DEVICE \<and>
     unat (nAllowProcName k) \<le> MAX_ALLOW_PROCNAME \<and>
     unat (nAllowProcID k) \<le> MAX_ALLOW_PROCID \<and>
     unat (nAllowFolder k) \<le> MAX_ALLOW_FOLDERNAME \<and>
     unat (nAllowFileExt k) \<le> MAX_ALLOW_FOLDERNAME \<and>
     unat (vol_nCount (VolCtx k)) \<le> MAX_DEVICE \<and>
     unat (pol_nCount (Policy (DrvCtx k))) \<le> MAX_POLICY \<and>
     unat (ex_nCount (Except (DrvCtx k))) \<le> MAX_DEVICE \<and>
     unat (nService (SelfCtx k)) \<le> SPT_SERVICE_COUNT"

definition wf_kext :: "drv_kext \<Rightarrow> bool" where
  "wf_kext k \<longleftrightarrow> wf_arrays k \<and> wf_counts k"

lemmas wf_defs = wf_kext_def wf_arrays_def wf_counts_def

text \<open>The state after \<open>DrvKext_Init\<close>: every structure zeroed, the quarantine limit on.\<close>

definition kext_boot :: drv_kext where
  "kext_boot = \<lparr>
     nDeviceCount = 0, CtrlDeviceEx = replicate MAX_DEVICE zero_device_ex,
     nAllowProcName = 0, AllowProcName = replicate MAX_ALLOW_PROCNAME [],
     nAllowProcID = 0, AllowProcID = replicate MAX_ALLOW_PROCID 0,
     nAllowFolder = 0, AllowFolder = replicate MAX_ALLOW_FOLDERNAME [],
     nAllowFileExt = 0, AllowFileExt = replicate MAX_ALLOW_FOLDERNAME [],
     VolCtx = \<lparr>vol_nCount = 0, VolumeDevice = replicate MAX_DEVICE zero_volume\<rparr>,
     QtCtx = \<lparr>bQtLimit = 1, ulCount = 0,
       Entry = replicate MAX_QT_COUNT \<lparr>ulQtType = 0, czBuffer = []\<rparr>\<rparr>,
     DrvCtx = \<lparr>Policy = \<lparr>pol_nCount = 0, pol_DeviceEx = replicate MAX_POLICY zero_device_ex\<rparr>,
       Except = \<lparr>ex_nCount = 0, ex_DriveEx = replicate MAX_DEVICE zero_device_ex\<rparr>\<rparr>,
     MobileCtx = \<lparr>mb_Policy = \<lparr>bMtpLog = 0, bMtpBlock = 0, bPtpLog = 0, bPtpBlock = 0,
         bAndroidLog = 0, bAndroidBlock = 0, bAppleLog = 0, bAppleBlock = 0\<rparr>,
       pNewMBNodes = replicate MB_NODE_COUNT None,
       pNewPermitList = replicate USBMOBILE_PERMIT_COUNT None\<rparr>,
     MediaCtx = \<lparr>Bth = \<lparr>bBluetoothLog = 0, bBluetoothBlock = 0, bSelectedBluetoothBlock = 0\<rparr>,
       Camera = \<lparr>bCameraLog = 0, bCameraBlock = 0, cam_nReserved = 0\<rparr>,
       Rndis = \<lparr>bRNdisLog = 0, bRNdisBlock = 0\<rparr>,
       AirDrop = \<lparr>bAirDropLog = 0, bAirDropBlock = 0, ad_nReserved0 = 0, ad_nReserved1 = 0,
         ad_nReserved2 = 0, ad_nReserved3 = 0\<rparr>\<rparr>,
     nAgentPID = 0,
     PrintCtx = \<lparr>pp_bPolicy = 0, pp_nPolicyType = 0, pp_bWatermark = 0, pp_bLoggingOn = 0,
       pp_bDisableAll = 0, pp_bDisableRead = 0, pp_bDisableWrite = 0, pp_nReserved1 = 0,
       pp_czDeviceName = []\<rparr>,
     UploadCtx = \<lparr>up_bPolicy = 0, up_nPolicyType = 0, up_bLoggingOn = 0, up_bDisableWrite = 0,
       up_nReserved1 = 0\<rparr>,
     SelfCtx = \<lparr>bProtect = 0, nService = 0, FilePath = [],
       Services = replicate SPT_SERVICE_COUNT \<lparr>svc_nPID = 0, czPList = []\<rparr>\<rparr>,
     ProcCtx = \<lparr>ac_bLog = 0, bProcAC = 0\<rparr>\<rparr>"

lemma wf_kext_boot: "wf_kext kext_boot"
  by (simp add: wf_defs kext_boot_def)

subsection \<open>Bus types and device codes\<close>

definition BusTypeUnknown :: u32 where "BusTypeUnknown = 0"
definition BusTypeAtapi :: u32 where "BusTypeAtapi = 2"
definition BusType1394 :: u32 where "BusType1394 = 4"
definition BusTypeUsb :: u32 where "BusTypeUsb = 7"
definition BusTypeSFolder :: u32 where "BusTypeSFolder = 0x21"
definition BusTypeThunderBolt :: u32 where "BusTypeThunderBolt = 0x31"

lemmas bus_defs =
  BusTypeUnknown_def BusTypeAtapi_def BusType1394_def BusTypeUsb_def BusTypeSFolder_def
  BusTypeThunderBolt_def

text \<open>\<open>g_pDeviceType_V6_List\<close>: the policy code of each kind of device.\<close>

datatype device_v6 =
    DEVICE_V6_COPY | DEVICE_V6_CDDVD | DEVICE_V6_FLOPPY | DEVICE_V6_USB | DEVICE_V6_NETDRIVE
  | DEVICE_V6_SERIAL | DEVICE_V6_PARALLEL | DEVICE_V6_IEEE1394

fun device_v6_code :: "device_v6 \<Rightarrow> u32" where
  "device_v6_code DEVICE_V6_COPY = 0x0001"
| "device_v6_code DEVICE_V6_CDDVD = 0x0002"
| "device_v6_code DEVICE_V6_FLOPPY = 0x0004"
| "device_v6_code DEVICE_V6_USB = 0x0008"
| "device_v6_code DEVICE_V6_NETDRIVE = 0x0010"
| "device_v6_code DEVICE_V6_SERIAL = 0x0020"
| "device_v6_code DEVICE_V6_PARALLEL = 0x0040"
| "device_v6_code DEVICE_V6_IEEE1394 = 0x0080"

end
