(* ===== verification/DrvPolicy.thy ===== *)
theory DrvPolicy
  imports KextState
begin

text \<open>
  Which volumes the agent controls and how: the exception list, the drive policies and the
  volume table (\<open>DrvCtx_*\<close> of \<open>PIKern/SmartCmd.cpp\<close>, \<open>VolCtx_*\<close> and \<open>GetMountPath\<close> of
  \<open>PIKern/PISecSmartDrv.c\<close>, \<open>FetchVolumes\<close> of \<open>PIKern/KextDeviceNotify.cpp\<close>, the monitor table
  of \<open>PIKern/PIESF.cpp\<close>), on the Linux branch of the conditional compilation. The control
  table is specified by \<open>ctrl_entry\<close>: the first exception of a volume, else the first policy
  for its bus type, if it restricts or logs anything.
\<close>

subsection \<open>Building the control table\<close>

definition DrvCtx_Except_Search :: "string \<Rightarrow> drv_kext \<Rightarrow> attached_device_ex option option" where
  "DrvCtx_Except_Search vol k =
     scan_from (\<lambda>d. strcaseeq (DeviceNames (cDevice d)) vol)
       (ex_DriveEx (Except (DrvCtx k))) 0 (unat (ex_nCount (Except (DrvCtx k))))"

definition dev_active :: "attached_device_ex \<Rightarrow> bool" where
  "dev_active d \<longleftrightarrow> truthy (bLoggingOn (cDevice d)) \<or> truthy (bDisableAll (cDevice d)) \<or>
     truthy (bDisableRead (cDevice d)) \<or> truthy (bDisableWrite (cDevice d))"

definition DrvCtx_Policy_Apply :: "attached_device_ex \<Rightarrow> drv_kext \<Rightarrow> (bool \<times> drv_kext) option" where
  "DrvCtx_Policy_Apply d k =
     (if dev_active d then do {
        ctrl \<leftarrow> wr_at (CtrlDeviceEx k) (unat (nDeviceCount k)) d;
        Some (True, k\<lparr>CtrlDeviceEx := ctrl, nDeviceCount := nDeviceCount k + 1\<rparr>)
      } else Some (False, k))"

text \<open>On Linux the volume's name never gives a bus type.\<close>

definition GetBusTypeFromVolume :: "string \<Rightarrow> u32" where
  "GetBusTypeFromVolume vol = BusTypeUnknown"

definition effective_bus :: "volume_device \<Rightarrow> u32" where
  "effective_bus v = (if ulBusType v = BusTypeUnknown then GetBusTypeFromVolume (czBasePath v)
     else ulBusType v)"

definition drive_policy_applies :: "u32 \<Rightarrow> u32 \<Rightarrow> bool" where
  "drive_policy_applies bus code =
     (if bus = BusTypeUsb \<or> bus = BusType1394 \<or> bus = BusTypeThunderBolt then
        (if code = device_v6_code DEVICE_V6_COPY then True
         else code = device_v6_code DEVICE_V6_USB)
      else if bus = BusTypeAtapi then code = device_v6_code DEVICE_V6_CDDVD
      else if bus = BusTypeSFolder then code = device_v6_code DEVICE_V6_NETDRIVE
      else False)"

definition with_name :: "string \<Rightarrow> attached_device_ex \<Rightarrow> attached_device_ex" where
  "with_name nm d = d\<lparr>cDevice := (cDevice d)\<lparr>DeviceNames := nm\<rparr>\<rparr>"

text \<open>The policy loop: \<open>i\<close> is \<open>nPos\<close>, the next argument the policies left.\<close>

fun update_name_loop :: "volume_device \<Rightarrow> attached_device_ex list \<Rightarrow> nat \<Rightarrow> nat \<Rightarrow> drv_kext
    \<Rightarrow> drv_kext option" where
  "update_name_loop v pols i 0 k = Some k"
| "update_name_loop v pols i (Suc n) k = do {
     d \<leftarrow> rd_at pols i;
     nm \<leftarrow> strncpy0 DEVICE_NAME_SZ (czBasePath v) (length (czBasePath v) + 1);
     (if drive_policy_applies (effective_bus v) (ulStorDevType d)
      then map_option snd (DrvCtx_Policy_Apply (with_name nm d) k)
      else update_name_loop v pols (Suc i) n k)
   }"

definition DrvCtx_Policy_Update_DriveName :: "volume_device \<Rightarrow> drv_kext \<Rightarrow> drv_kext option" where
  "DrvCtx_Policy_Update_DriveName v k = do {
     e \<leftarrow> DrvCtx_Except_Search (czBasePath v) k;
     (case e of
        Some x \<Rightarrow> map_option snd (DrvCtx_Policy_Apply x k)
      | None \<Rightarrow>
          if pol_nCount (Policy (DrvCtx k)) = 0 then Some k
          else update_name_loop v (pol_DeviceEx (Policy (DrvCtx k))) 0
                 (unat (pol_nCount (Policy (DrvCtx k)))) k)
   }"

fun policy_update_loop :: "nat \<Rightarrow> nat \<Rightarrow> drv_kext \<Rightarrow> drv_kext option" where
  "policy_update_loop i 0 k = Some k"
| "policy_update_loop i (Suc n) k = do {
     v \<leftarrow> rd_at (VolumeDevice (VolCtx k)) i;
     k' \<leftarrow> DrvCtx_Policy_Update_DriveName v k;
     policy_update_loop (Suc i) n k'
   }"

definition DrvCtx_Policy_Update :: "drv_kext \<Rightarrow> drv_kext option" where
  "DrvCtx_Policy_Update k = policy_update_loop 0 (unat (vol_nCount (VolCtx k)))
     (k\<lparr>nDeviceCount := 0, CtrlDeviceEx := replicate MAX_DEVICE zero_device_ex\<rparr>)"

subsection \<open>What the control table holds\<close>

definition excepts :: "drv_kext \<Rightarrow> attached_device_ex list" where
  "excepts k = take (unat (ex_nCount (Except (DrvCtx k)))) (ex_DriveEx (Except (DrvCtx k)))"

definition policies :: "drv_kext \<Rightarrow> attached_device_ex list" where
  "policies k = take (unat (pol_nCount (Policy (DrvCtx k)))) (pol_DeviceEx (Policy (DrvCtx k)))"

definition volumes :: "drv_kext \<Rightarrow> volume_device list" where
  "volumes k = take (unat (vol_nCount (VolCtx k))) (VolumeDevice (VolCtx k))"

definition controls :: "drv_kext \<Rightarrow> attached_device_ex list" where
  "controls k = take (unat (nDeviceCount k)) (CtrlDeviceEx k)"

lemmas table_defs = excepts_def policies_def volumes_def controls_def

definition ctrl_choice :: "drv_kext \<Rightarrow> volume_device \<Rightarrow> attached_device_ex option" where
  "ctrl_choice k v =
     (case List.find (\<lambda>d. strcaseeq (DeviceNames (cDevice d)) (czBasePath v)) (excepts k) of
        Some x \<Rightarrow> Some x
      | None \<Rightarrow> map_option (with_name (czBasePath v))
          (List.find (\<lambda>d. drive_policy_applies (effective_bus v) (ulStorDevType d)) (policies k)))"

definition ctrl_entry :: "drv_kext \<Rightarrow> volume_device \<Rightarrow> attached_device_ex option" where
  "ctrl_entry k v = (case ctrl_choice k v of
     Some d \<Rightarrow> if dev_active d then Some d else None | None \<Rightarrow> None)"

lemma table_cong:
  assumes "DrvCtx k' = DrvCtx k"
  shows "excepts k' = excepts k" and "policies k' = policies k" and "ctrl_entry k' v = ctrl_entry k v"
  unfolding ctrl_entry_def ctrl_choice_def excepts_def policies_def assms by (rule refl)+

text \<open>Appending an optional entry to the control table.\<close>

definition push_ctrl :: "drv_kext \<Rightarrow> attached_device_ex option \<Rightarrow> drv_kext" where
  "push_ctrl k e = (case e of None \<Rightarrow> k
     | Some d \<Rightarrow> k\<lparr>CtrlDeviceEx := (CtrlDeviceEx k)[unat (nDeviceCount k) := d],
                   nDeviceCount := nDeviceCount k + 1\<rparr>)"

lemma push_ctrl_None [simp]: "push_ctrl k None = k"
  by (simp add: push_ctrl_def)

lemma push_ctrl_frame [simp]:
  "VolCtx (push_ctrl k e) = VolCtx k" "DrvCtx (push_ctrl k e) = DrvCtx k"
  "length (CtrlDeviceEx (push_ctrl k e)) = length (CtrlDeviceEx k)"
  by (simp_all add: push_ctrl_def split: option.split)

lemma push_ctrl_tables [simp]:
  "excepts (push_ctrl k e) = excepts k" "policies (push_ctrl k e) = policies k"
  "ctrl_entry (push_ctrl k e) v = ctrl_entry k v"
  by (rule table_cong; simp)+

lemma unat_count_inc: "unat (n :: u32) < 36 \<Longrightarrow> unat (n + 1) = Suc (unat n)"
  by (simp add: unat_word_ariths)

lemma controls_push_ctrl:
  assumes "wf_arrays k" and "unat (nDeviceCount k) < MAX_DEVICE"
  shows "controls (push_ctrl k e) = controls k @ opt_list e"
  using assms
  by (auto simp: controls_def push_ctrl_def unat_count_inc wf_arrays_def take_Suc_snoc
      split: option.split)

lemma wf_push_ctrl:
  assumes "wf_kext k" and "unat (nDeviceCount k) < MAX_DEVICE"
  shows "wf_kext (push_ctrl k e)"
  using assms by (auto simp: wf_defs push_ctrl_def unat_count_inc split: option.split)

lemma DrvCtx_Policy_Apply_eq:
  assumes "dev_active d \<Longrightarrow> unat (nDeviceCount k) < length (CtrlDeviceEx k)"
  shows "map_option snd (DrvCtx_Policy_Apply d k) =
           Some (push_ctrl k (if dev_active d then Some d else None))"
  using assms by (auto simp: DrvCtx_Policy_Apply_def push_ctrl_def arr)

lemma DrvCtx_Except_Search_eq:
  assumes "wf_kext k"
  shows "DrvCtx_Except_Search vol k =
           Some (List.find (\<lambda>d. strcaseeq (DeviceNames (cDevice d)) vol) (excepts k))"
  using assms by (simp add: DrvCtx_Except_Search_def excepts_def arr wf_defs)

lemma update_name_loop_eq:
  assumes "i + n \<le> length pols" and "length (czBasePath v) < DEVICE_NAME_SZ"
    and "unat (nDeviceCount k) < length (CtrlDeviceEx k)"
  shows "update_name_loop v pols i n k = Some (push_ctrl k
     (case List.find (\<lambda>d. drive_policy_applies (effective_bus v) (ulStorDevType d))
         (take n (drop i pols)) of
        None \<Rightarrow> None
      | Some d \<Rightarrow> if dev_active (with_name (czBasePath v) d) then Some (with_name (czBasePath v) d)
          else None))"
  using assms(1)
proof (induction n arbitrary: i)
  case 0
  then show ?case by simp
next
  case (Suc n)
  then have "drop i pols = pols ! i # drop (Suc i) pols" by (simp add: Cons_nth_drop_Suc)
  with Suc assms(2,3) show ?case
    by (auto simp: arr strncpy0_fits [simplified] DrvCtx_Policy_Apply_eq)
qed

lemma DrvCtx_Policy_Update_DriveName_eq:
  assumes "wf_kext k" and "length (czBasePath v) < DEVICE_NAME_SZ"
    and "unat (nDeviceCount k) < MAX_DEVICE"
  shows "DrvCtx_Policy_Update_DriveName v k = Some (push_ctrl k (ctrl_entry k v))"
proof (cases "List.find (\<lambda>d. strcaseeq (DeviceNames (cDevice d)) (czBasePath v)) (excepts k)")
  case None
  have n: "unat (nDeviceCount k) < length (CtrlDeviceEx k)"
    using assms by (simp add: wf_defs)
  have "update_name_loop v (pol_DeviceEx (Policy (DrvCtx k))) 0
          (unat (pol_nCount (Policy (DrvCtx k)))) k = Some (push_ctrl k (ctrl_entry k v))"
    using assms(1)
    by (subst update_name_loop_eq [OF _ assms(2) n])
       (auto simp: wf_defs ctrl_entry_def ctrl_choice_def None policies_def split: option.split)
  moreover have "pol_nCount (Policy (DrvCtx k)) = 0 \<Longrightarrow> ctrl_entry k v = None"
    by (simp add: ctrl_entry_def ctrl_choice_def None policies_def)
  ultimately show ?thesis
    using assms(1) None by (auto simp: DrvCtx_Policy_Update_DriveName_def DrvCtx_Except_Search_eq)
next
  case (Some x)
  then show ?thesis
    using assms
    by (simp add: DrvCtx_Policy_Update_DriveName_def DrvCtx_Except_Search_eq
        DrvCtx_Policy_Apply_eq wf_defs ctrl_entry_def ctrl_choice_def)
qed

definition base_paths_ok :: "drv_kext \<Rightarrow> bool" where
  "base_paths_ok k \<longleftrightarrow> (\<forall>v \<in> set (volumes k). length (czBasePath v) < DEVICE_NAME_SZ)"

lemma policy_update_loop_eq:
  assumes "wf_kext k" and "i + n \<le> MAX_DEVICE" and "unat (nDeviceCount k) \<le> i"
    and "\<forall>v \<in> set (take n (drop i (VolumeDevice (VolCtx k)))). length (czBasePath v) < DEVICE_NAME_SZ"
  shows "\<exists>k'. policy_update_loop i n k = Some k' \<and> wf_kext k' \<and>
     controls k' = controls k @
       concat (map (\<lambda>v. opt_list (ctrl_entry k v)) (take n (drop i (VolumeDevice (VolCtx k))))) \<and>
     VolCtx k' = VolCtx k \<and> DrvCtx k' = DrvCtx k"
  using assms
proof (induction n arbitrary: i k)
  case 0
  then show ?case by simp
next
  case (Suc n)
  let ?v = "VolumeDevice (VolCtx k) ! i"
  let ?k = "push_ctrl k (ctrl_entry k ?v)"
  have i: "i < length (VolumeDevice (VolCtx k))" using Suc.prems by (simp add: wf_defs)
  then have d: "drop i (VolumeDevice (VolCtx k)) = ?v # drop (Suc i) (VolumeDevice (VolCtx k))"
    by (simp add: Cons_nth_drop_Suc)
  have lt: "unat (nDeviceCount k) < MAX_DEVICE" using Suc.prems by simp
  have upd: "DrvCtx_Policy_Update_DriveName ?v k = Some ?k"
    using Suc.prems lt d by (intro DrvCtx_Policy_Update_DriveName_eq) simp_all
  have "unat (nDeviceCount ?k) \<le> Suc i"
    using Suc.prems lt by (auto simp: push_ctrl_def unat_count_inc split: option.split)
  then obtain k' where k': "policy_update_loop (Suc i) n ?k = Some k'" "wf_kext k'"
      "controls k' = controls ?k @ concat (map (\<lambda>v. opt_list (ctrl_entry k v))
         (take n (drop (Suc i) (VolumeDevice (VolCtx k)))))"
      "VolCtx k' = VolCtx k" "DrvCtx k' = DrvCtx k"
    using Suc.IH [of ?k "Suc i"] Suc.prems lt d by (auto simp: wf_push_ctrl)
  have "controls ?k = controls k @ opt_list (ctrl_entry k ?v)"
    using Suc.prems(1) lt by (intro controls_push_ctrl) (simp_all add: wf_kext_def)
  with k' upd i d show ?case by (simp add: arr)
qed

lemma DrvCtx_Policy_Update_eq:
  assumes "wf_kext k" and "base_paths_ok k"
  shows "\<exists>k'. DrvCtx_Policy_Update k = Some k' \<and> wf_kext k' \<and>
     controls k' = concat (map (\<lambda>v. opt_list (ctrl_entry k v)) (volumes k)) \<and>
     VolCtx k' = VolCtx k \<and> DrvCtx k' = DrvCtx k"
proof -
  let ?k = "k\<lparr>nDeviceCount := 0, CtrlDeviceEx := replicate MAX_DEVICE zero_device_ex\<rparr>"
  have "wf_kext ?k" using assms(1) by (simp add: wf_defs)
  moreover have "ctrl_entry ?k v = ctrl_entry k v" for v by (rule table_cong) simp
  ultimately show ?thesis
    using policy_update_loop_eq [of ?k 0 "unat (vol_nCount (VolCtx k))"] assms
    by (auto simp: DrvCtx_Policy_Update_def wf_defs base_paths_ok_def volumes_def controls_def)
qed

end
