(* ===== verification/SmartCmd.thy ===== *)
theory SmartCmd
  imports DrvPolicy
begin

text \<open>
  The command handlers of the agent (\<open>PIKern/SmartCmd.cpp\<close>): what each message of the
  supervisor does to \<open>g_DrvKext\<close>. A message carries its command, its total size and the
  structures in its data; a handler that finds the structures of another command there reads
  bytes the model does not interpret (\<open>None\<close>), and so does one that reads past the message or
  writes past an array. \<open>mem\<close> says whether an allocation succeeds.
\<close>

subsection \<open>Messages\<close>

datatype payload =
    DevicesEx "attached_device_ex list"
  | Devices "attached_device list"
  | Names "string list"
  | QtInfo qt_ctx
  | Permit mb_permit
  | MbPolicy mb_policy
  | PrintPolicy print_policy
  | SelfProtect self_protect
  | ProcAC proc_ac_policy
  | CameraPolicy camera_policy
  | RndisPolicy rndis_policy
  | AirDropPolicy airdrop_policy
  | NoData

record command_message =
  Size :: u32
  Command :: u32
  Data :: payload

definition EINVAL :: int where "EINVAL = 22"
definition KERN_SUCCESS :: int where "KERN_SUCCESS = 0"
definition KERN_INVALID_ARGUMENT :: int where "KERN_INVALID_ARGUMENT = 4"
definition KERN_FAILURE :: int where "KERN_FAILURE = 5"

lemmas errno_defs = EINVAL_def KERN_SUCCESS_def KERN_INVALID_ARGUMENT_def KERN_FAILURE_def

definition SIZEOF_ATTACHED_DEVICE_EX :: nat where "SIZEOF_ATTACHED_DEVICE_EX = 296"
definition SIZEOF_ATTACHED_DEVICE :: nat where "SIZEOF_ATTACHED_DEVICE = 292"
definition SIZEOF_ALLOWPROCESSNAME :: nat where "SIZEOF_ALLOWPROCESSNAME = 256"
definition SIZEOF_ALLOWFOLDERNAME :: nat where "SIZEOF_ALLOWFOLDERNAME = 128"
definition SIZEOF_ALLOWFILEEXTNAME :: nat where "SIZEOF_ALLOWFILEEXTNAME = 64"

lemmas sizeof_defs = SIZEOF_ATTACHED_DEVICE_EX_def SIZEOF_ATTACHED_DEVICE_def
  SIZEOF_ALLOWPROCESSNAME_def SIZEOF_ALLOWFOLDERNAME_def SIZEOF_ALLOWFILEEXTNAME_def

text \<open>\<open>int nLength = Size - 8; int n = nLength / sizeof (T)\<close>: the length is widened to
  \<open>size_t\<close> with its sign, the quotient cut to 32 bits.\<close>

definition signed_count :: "u32 \<Rightarrow> nat \<Rightarrow> u32" where
  "signed_count sz elem = ucast ((scast (sz - 8) :: u64) div of_nat elem)"

text \<open>The same with \<open>ULONG nLength\<close>: widened without a sign.\<close>

definition unsigned_count :: "u32 \<Rightarrow> nat \<Rightarrow> u32" where
  "unsigned_count sz elem = ucast ((ucast (sz - 8) :: u64) div of_nat elem)"

subsection \<open>Drive policies\<close>

definition bluetooth_name :: string where
  "bluetooth_name = ''Media'' @ CHR 0x5C # ''Bluetooth''"

text \<open>The copy loop: the table being filled and the two Bluetooth flags.\<close>

fun drive_policy_loop :: "attached_device_ex list \<Rightarrow> nat \<Rightarrow> nat \<Rightarrow>
    attached_device_ex list \<times> bool \<times> bool \<Rightarrow> (attached_device_ex list \<times> bool \<times> bool) option" where
  "drive_policy_loop src i 0 st = Some st"
| "drive_policy_loop src i (Suc n) (dst, sel, lg) =
     (if MAX_POLICY < i then Some (dst, sel, lg)
      else do {
        d \<leftarrow> rd_at src i;
        dst' \<leftarrow> wr_at dst i d;
        let bt = (DeviceNames (cDevice d) = bluetooth_name);
        drive_policy_loop src (Suc i) n
          (dst', sel \<or> (bt \<and> nReserved1 (cDevice d) = 1), lg \<or> (bt \<and> bLoggingOn (cDevice d) = 1))
      })"

definition SmartCmd_SetDrivePolicy :: "command_message option \<Rightarrow> drv_kext \<Rightarrow> (int \<times> drv_kext) option" where
  "SmartCmd_SetDrivePolicy msg k =
     (case msg of None \<Rightarrow> Some (EINVAL, k)
      | Some m \<Rightarrow> (case Data m of DevicesEx src \<Rightarrow> do {
          let nArrayEx = signed_count (Size m) SIZEOF_ATTACHED_DEVICE_EX;
          (pols, sel, lg) \<leftarrow> drive_policy_loop src 0 (nat (sint nArrayEx))
             (replicate MAX_POLICY zero_device_ex, False, False);
          let k1 = k\<lparr>DrvCtx := (DrvCtx k)\<lparr>Policy := \<lparr>pol_nCount = nArrayEx, pol_DeviceEx = pols\<rparr>\<rparr>,
                     MediaCtx := (MediaCtx k)\<lparr>Bth := (Bth (MediaCtx k))\<lparr>
                       bSelectedBluetoothBlock := of_cbool sel, bBluetoothLog := of_cbool lg\<rparr>\<rparr>\<rparr>;
          k2 \<leftarrow> DrvCtx_Policy_Update k1;
          Some (0, k2)
        } | _ \<Rightarrow> None))"

fun except_loop :: "attached_device list \<Rightarrow> u32 \<Rightarrow> nat \<Rightarrow> nat \<Rightarrow> attached_device_ex list
    \<Rightarrow> attached_device_ex list option" where
  "except_loop src nArray i 0 dst = Some dst"
| "except_loop src nArray i (Suc n) dst =
     (if int MAX_DRIVE < sint nArray then Some dst
      else do {
        d \<leftarrow> rd_at src i;
        dst' \<leftarrow> wr_at dst i \<lparr>cDevice = d, ulStorDevType = 8\<rparr>;
        except_loop src nArray (Suc i) n dst'
      })"

definition SmartCmd_SetExceptDrivePolicy :: "command_message option \<Rightarrow> drv_kext
    \<Rightarrow> (int \<times> drv_kext) option" where
  "SmartCmd_SetExceptDrivePolicy msg k =
     (case msg of None \<Rightarrow> Some (EINVAL, k)
      | Some m \<Rightarrow> (case Data m of Devices src \<Rightarrow> do {
          let nArray = signed_count (Size m) SIZEOF_ATTACHED_DEVICE;
          exs \<leftarrow> except_loop src nArray 0 (nat (sint nArray)) (replicate MAX_DEVICE zero_device_ex);
          let k1 = k\<lparr>DrvCtx := (DrvCtx k)\<lparr>Except := \<lparr>ex_nCount = nArray, ex_DriveEx = exs\<rparr>\<rparr>\<rparr>;
          k2 \<leftarrow> DrvCtx_Policy_Update k1;
          Some (0, k2)
        } | _ \<Rightarrow> None))"

subsection \<open>Permitted processes, folders and file extensions\<close>

definition bad_message :: "command_message option \<Rightarrow> bool" where
  "bad_message msg \<longleftrightarrow> (case msg of None \<Rightarrow> True | Some m \<Rightarrow> Size m = 0)"

text \<open>\<open>memcpy\<close> of \<open>n\<close> elements of the message into a zeroed array.\<close>

definition copy_names :: "string list \<Rightarrow> nat \<Rightarrow> nat \<Rightarrow> string list option" where
  "copy_names src n cap =
     (if n \<le> length src then blit (take n src) (replicate cap []) else None)"

definition SmartCmd_SetPermitProcessName :: "command_message option \<Rightarrow> drv_kext
    \<Rightarrow> (int \<times> drv_kext) option" where
  "SmartCmd_SetPermitProcessName msg k =
     (if bad_message msg
      then Some (EINVAL, k\<lparr>nAllowProcName := 0, AllowProcName := replicate MAX_ALLOW_PROCNAME []\<rparr>)
      else case Data (the msg) of Names src \<Rightarrow> do {
        let n = unsigned_count (Size (the msg)) SIZEOF_ALLOWPROCESSNAME;
        names \<leftarrow> copy_names src (unat n) MAX_ALLOW_PROCNAME;
        Some (0, k\<lparr>nAllowProcName := n, AllowProcName := names\<rparr>)
      } | _ \<Rightarrow> None)"

text \<open>The upper-casing loop over the first \<open>n\<close> names.\<close>

fun upper_loop :: "nat \<Rightarrow> nat \<Rightarrow> string list \<Rightarrow> string list option" where
  "upper_loop i 0 names = Some names"
| "upper_loop i (Suc n) names = do {
     s \<leftarrow> rd_at names i;
     names' \<leftarrow> wr_at names i (sms_strupr s);
     upper_loop (Suc i) n names'
   }"

text \<open>The error branches clear \<open>MAX_FOLDER_NAME\<close> elements of arrays of \<open>MAX_ALLOW_FOLDERNAME\<close>.\<close>

definition clear_names :: "nat \<Rightarrow> nat \<Rightarrow> string list option" where
  "clear_names n cap = (if n \<le> cap then Some (replicate cap []) else None)"

definition SmartCmd_SetPermitFolderName :: "command_message option \<Rightarrow> drv_kext
    \<Rightarrow> (int \<times> drv_kext) option" where
  "SmartCmd_SetPermitFolderName msg k =
     (if bad_message msg then do {
        names \<leftarrow> clear_names MAX_FOLDER_NAME MAX_ALLOW_FOLDERNAME;
        Some (EINVAL, k\<lparr>nAllowFolder := 0, AllowFolder := names\<rparr>)
      } else case Data (the msg) of Names src \<Rightarrow> do {
        let n = unsigned_count (Size (the msg)) SIZEOF_ALLOWFOLDERNAME;
        names \<leftarrow> copy_names src (min MAX_FOLDER_NAME (unat n)) MAX_ALLOW_FOLDERNAME;
        names' \<leftarrow> upper_loop 0 (unat n) names;
        Some (0, k\<lparr>nAllowFolder := n, AllowFolder := names'\<rparr>)
      } | _ \<Rightarrow> None)"

definition SmartCmd_SetPermitFileExtName :: "command_message option \<Rightarrow> drv_kext
    \<Rightarrow> (int \<times> drv_kext) option" where
  "SmartCmd_SetPermitFileExtName msg k =
     (if bad_message msg then do {
        names \<leftarrow> clear_names MAX_FOLDER_NAME MAX_ALLOW_FOLDERNAME;
        Some (EINVAL, k\<lparr>nAllowFileExt := 0, AllowFileExt := names\<rparr>)
      } else case Data (the msg) of Names src \<Rightarrow> do {
        let n = unsigned_count (Size (the msg)) SIZEOF_ALLOWFILEEXTNAME;
        names \<leftarrow> copy_names src (min MAX_FOLDER_NAME (unat n)) MAX_ALLOW_FOLDERNAME;
        names' \<leftarrow> upper_loop 0 (unat n) names;
        Some (0, k\<lparr>nAllowFileExt := n, AllowFileExt := names'\<rparr>)
      } | _ \<Rightarrow> None)"

subsection \<open>Quarantine\<close>

definition SmartCmd_SetQtPathExt :: "command_message option \<Rightarrow> drv_kext \<Rightarrow> (int \<times> drv_kext) option" where
  "SmartCmd_SetQtPathExt msg k =
     (if bad_message msg then Some (EINVAL, k)
      else case Data (the msg) of QtInfo q \<Rightarrow>
        if length (Entry q) = MAX_QT_COUNT
        then Some (0, k\<lparr>QtCtx := (QtCtx k)\<lparr>Entry := Entry q, ulCount := ulCount q\<rparr>\<rparr>) else None
      | _ \<Rightarrow> None)"

definition SmartCmd_SetQtLimit :: "command_message option \<Rightarrow> drv_kext \<Rightarrow> (int \<times> drv_kext) option" where
  "SmartCmd_SetQtLimit msg k =
     (if bad_message msg then Some (EINVAL, k)
      else case Data (the msg) of QtInfo q \<Rightarrow>
        Some (0, k\<lparr>QtCtx := (QtCtx k)\<lparr>bQtLimit := (if bQtLimit q = 0 then 0 else 1)\<rparr>\<rparr>)
      | _ \<Rightarrow> None)"

subsection \<open>Mobile devices\<close>

text \<open>The first free slot takes the copy; a full list or a failed allocation drops it.\<close>

fun permit_slot :: "bool \<Rightarrow> mb_permit \<Rightarrow> mb_permit option list \<Rightarrow> mb_permit option list" where
  "permit_slot mem p [] = []"
| "permit_slot mem p (Some q # xs) = Some q # permit_slot mem p xs"
| "permit_slot mem p (None # xs) = (if mem then Some p else None) # xs"

definition USBMobilePermitList_Append :: "bool \<Rightarrow> mb_permit \<Rightarrow> drv_kext \<Rightarrow> bool \<times> drv_kext" where
  "USBMobilePermitList_Append mem p k =
     (True, k\<lparr>MobileCtx := (MobileCtx k)\<lparr>pNewPermitList := permit_slot mem p (pNewPermitList (MobileCtx k))\<rparr>\<rparr>)"

definition USBMobilePermitList_RemoveAll :: "drv_kext \<Rightarrow> drv_kext" where
  "USBMobilePermitList_RemoveAll k =
     k\<lparr>MobileCtx := (MobileCtx k)\<lparr>pNewPermitList := map (\<lambda>_. None) (pNewPermitList (MobileCtx k))\<rparr>\<rparr>"

definition SmartCmd_SetMobilePermitList :: "bool \<Rightarrow> command_message option \<Rightarrow> drv_kext
    \<Rightarrow> (int \<times> drv_kext) option" where
  "SmartCmd_SetMobilePermitList mem msg k =
     (if bad_message msg then Some (EINVAL, k)
      else case Data (the msg) of Permit p \<Rightarrow> Some (0, snd (USBMobilePermitList_Append mem p k))
      | _ \<Rightarrow> None)"

definition SmartCmd_ClrMobilePermitList :: "command_message option \<Rightarrow> drv_kext
    \<Rightarrow> (int \<times> drv_kext) option" where
  "SmartCmd_ClrMobilePermitList msg k =
     (if bad_message msg then Some (EINVAL, k) else Some (0, USBMobilePermitList_RemoveAll k))"

definition SmartCmd_SetCtrlMobile :: "command_message option \<Rightarrow> drv_kext \<Rightarrow> (int \<times> drv_kext) option" where
  "SmartCmd_SetCtrlMobile msg k =
     (if bad_message msg then Some (EINVAL, k)
      else case Data (the msg) of MbPolicy p \<Rightarrow> Some (0, k\<lparr>MobileCtx := (MobileCtx k)\<lparr>mb_Policy := p\<rparr>\<rparr>)
      | _ \<Rightarrow> None)"

text \<open>Inserting and removing nodes over messages is commented out in the source.\<close>

definition SmartCmd_MobileNode_Insert :: "command_message option \<Rightarrow> drv_kext
    \<Rightarrow> (int \<times> drv_kext) option" where
  "SmartCmd_MobileNode_Insert msg k = (if bad_message msg then Some (EINVAL, k) else Some (0, k))"

definition SmartCmd_MobileNode_RemoveAll :: "command_message option \<Rightarrow> drv_kext
    \<Rightarrow> (int \<times> drv_kext) option" where
  "SmartCmd_MobileNode_RemoveAll msg k = (if bad_message msg then Some (EINVAL, k) else Some (0, k))"

text \<open>A node of the same type, base path and keyword is not inserted again.\<close>

fun node_slot :: "mb_node \<Rightarrow> mb_node option list \<Rightarrow> mb_node option list" where
  "node_slot nd [] = []"
| "node_slot nd (Some q # xs) =
     (if MbType nd \<noteq> MbType q then Some q # node_slot nd xs
      else if nd_czBasePath nd = nd_czBasePath q \<and> czKeyword nd = czKeyword q then Some q # xs
      else Some q # node_slot nd xs)"
| "node_slot nd (None # xs) = Some nd # xs"

definition MobileNode_Insert :: "bool \<Rightarrow> mb_node option \<Rightarrow> drv_kext \<Rightarrow> drv_kext" where
  "MobileNode_Insert mem nd k =
     (case nd of None \<Rightarrow> k
      | Some n \<Rightarrow> if mem then k\<lparr>MobileCtx := (MobileCtx k)\<lparr>pNewMBNodes := node_slot n (pNewMBNodes (MobileCtx k))\<rparr>\<rparr>
                 else k)"

definition MobileNode_RemoveAll :: "drv_kext \<Rightarrow> drv_kext" where
  "MobileNode_RemoveAll k =
     k\<lparr>MobileCtx := (MobileCtx k)\<lparr>pNewMBNodes := map (\<lambda>_. None) (pNewMBNodes (MobileCtx k))\<rparr>\<rparr>"

subsection \<open>Printing, uploads, self protection, media\<close>

definition SmartCmd_SetUploadPrevent :: "command_message option \<Rightarrow> drv_kext
    \<Rightarrow> (int \<times> drv_kext) option" where
  "SmartCmd_SetUploadPrevent msg k =
     Some (if msg = None then KERN_INVALID_ARGUMENT else KERN_SUCCESS, k)"

definition SmartCmd_SetPrintPrevent :: "command_message option \<Rightarrow> drv_kext
    \<Rightarrow> (int \<times> drv_kext) option" where
  "SmartCmd_SetPrintPrevent msg k =
     (case msg of None \<Rightarrow> Some (KERN_INVALID_ARGUMENT, k)
      | Some m \<Rightarrow> (case Data m of PrintPolicy p \<Rightarrow> Some (KERN_SUCCESS, k\<lparr>PrintCtx := p\<rparr>) | _ \<Rightarrow> None))"

fun service_loop :: "spt_service list \<Rightarrow> nat \<Rightarrow> nat \<Rightarrow> spt_service list \<Rightarrow> spt_service list option" where
  "service_loop src i 0 dst = Some dst"
| "service_loop src i (Suc n) dst = do {
     s \<leftarrow> rd_at src i;
     dst' \<leftarrow> wr_at dst i s;
     service_loop src (Suc i) n dst'
   }"

definition zero_service :: spt_service where "zero_service = \<lparr>svc_nPID = 0, czPList = []\<rparr>"

definition SPT_PATH :: nat where "SPT_PATH = 260"

definition SmartCmd_SetSelfProtect :: "command_message option \<Rightarrow> drv_kext
    \<Rightarrow> (int \<times> drv_kext) option" where
  "SmartCmd_SetSelfProtect msg k =
     (case msg of None \<Rightarrow> Some (KERN_INVALID_ARGUMENT, k)
      | Some m \<Rightarrow> (case Data m of SelfProtect p \<Rightarrow> do {
          path \<leftarrow> strncpy0 SPT_PATH (FilePath p) (length (FilePath p) + 1);
          let n = min (unat (nService p)) SPT_SERVICE_COUNT;
          svcs \<leftarrow> service_loop (Services p) 0 n (replicate SPT_SERVICE_COUNT zero_service);
          Some (KERN_SUCCESS, k\<lparr>SelfCtx := \<lparr>bProtect = bProtect p, nService = of_nat n,
                  FilePath = path, Services = svcs\<rparr>\<rparr>)
        } | _ \<Rightarrow> None))"

definition SmartCmd_SetProcessAC :: "command_message option \<Rightarrow> drv_kext \<Rightarrow> (int \<times> drv_kext) option" where
  "SmartCmd_SetProcessAC msg k =
     (case msg of None \<Rightarrow> Some (KERN_INVALID_ARGUMENT, k)
      | Some m \<Rightarrow> (case Data m of ProcAC p \<Rightarrow>
          Some (KERN_SUCCESS, k\<lparr>ProcCtx := \<lparr>ac_bLog = ac_bLog p, bProcAC = bProcAC p\<rparr>\<rparr>) | _ \<Rightarrow> None))"

definition SmartCmd_SetControlCamera :: "command_message option \<Rightarrow> drv_kext
    \<Rightarrow> (int \<times> drv_kext) option" where
  "SmartCmd_SetControlCamera msg k =
     (case msg of None \<Rightarrow> Some (KERN_INVALID_ARGUMENT, k)
      | Some m \<Rightarrow> (case Data m of CameraPolicy p \<Rightarrow>
          Some (KERN_SUCCESS, k\<lparr>MediaCtx := (MediaCtx k)\<lparr>Camera := \<lparr>bCameraLog = bCameraLog p,
            bCameraBlock = bCameraBlock p, cam_nReserved = cam_nReserved p\<rparr>\<rparr>\<rparr>) | _ \<Rightarrow> None))"

definition SmartCmd_SetControlRNDIS :: "command_message option \<Rightarrow> drv_kext
    \<Rightarrow> (int \<times> drv_kext) option" where
  "SmartCmd_SetControlRNDIS msg k =
     (case msg of None \<Rightarrow> Some (KERN_INVALID_ARGUMENT, k)
      | Some m \<Rightarrow> (case Data m of RndisPolicy p \<Rightarrow>
          Some (KERN_SUCCESS, k\<lparr>MediaCtx := (MediaCtx k)\<lparr>Rndis := \<lparr>bRNdisLog = bRNdisLog p,
            bRNdisBlock = bRNdisBlock p\<rparr>\<rparr>\<rparr>) | _ \<Rightarrow> None))"

definition SmartCmd_SetControlAirDrop :: "command_message option \<Rightarrow> drv_kext
    \<Rightarrow> (int \<times> drv_kext) option" where
  "SmartCmd_SetControlAirDrop msg k =
     (case msg of None \<Rightarrow> Some (KERN_INVALID_ARGUMENT, k)
      | Some m \<Rightarrow> (case Data m of AirDropPolicy p \<Rightarrow>
          Some (KERN_SUCCESS, k\<lparr>MediaCtx := (MediaCtx k)\<lparr>AirDrop := \<lparr>bAirDropLog = bAirDropLog p,
            bAirDropBlock = bAirDropBlock p, ad_nReserved0 = ad_nReserved0 p,
            ad_nReserved1 = ad_nReserved1 p, ad_nReserved2 = ad_nReserved2 p,
            ad_nReserved3 = ad_nReserved3 p\<rparr>\<rparr>\<rparr>) | _ \<Rightarrow> None))"

subsection \<open>Dispatch\<close>

definition cmd_SetDrivePolicy :: u32 where "cmd_SetDrivePolicy = 1012"
definition cmd_SetExceptDrivePolicy :: u32 where "cmd_SetExceptDrivePolicy = 1013"
definition cmd_SetQuarantinePathExt :: u32 where "cmd_SetQuarantinePathExt = 1014"
definition cmd_SetQuarantineLimit :: u32 where "cmd_SetQuarantineLimit = 1015"
definition cmd_SetMobilePermitList :: u32 where "cmd_SetMobilePermitList = 1021"
definition cmd_ClrMobilePermitList :: u32 where "cmd_ClrMobilePermitList = 1022"
definition cmd_SetCtrlMobile :: u32 where "cmd_SetCtrlMobile = 1026"
definition cmd_MobileNodeRemoveAll :: u32 where "cmd_MobileNodeRemoveAll = 1028"
definition cmd_SetPermitProcessName :: u32 where "cmd_SetPermitProcessName = 1031"
definition cmd_SetPermitFolderName :: u32 where "cmd_SetPermitFolderName = 1032"
definition cmd_SetPermitFileExtName :: u32 where "cmd_SetPermitFileExtName = 1033"
definition cmd_SetPrintPrevent :: u32 where "cmd_SetPrintPrevent = 1071"
definition cmd_SetSelfProtect :: u32 where "cmd_SetSelfProtect = 1081"
definition cmd_SetUploadPrevent :: u32 where "cmd_SetUploadPrevent = 1091"
definition cmd_SetProcessAccessCheck :: u32 where "cmd_SetProcessAccessCheck = 1101"
definition cmd_SetControlCamera :: u32 where "cmd_SetControlCamera = 1201"
definition cmd_SetControlRNDIS :: u32 where "cmd_SetControlRNDIS = 1301"
definition cmd_SetControlAirDrop :: u32 where "cmd_SetControlAirDrop = 1305"

lemmas cmd_defs = cmd_SetDrivePolicy_def cmd_SetExceptDrivePolicy_def cmd_SetQuarantinePathExt_def
  cmd_SetQuarantineLimit_def cmd_SetMobilePermitList_def cmd_ClrMobilePermitList_def
  cmd_SetCtrlMobile_def cmd_MobileNodeRemoveAll_def cmd_SetPermitProcessName_def
  cmd_SetPermitFolderName_def cmd_SetPermitFileExtName_def cmd_SetPrintPrevent_def
  cmd_SetSelfProtect_def cmd_SetUploadPrevent_def cmd_SetProcessAccessCheck_def
  cmd_SetControlCamera_def cmd_SetControlRNDIS_def cmd_SetControlAirDrop_def

definition SmartCmd_Parser_CM :: "bool \<Rightarrow> command_message option \<Rightarrow> drv_kext
    \<Rightarrow> (int \<times> drv_kext) option" where
  "SmartCmd_Parser_CM mem msg k =
     (case msg of None \<Rightarrow> Some (-1, k)
      | Some m \<Rightarrow>
          if Command m = cmd_SetDrivePolicy then SmartCmd_SetDrivePolicy msg k
          else if Command m = cmd_SetExceptDrivePolicy then SmartCmd_SetExceptDrivePolicy msg k
          else if Command m = cmd_SetPermitProcessName then SmartCmd_SetPermitProcessName msg k
          else if Command m = cmd_SetPermitFolderName then SmartCmd_SetPermitFolderName msg k
          else if Command m = cmd_SetPermitFileExtName then SmartCmd_SetPermitFileExtName msg k
          else if Command m = cmd_SetCtrlMobile then SmartCmd_SetCtrlMobile msg k
          else if Command m = cmd_MobileNodeRemoveAll then SmartCmd_MobileNode_RemoveAll msg k
          else if Command m = cmd_SetMobilePermitList then SmartCmd_SetMobilePermitList mem msg k
          else if Command m = cmd_ClrMobilePermitList then SmartCmd_ClrMobilePermitList msg k
          else if Command m = cmd_SetQuarantinePathExt then SmartCmd_SetQtPathExt msg k
          else if Command m = cmd_SetQuarantineLimit then SmartCmd_SetQtLimit msg k
          else if Command m = cmd_SetPrintPrevent then SmartCmd_SetPrintPrevent msg k
          else if Command m = cmd_SetSelfProtect then SmartCmd_SetSelfProtect msg k
          else if Command m = cmd_SetUploadPrevent then SmartCmd_SetUploadPrevent msg k
          else if Command m = cmd_SetProcessAccessCheck then SmartCmd_SetProcessAC msg k
          else if Command m = cmd_SetControlCamera then SmartCmd_SetControlCamera msg k
          else if Command m = cmd_SetControlRNDIS then SmartCmd_SetControlRNDIS msg k
          else if Command m = cmd_SetControlAirDrop then SmartCmd_SetControlAirDrop msg k
          else Some (0, k))"


subsection \<open>Counting the elements of a message\<close>

lemma word_of_small_nat_div:
  assumes "x < 2 ^ 31" and "0 < e" and "e < 2 ^ 31"
  shows "(word_of_nat x :: u64) div word_of_nat e = word_of_nat (x div e)"
proof -
  have "x div e < 2 ^ 31" using assms(1) by (meson div_le_dividend le_less_trans)
  then show ?thesis using assms by (simp add: word_unat_eq_iff unat_div unat_of_nat)
qed

lemma ucast_small_nat:
  assumes "x < 2 ^ 31"
  shows "ucast (word_of_nat x :: u64) = (word_of_nat x :: u32)"
    and "ucast (word_of_nat x :: u32) = (word_of_nat x :: u64)"
  using assms by (simp_all add: word_unat_eq_iff unat_of_nat unsigned_ucast_eq take_bit_eq_mod)

lemma counts_of_nat:
  assumes "0 < e" and "8 + n * e < 2 ^ 31"
  shows "signed_count (word_of_nat (8 + n * e)) e = word_of_nat n"
    and "unsigned_count (word_of_nat (8 + n * e)) e = word_of_nat n"
proof -
  have x: "n * e < 2 ^ 31" using assms(2) by simp
  have "n \<le> n * e" using assms(1) by simp
  then have n: "n < 2 ^ 31" using x by linarith
  have e: "n \<noteq> 0 \<Longrightarrow> e < 2 ^ 31" using x by (metis le_less_trans le_square mult.commute mult_le_mono1 One_nat_def Suc_leI bot_nat_0.not_eq_extremum mult_1)
  have sz: "word_of_nat (8 + n * e) - 8 = (word_of_nat (n * e) :: u32)" by simp
  have d: "(word_of_nat (n * e) :: u64) div word_of_nat e = word_of_nat n"
  proof (cases "n = 0")
    case True
    then show ?thesis by simp
  next
    case False
    then show ?thesis using word_of_small_nat_div [OF x assms(1) e] assms(1) by simp
  qed
  have "scast (word_of_nat (n * e) :: u32) = (word_of_nat (n * e) :: u64)"
    using sint_of_small_nat [OF x] by (simp add: scast_eq)
  then show "signed_count (word_of_nat (8 + n * e)) e = word_of_nat n"
    unfolding signed_count_def sz by (simp only: d ucast_small_nat [OF n])
  show "unsigned_count (word_of_nat (8 + n * e)) e = word_of_nat n"
    unfolding unsigned_count_def sz by (simp only: d ucast_small_nat [OF n] ucast_small_nat [OF x])
qed

subsection \<open>The copy loops\<close>

definition bt_selected :: "attached_device_ex list \<Rightarrow> bool" where
  "bt_selected ds \<longleftrightarrow>
     (\<exists>d \<in> set ds. DeviceNames (cDevice d) = bluetooth_name \<and> nReserved1 (cDevice d) = 1)"

definition bt_logged :: "attached_device_ex list \<Rightarrow> bool" where
  "bt_logged ds \<longleftrightarrow>
     (\<exists>d \<in> set ds. DeviceNames (cDevice d) = bluetooth_name \<and> bLoggingOn (cDevice d) = 1)"

lemma drive_policy_loop_eq:
  assumes "i + n \<le> length src" and "i + n \<le> MAX_POLICY" and "length dst = MAX_POLICY"
  shows "drive_policy_loop src i n (dst, sel, lg) =
     Some (take i dst @ take n (drop i src) @ drop (i + n) dst,
           sel \<or> bt_selected (take n (drop i src)), lg \<or> bt_logged (take n (drop i src)))"
  using assms
proof (induction n arbitrary: i dst sel lg)
  case 0
  then show ?case by (simp add: bt_selected_def bt_logged_def)
next
  case (Suc n)
  then have d: "drop i src = src ! i # drop (Suc i) src" by (simp add: Cons_nth_drop_Suc)
  have "take (Suc i) (dst[i := src ! i]) = take i dst @ [src ! i]"
    using Suc.prems by (simp add: take_Suc_snoc)
  with Suc d show ?case
    by (auto simp: arr Let_def bt_selected_def bt_logged_def)
qed

lemma drive_policy_loop_overflow:
  assumes "i \<le> MAX_POLICY" and "MAX_POLICY < i + n" and "MAX_POLICY < length src"
    and "length dst = MAX_POLICY"
  shows "drive_policy_loop src i n (dst, sel, lg) = None"
  using assms
proof (induction n arbitrary: i dst sel lg)
  case 0
  then show ?case by simp
next
  case (Suc n)
  then show ?case by (cases "i = MAX_POLICY") (simp_all add: arr Let_def)
qed

lemma except_loop_eq:
  assumes "i + n \<le> length src" and "i + n \<le> MAX_DEVICE" and "length dst = MAX_DEVICE"
    and "sint nArray \<le> int MAX_DRIVE"
  shows "except_loop src nArray i n dst =
     Some (take i dst @ map (\<lambda>d. \<lparr>cDevice = d, ulStorDevType = 8\<rparr>) (take n (drop i src)) @ drop (i + n) dst)"
  using assms
proof (induction n arbitrary: i dst)
  case 0
  then show ?case by simp
next
  case (Suc n)
  let ?e = "\<lparr>cDevice = src ! i, ulStorDevType = 8\<rparr> :: attached_device_ex"
  from Suc.prems have d: "drop i src = src ! i # drop (Suc i) src" by (simp add: Cons_nth_drop_Suc)
  have "take (Suc i) (dst[i := ?e]) = take i dst @ [?e]"
    using Suc.prems by (simp add: take_Suc_snoc)
  with Suc d show ?case by (auto simp: arr)
qed

lemma except_loop_skip: "int MAX_DRIVE < sint nArray \<Longrightarrow> except_loop src nArray i n dst = Some dst"
  by (cases n) auto

lemma upper_loop_eq:
  assumes "i + n \<le> length names"
  shows "upper_loop i n names =
     Some (take i names @ map sms_strupr (take n (drop i names)) @ drop (i + n) names)"
  using assms
proof (induction n arbitrary: i names)
  case 0
  then show ?case by simp
next
  case (Suc n)
  then have d: "drop i names = names ! i # drop (Suc i) names" by (simp add: Cons_nth_drop_Suc)
  have "take (Suc i) (names[i := sms_strupr (names ! i)]) = take i names @ [sms_strupr (names ! i)]"
    using Suc.prems by (simp add: take_Suc_snoc)
  with Suc d show ?case by (auto simp: arr)
qed

lemma upper_loop_overflow: "length names < i + n \<Longrightarrow> i \<le> length names \<Longrightarrow> upper_loop i n names = None"
proof (induction n arbitrary: i names)
  case 0
  then show ?case by simp
next
  case (Suc n)
  then show ?case by (cases "i = length names") (simp_all add: arr)
qed

lemma service_loop_eq:
  assumes "i + n \<le> length src" and "i + n \<le> length dst"
  shows "service_loop src i n dst = Some (take i dst @ take n (drop i src) @ drop (i + n) dst)"
  using assms
proof (induction n arbitrary: i dst)
  case 0
  then show ?case by simp
next
  case (Suc n)
  then have d: "drop i src = src ! i # drop (Suc i) src" by (simp add: Cons_nth_drop_Suc)
  have "take (Suc i) (dst[i := src ! i]) = take i dst @ [src ! i]"
    using Suc.prems by (simp add: take_Suc_snoc)
  with Suc d show ?case by (auto simp: arr)
qed


subsection \<open>The handlers\<close>

definition sized :: "command_message \<Rightarrow> nat \<Rightarrow> nat \<Rightarrow> bool" where
  "sized m n e \<longleftrightarrow> Size m = word_of_nat (8 + n * e)"

lemma sized_nonzero: "sized m n e \<Longrightarrow> 8 + n * e < 2 ^ 31 \<Longrightarrow> Size m \<noteq> 0"
  using unat_count [of "8 + n * e"] by (auto simp: sized_def simp del: of_nat_add of_nat_mult)

definition entries :: "drv_kext \<Rightarrow> attached_device_ex list" where
  "entries k = concat (map (\<lambda>v. opt_list (ctrl_entry k v)) (volumes k))"

lemma Policy_Update_entries:
  assumes "wf_kext k" and "base_paths_ok k"
  obtains k' where "DrvCtx_Policy_Update k = Some k'" and "wf_kext k'" and "controls k' = entries k'"
    and "VolCtx k' = VolCtx k" and "DrvCtx k' = DrvCtx k"
proof -
  obtain k' where k': "DrvCtx_Policy_Update k = Some k'" "wf_kext k'"
      "controls k' = entries k" "VolCtx k' = VolCtx k" "DrvCtx k' = DrvCtx k"
    using DrvCtx_Policy_Update_eq [OF assms] by (auto simp: entries_def)
  moreover have "entries k' = entries k"
    using k'(4) table_cong(3) [OF k'(5)] by (simp add: entries_def volumes_def)
  ultimately show thesis using that by simp
qed

lemma SetDrivePolicy_ok:
  assumes "wf_kext k" and "base_paths_ok k" and "Data m = DevicesEx src"
    and "length src \<le> MAX_POLICY" and "sized m (length src) SIZEOF_ATTACHED_DEVICE_EX"
  shows "\<exists>k'. SmartCmd_SetDrivePolicy (Some m) k = Some (0, k') \<and> wf_kext k' \<and>
     policies k' = src \<and> excepts k' = excepts k \<and> VolCtx k' = VolCtx k \<and> controls k' = entries k'"
proof -
  let ?n = "length src"
  let ?pols = "src @ replicate (MAX_POLICY - ?n) zero_device_ex"
  let ?k = "k\<lparr>DrvCtx := (DrvCtx k)\<lparr>Policy := \<lparr>pol_nCount = word_of_nat ?n, pol_DeviceEx = ?pols\<rparr>\<rparr>,
     MediaCtx := (MediaCtx k)\<lparr>Bth := (Bth (MediaCtx k))\<lparr>
       bSelectedBluetoothBlock := of_cbool (bt_selected src), bBluetoothLog := of_cbool (bt_logged src)\<rparr>\<rparr>\<rparr>"
  have n: "?n < 2 ^ 31" using assms(4) by simp
  have cnt: "signed_count (Size m) SIZEOF_ATTACHED_DEVICE_EX = word_of_nat ?n"
    using assms(4,5) counts_of_nat(1) [of 296 ?n] by (simp add: sized_def sizeof_defs)
  have lp: "drive_policy_loop src 0 ?n (replicate MAX_POLICY zero_device_ex, False, False) =
      Some (?pols, bt_selected src, bt_logged src)"
    using assms(4) by (subst drive_policy_loop_eq) simp_all
  have wf: "wf_kext ?k" using assms(1,4) unat_count [OF n] by (simp add: wf_defs)
  have vols: "volumes ?k = volumes k" by (simp add: volumes_def)
  have bp: "base_paths_ok ?k" using assms(2) unfolding base_paths_ok_def vols .
  obtain k' where k': "DrvCtx_Policy_Update ?k = Some k'" "wf_kext k'" "controls k' = entries k'"
      "VolCtx k' = VolCtx ?k" "DrvCtx k' = DrvCtx ?k"
    using wf bp by (rule Policy_Update_entries)
  have "SmartCmd_SetDrivePolicy (Some m) k = Some (0, k')"
    using k'(1) lp by (simp add: SmartCmd_SetDrivePolicy_def assms(3) Let_def cnt nat_sint_count [OF n])
  moreover have "policies k' = src"
    using assms(4) unat_count [OF n] by (simp add: policies_def k'(5))
  moreover have "excepts k' = excepts k" by (simp add: excepts_def k'(5))
  ultimately show ?thesis using k' by auto
qed

lemma SetDrivePolicy_overflow:
  assumes "Data m = DevicesEx src" and "MAX_POLICY < length src"
    and "sized m (length src) SIZEOF_ATTACHED_DEVICE_EX" and "8 + length src * 296 < 2 ^ 31"
  shows "SmartCmd_SetDrivePolicy (Some m) k = None"
proof -
  have n: "length src < 2 ^ 31" using assms(4) by linarith
  have "signed_count (Size m) SIZEOF_ATTACHED_DEVICE_EX = word_of_nat (length src)"
    using assms(3,4) counts_of_nat(1) [of 296 "length src"] by (simp add: sized_def sizeof_defs)
  then show ?thesis
    using drive_policy_loop_overflow [of 0 "length src" src] assms(1,2)
    by (simp add: SmartCmd_SetDrivePolicy_def Let_def nat_sint_count [OF n])
qed

text \<open>What the exception table holds after a message of \<open>ds\<close>.\<close>

definition stored_excepts :: "attached_device list \<Rightarrow> attached_device_ex list" where
  "stored_excepts ds =
     (if length ds \<le> MAX_DRIVE then map (\<lambda>d. \<lparr>cDevice = d, ulStorDevType = 8\<rparr>) ds
      else replicate (length ds) zero_device_ex)"

lemma SetExceptDrivePolicy_ok:
  assumes "wf_kext k" and "base_paths_ok k" and "Data m = Devices ds"
    and "length ds \<le> MAX_DEVICE" and "sized m (length ds) SIZEOF_ATTACHED_DEVICE"
  shows "\<exists>k'. SmartCmd_SetExceptDrivePolicy (Some m) k = Some (0, k') \<and> wf_kext k' \<and>
     excepts k' = stored_excepts ds \<and> policies k' = policies k \<and> VolCtx k' = VolCtx k \<and>
     controls k' = entries k'"
proof -
  let ?n = "length ds"
  let ?exs = "stored_excepts ds @ replicate (MAX_DEVICE - ?n) zero_device_ex"
  let ?k = "k\<lparr>DrvCtx := (DrvCtx k)\<lparr>Except := \<lparr>ex_nCount = word_of_nat ?n, ex_DriveEx = ?exs\<rparr>\<rparr>\<rparr>"
  have n: "?n < 2 ^ 31" using assms(4) by simp
  have cnt: "signed_count (Size m) SIZEOF_ATTACHED_DEVICE = word_of_nat ?n"
    using assms(4,5) counts_of_nat(1) [of 292 ?n] by (simp add: sized_def sizeof_defs)
  have len: "length (stored_excepts ds) = ?n" by (simp add: stored_excepts_def)
  have lp: "except_loop ds (word_of_nat ?n) 0 ?n (replicate MAX_DEVICE zero_device_ex) = Some ?exs"
  proof (cases "?n \<le> MAX_DRIVE")
    case True
    then show ?thesis using sint_of_small_nat [OF n]
      by (subst except_loop_eq) (simp_all add: stored_excepts_def)
  next
    case False
    then have r: "stored_excepts ds = replicate ?n zero_device_ex" by (simp add: stored_excepts_def)
    show ?thesis using False assms(4) sint_of_small_nat [OF n] unfolding r
      by (subst except_loop_skip) (simp_all flip: replicate_add)
  qed
  have wf: "wf_kext ?k" using assms(1,4) len unat_count [OF n] by (simp add: wf_defs)
  have vols: "volumes ?k = volumes k" by (simp add: volumes_def)
  have bp: "base_paths_ok ?k" using assms(2) unfolding base_paths_ok_def vols .
  obtain k' where k': "DrvCtx_Policy_Update ?k = Some k'" "wf_kext k'" "controls k' = entries k'"
      "VolCtx k' = VolCtx ?k" "DrvCtx k' = DrvCtx ?k"
    using wf bp by (rule Policy_Update_entries)
  have "SmartCmd_SetExceptDrivePolicy (Some m) k = Some (0, k')"
    using k'(1) lp by (simp add: SmartCmd_SetExceptDrivePolicy_def assms(3) Let_def cnt nat_sint_count [OF n])
  moreover have "excepts k' = stored_excepts ds"
    using len unat_count [OF n] by (simp add: excepts_def k'(5))
  moreover have "policies k' = policies k" by (simp add: policies_def k'(5))
  ultimately show ?thesis using k' by auto
qed

lemma copy_names_eq:
  "n \<le> length src \<Longrightarrow> n \<le> cap \<Longrightarrow> copy_names src n cap = Some (take n src @ replicate (cap - n) [])"
  by (simp add: copy_names_def arr)

lemma copy_names_overflow: "cap < n \<Longrightarrow> copy_names src n cap = None"
  by (simp add: copy_names_def blit_def)

definition names_table :: "nat \<Rightarrow> string list \<Rightarrow> string list" where
  "names_table cap ns = ns @ replicate (cap - length ns) []"

lemma SetPermitProcessName_eq:
  assumes "Data m = Names ns" and "sized m (length ns) SIZEOF_ALLOWPROCESSNAME"
    and "8 + length ns * 256 < 2 ^ 31"
  shows "SmartCmd_SetPermitProcessName (Some m) k =
     (if length ns \<le> MAX_ALLOW_PROCNAME
      then Some (0, k\<lparr>nAllowProcName := word_of_nat (length ns),
                      AllowProcName := names_table MAX_ALLOW_PROCNAME ns\<rparr>) else None)"
proof -
  have n: "length ns < 2 ^ 31" using assms(3) by linarith
  have cnt: "unsigned_count (Size m) SIZEOF_ALLOWPROCESSNAME = word_of_nat (length ns)"
    using assms(2,3) counts_of_nat(2) [of 256 "length ns"] by (simp add: sized_def sizeof_defs)
  have "Size m \<noteq> 0" by (rule sized_nonzero [OF assms(2), unfolded sizeof_defs, OF assms(3)])
  then show ?thesis using assms(1)
    by (simp add: SmartCmd_SetPermitProcessName_def bad_message_def cnt Let_def unat_count [OF n]
        copy_names_eq copy_names_overflow names_table_def)
qed

lemma upper_table:
  assumes "length ns \<le> cap"
  shows "upper_loop 0 (length ns) (ns @ replicate (cap - length ns) []) =
     Some (names_table cap (map sms_strupr ns))"
  using assms by (subst upper_loop_eq) (simp_all add: names_table_def)

lemma SetPermitFolderName_eq:
  assumes "Data m = Names ns" and "sized m (length ns) SIZEOF_ALLOWFOLDERNAME"
    and "8 + length ns * 128 < 2 ^ 31"
  shows "SmartCmd_SetPermitFolderName (Some m) k =
     (if length ns \<le> MAX_ALLOW_FOLDERNAME
      then Some (0, k\<lparr>nAllowFolder := word_of_nat (length ns),
                      AllowFolder := names_table MAX_ALLOW_FOLDERNAME (map sms_strupr ns)\<rparr>) else None)"
proof -
  have n: "length ns < 2 ^ 31" using assms(3) by linarith
  have cnt: "unsigned_count (Size m) SIZEOF_ALLOWFOLDERNAME = word_of_nat (length ns)"
    using assms(2,3) counts_of_nat(2) [of 128 "length ns"] by (simp add: sized_def sizeof_defs)
  have "Size m \<noteq> 0" by (rule sized_nonzero [OF assms(2), unfolded sizeof_defs, OF assms(3)])
  then show ?thesis using assms(1) upper_table [of ns 64]
    by (simp add: SmartCmd_SetPermitFolderName_def bad_message_def cnt Let_def unat_count [OF n]
        copy_names_eq copy_names_overflow)
qed

lemma SetPermitFileExtName_eq:
  assumes "Data m = Names ns" and "sized m (length ns) SIZEOF_ALLOWFILEEXTNAME"
    and "8 + length ns * 64 < 2 ^ 31"
  shows "SmartCmd_SetPermitFileExtName (Some m) k =
     (if length ns \<le> MAX_ALLOW_FOLDERNAME
      then Some (0, k\<lparr>nAllowFileExt := word_of_nat (length ns),
                      AllowFileExt := names_table MAX_ALLOW_FOLDERNAME (map sms_strupr ns)\<rparr>) else None)"
proof -
  have n: "length ns < 2 ^ 31" using assms(3) by linarith
  have cnt: "unsigned_count (Size m) SIZEOF_ALLOWFILEEXTNAME = word_of_nat (length ns)"
    using assms(2,3) counts_of_nat(2) [of 64 "length ns"] by (simp add: sized_def sizeof_defs)
  have "Size m \<noteq> 0" by (rule sized_nonzero [OF assms(2), unfolded sizeof_defs, OF assms(3)])
  then show ?thesis using assms(1) upper_table [of ns 64]
    by (simp add: SmartCmd_SetPermitFileExtName_def bad_message_def cnt Let_def unat_count [OF n]
        copy_names_eq copy_names_overflow)
qed


subsection \<open>Lists of slots\<close>

text \<open>The permit and node lists are filled from the front.\<close>

definition compact :: "'a option list \<Rightarrow> bool" where
  "compact xs \<longleftrightarrow> (\<exists>ys n. xs = map Some ys @ replicate n None)"

definition slots :: "'a option list \<Rightarrow> 'a list" where
  "slots xs = concat (map opt_list xs)"

lemma slots_simps [simp]:
  "slots [] = []" "slots (None # xs) = slots xs" "slots (Some y # xs) = y # slots xs"
  by (simp_all add: slots_def)

lemma slots_compact [simp]: "slots (map Some ys @ replicate n None) = ys"
proof -
  have "slots (replicate n None) = []" by (induction n) auto
  then show ?thesis by (induction ys) auto
qed

lemma permit_slot_length [simp]: "length (permit_slot mem p xs) = length xs"
  by (induction mem p xs rule: permit_slot.induct) auto

lemma node_slot_length [simp]: "length (node_slot nd xs) = length xs"
  by (induction nd xs rule: node_slot.induct) auto

lemma permit_slot_compact:
  "permit_slot mem p (map Some ys @ replicate n None) =
     map Some (ys @ (if mem \<and> 0 < n then [p] else [])) @ replicate (if mem then n - 1 else n) None"
  by (induction ys) (cases n; auto)+

lemma node_slot_compact:
  "node_slot nd (map Some ys @ replicate n None) =
     map Some (ys @ (if nd \<in> set ys \<or> n = 0 then [] else [nd])) @
     replicate (if nd \<in> set ys then n else n - 1) None"
proof (induction ys)
  case Nil
  then show ?case by (cases n) auto
next
  case (Cons y ys)
  have "nd = y \<longleftrightarrow> MbType nd = MbType y \<and> nd_czBasePath nd = nd_czBasePath y \<and> czKeyword nd = czKeyword y"
    by (cases nd; cases y) auto
  with Cons show ?case by auto
qed

subsection \<open>Every message\<close>

text \<open>A message whose size is that of the structures it carries, in numbers the tables hold.\<close>

definition msg_ok :: "command_message \<Rightarrow> bool" where
  "msg_ok m \<longleftrightarrow>
     (case Data m of
        DevicesEx ds \<Rightarrow> Command m = cmd_SetDrivePolicy \<and> length ds \<le> MAX_POLICY \<and>
          sized m (length ds) SIZEOF_ATTACHED_DEVICE_EX
      | Devices ds \<Rightarrow> Command m = cmd_SetExceptDrivePolicy \<and> length ds \<le> MAX_DEVICE \<and>
          sized m (length ds) SIZEOF_ATTACHED_DEVICE
      | Names ns \<Rightarrow>
          (Command m = cmd_SetPermitProcessName \<and> length ns \<le> MAX_ALLOW_PROCNAME \<and>
             sized m (length ns) SIZEOF_ALLOWPROCESSNAME) \<or>
          (Command m = cmd_SetPermitFolderName \<and> length ns \<le> MAX_ALLOW_FOLDERNAME \<and>
             sized m (length ns) SIZEOF_ALLOWFOLDERNAME) \<or>
          (Command m = cmd_SetPermitFileExtName \<and> length ns \<le> MAX_ALLOW_FOLDERNAME \<and>
             sized m (length ns) SIZEOF_ALLOWFILEEXTNAME)
      | QtInfo q \<Rightarrow> Command m \<in> {cmd_SetQuarantinePathExt, cmd_SetQuarantineLimit} \<and>
          length (Entry q) = MAX_QT_COUNT
      | Permit p \<Rightarrow> Command m = cmd_SetMobilePermitList
      | MbPolicy p \<Rightarrow> Command m = cmd_SetCtrlMobile
      | PrintPolicy p \<Rightarrow> Command m = cmd_SetPrintPrevent
      | SelfProtect p \<Rightarrow> Command m = cmd_SetSelfProtect \<and> length (FilePath p) < SPT_PATH \<and>
          length (Services p) = SPT_SERVICE_COUNT
      | ProcAC p \<Rightarrow> Command m = cmd_SetProcessAccessCheck
      | CameraPolicy p \<Rightarrow> Command m = cmd_SetControlCamera
      | RndisPolicy p \<Rightarrow> Command m = cmd_SetControlRNDIS
      | AirDropPolicy p \<Rightarrow> Command m = cmd_SetControlAirDrop
      | NoData \<Rightarrow> Command m \<in> {cmd_MobileNodeRemoveAll, cmd_ClrMobilePermitList, cmd_SetUploadPrevent})"

text \<open>What every handler leaves: the volumes as they are, and a control table that is rebuilt
  or untouched.\<close>

definition frame_ok :: "drv_kext \<Rightarrow> drv_kext \<Rightarrow> bool" where
  "frame_ok k k' \<longleftrightarrow> wf_kext k' \<and> VolCtx k' = VolCtx k \<and>
     (controls k' = entries k' \<or> (controls k' = controls k \<and> DrvCtx k' = DrvCtx k))"

lemma SetSelfProtect_ok:
  assumes "wf_kext k" and "Data m = SelfProtect p" and "length (FilePath p) < SPT_PATH"
    and "length (Services p) = SPT_SERVICE_COUNT"
  shows "SmartCmd_SetSelfProtect (Some m) k = Some (KERN_SUCCESS,
     k\<lparr>SelfCtx := \<lparr>bProtect = bProtect p, nService = of_nat (min (unat (nService p)) SPT_SERVICE_COUNT),
        FilePath = FilePath p,
        Services = take (min (unat (nService p)) SPT_SERVICE_COUNT) (Services p) @
          replicate (SPT_SERVICE_COUNT - min (unat (nService p)) SPT_SERVICE_COUNT) zero_service\<rparr>\<rparr>)"
  using assms
  by (simp add: SmartCmd_SetSelfProtect_def strncpy0_fits [simplified] SPT_PATH_def Let_def
      service_loop_eq)

lemma Parser_ok:
  assumes "wf_kext k" and "base_paths_ok k" and "msg_ok m"
  shows "\<exists>r k'. SmartCmd_Parser_CM mem (Some m) k = Some (r, k') \<and> frame_ok k k'"
proof (cases "Data m")
  case (DevicesEx ds)
  with assms SetDrivePolicy_ok [OF assms(1,2) DevicesEx] show ?thesis
    by (auto simp: msg_ok_def frame_ok_def SmartCmd_Parser_CM_def)
next
  case (Devices ds)
  with assms SetExceptDrivePolicy_ok [OF assms(1,2) Devices] show ?thesis
    by (auto simp: msg_ok_def frame_ok_def SmartCmd_Parser_CM_def cmd_defs)
next
  case (Names ns)
  with assms(3) consider
      (proc) "Command m = cmd_SetPermitProcessName" "length ns \<le> 64"
        "sized m (length ns) SIZEOF_ALLOWPROCESSNAME"
    | (folder) "Command m = cmd_SetPermitFolderName" "length ns \<le> 64"
        "sized m (length ns) SIZEOF_ALLOWFOLDERNAME"
    | (ext) "Command m = cmd_SetPermitFileExtName" "length ns \<le> 64"
        "sized m (length ns) SIZEOF_ALLOWFILEEXTNAME"
    by (auto simp: msg_ok_def)
  then show ?thesis
  proof cases
    case proc
    then show ?thesis using assms(1) SetPermitProcessName_eq [OF Names proc(3)]
      by (simp add: frame_ok_def SmartCmd_Parser_CM_def cmd_defs wf_defs controls_def names_table_def unat_of_nat)
  next
    case folder
    then show ?thesis using assms(1) SetPermitFolderName_eq [OF Names folder(3)]
      by (simp add: frame_ok_def SmartCmd_Parser_CM_def cmd_defs wf_defs controls_def names_table_def unat_of_nat)
  next
    case ext
    then show ?thesis using assms(1) SetPermitFileExtName_eq [OF Names ext(3)]
      by (simp add: frame_ok_def SmartCmd_Parser_CM_def cmd_defs wf_defs controls_def names_table_def unat_of_nat)
  qed
next
  case (QtInfo q)
  with assms(1,3) show ?thesis
    by (auto simp: msg_ok_def frame_ok_def SmartCmd_Parser_CM_def SmartCmd_SetQtPathExt_def
        SmartCmd_SetQtLimit_def bad_message_def cmd_defs wf_defs controls_def)
next
  case (Permit p)
  with assms(1,3) show ?thesis
    by (auto simp: msg_ok_def frame_ok_def SmartCmd_Parser_CM_def SmartCmd_SetMobilePermitList_def
        USBMobilePermitList_Append_def bad_message_def cmd_defs wf_defs controls_def)
next
  case (MbPolicy p)
  with assms(1,3) show ?thesis
    by (auto simp: msg_ok_def frame_ok_def SmartCmd_Parser_CM_def SmartCmd_SetCtrlMobile_def
        bad_message_def cmd_defs wf_defs controls_def)
next
  case (PrintPolicy p)
  with assms(1,3) show ?thesis
    by (auto simp: msg_ok_def frame_ok_def SmartCmd_Parser_CM_def SmartCmd_SetPrintPrevent_def
        cmd_defs wf_defs controls_def)
next
  case (SelfProtect p)
  have "unat (of_nat (min (unat (nService p)) 32) :: u32) \<le> 32"
    by (simp add: unat_of_nat min_def)
  with SelfProtect assms(1,3) SetSelfProtect_ok [OF assms(1) SelfProtect] show ?thesis
    by (auto simp: msg_ok_def frame_ok_def SmartCmd_Parser_CM_def cmd_defs wf_defs controls_def)
next
  case (ProcAC p)
  with assms(1,3) show ?thesis
    by (auto simp: msg_ok_def frame_ok_def SmartCmd_Parser_CM_def SmartCmd_SetProcessAC_def
        cmd_defs wf_defs controls_def)
next
  case (CameraPolicy p)
  with assms(1,3) show ?thesis
    by (auto simp: msg_ok_def frame_ok_def SmartCmd_Parser_CM_def SmartCmd_SetControlCamera_def
        cmd_defs wf_defs controls_def)
next
  case (RndisPolicy p)
  with assms(1,3) show ?thesis
    by (auto simp: msg_ok_def frame_ok_def SmartCmd_Parser_CM_def SmartCmd_SetControlRNDIS_def
        cmd_defs wf_defs controls_def)
next
  case (AirDropPolicy p)
  with assms(1,3) show ?thesis
    by (auto simp: msg_ok_def frame_ok_def SmartCmd_Parser_CM_def SmartCmd_SetControlAirDrop_def
        cmd_defs wf_defs controls_def)
next
  case NoData
  with assms(1,3) show ?thesis
    by (auto simp: msg_ok_def frame_ok_def SmartCmd_Parser_CM_def SmartCmd_MobileNode_RemoveAll_def
        SmartCmd_ClrMobilePermitList_def SmartCmd_SetUploadPrevent_def USBMobilePermitList_RemoveAll_def
        bad_message_def cmd_defs wf_defs controls_def)
qed

subsection \<open>Properties\<close>

text \<open>C10: A drive policy message of at most 36 entries replaces the policy table by exactly its
  entries and rebuilds the control table: for every mounted volume, in order, its exception or
  else the first policy for its bus type, where that entry restricts or logs something; the
  exceptions and the volume table are untouched.\<close>

theorem drive_policy_installed:
  assumes "wf_kext k" and "base_paths_ok k" and "Data m = DevicesEx src"
    and "length src \<le> MAX_POLICY" and "sized m (length src) SIZEOF_ATTACHED_DEVICE_EX"
  shows "\<exists>k'. SmartCmd_SetDrivePolicy (Some m) k = Some (0, k') \<and> wf_kext k' \<and> policies k' = src \<and>
     excepts k' = excepts k \<and> volumes k' = volumes k \<and>
     controls k' = concat (map (\<lambda>v. opt_list (ctrl_entry k' v)) (volumes k))"
proof -
  obtain k' where k': "SmartCmd_SetDrivePolicy (Some m) k = Some (0, k')" "wf_kext k'" "policies k' = src"
      "excepts k' = excepts k" "VolCtx k' = VolCtx k" "controls k' = entries k'"
    using SetDrivePolicy_ok [OF assms] by blast
  moreover have "volumes k' = volumes k" using k'(5) by (simp add: volumes_def)
  ultimately show ?thesis by (auto simp: entries_def)
qed

definition small_policy :: attached_device_ex where
  "small_policy = \<lparr>cDevice = zero_device\<lparr>bDisableAll := 1\<rparr>, ulStorDevType = 8\<rparr>"

definition policy_message :: "nat \<Rightarrow> command_message" where
  "policy_message n = \<lparr>Size = word_of_nat (8 + n * SIZEOF_ATTACHED_DEVICE_EX), Command = cmd_SetDrivePolicy,
     Data = DevicesEx (replicate n small_policy)\<rparr>"

lemma base_paths_boot: "base_paths_ok kext_boot"
  by (simp add: base_paths_ok_def volumes_def kext_boot_def)

lemma drive_policy_installed_witness:
  "\<exists>k'. SmartCmd_SetDrivePolicy (Some (policy_message 2)) kext_boot = Some (0, k') \<and> wf_kext k' \<and>
     policies k' = replicate 2 small_policy \<and> excepts k' = excepts kext_boot \<and>
     volumes k' = volumes kext_boot \<and>
     controls k' = concat (map (\<lambda>v. opt_list (ctrl_entry k' v)) (volumes kext_boot))"
  by (rule drive_policy_installed [OF wf_kext_boot base_paths_boot])
     (simp_all add: policy_message_def sized_def)

text \<open>C25: The bound on the number of policies is checked too late: a message of 37 or more
  entries makes the copy loop write element 36 of the 36 element table.\<close>

theorem drive_policy_overflows:
  assumes "Data m = DevicesEx src" and "MAX_POLICY < length src"
    and "sized m (length src) SIZEOF_ATTACHED_DEVICE_EX" and "8 + length src * 296 < 2 ^ 31"
  shows "SmartCmd_SetDrivePolicy (Some m) k = None"
  by (rule SetDrivePolicy_overflow [OF assms])

lemma drive_policy_overflows_witness:
  "SmartCmd_SetDrivePolicy (Some (policy_message 37)) kext_boot = None"
  by (rule drive_policy_overflows [of _ "replicate 37 small_policy"])
     (simp_all add: policy_message_def sized_def)

text \<open>An exception message of at most 26 entries installs exactly its entries; one of 27 to
  36 entries is accepted with the same answer but installs that many empty exceptions, and
  either way the control table is rebuilt for the exceptions then stored.\<close>

theorem exceptions_installed_or_blank:
  assumes "wf_kext k" and "base_paths_ok k" and "Data m = Devices ds"
    and "length ds \<le> MAX_DEVICE" and "sized m (length ds) SIZEOF_ATTACHED_DEVICE"
  shows "\<exists>k'. SmartCmd_SetExceptDrivePolicy (Some m) k = Some (0, k') \<and> wf_kext k' \<and>
     excepts k' = (if length ds \<le> 26 then map (\<lambda>d. \<lparr>cDevice = d, ulStorDevType = 8\<rparr>) ds
                   else replicate (length ds) zero_device_ex) \<and>
     policies k' = policies k \<and> controls k' = concat (map (\<lambda>v. opt_list (ctrl_entry k' v)) (volumes k))"
proof -
  obtain k' where k': "SmartCmd_SetExceptDrivePolicy (Some m) k = Some (0, k')" "wf_kext k'"
      "excepts k' = stored_excepts ds" "policies k' = policies k" "VolCtx k' = VolCtx k"
      "controls k' = entries k'"
    using SetExceptDrivePolicy_ok [OF assms] by blast
  moreover have "volumes k' = volumes k" using k'(5) by (simp add: volumes_def)
  ultimately show ?thesis by (intro exI [of _ k']) (simp add: entries_def stored_excepts_def)
qed

lemma exceptions_installed_or_blank_witness:
  "\<exists>k'. SmartCmd_SetExceptDrivePolicy (Some \<lparr>Size = word_of_nat (8 + 27 * 292),
       Command = cmd_SetExceptDrivePolicy, Data = Devices (replicate 27 zero_device)\<rparr>) kext_boot = Some (0, k') \<and>
     wf_kext k' \<and> excepts k' = replicate 27 zero_device_ex \<and> policies k' = policies kext_boot"
proof -
  let ?m = "\<lparr>Size = word_of_nat (8 + 27 * 292), Command = cmd_SetExceptDrivePolicy,
     Data = Devices (replicate 27 zero_device)\<rparr>"
  show ?thesis
    using exceptions_installed_or_blank [OF wf_kext_boot base_paths_boot, of ?m "replicate 27 zero_device"]
    by (auto simp: sized_def sizeof_defs)
qed

text \<open>A message of permitted folders is stored in upper case when it has at most 64 names;
  a longer one is copied past the end of the table, as its length is compared with 128.\<close>

theorem permitted_folders:
  assumes "Data m = Names ns" and "sized m (length ns) SIZEOF_ALLOWFOLDERNAME"
    and "8 + length ns * 128 < 2 ^ 31"
  shows "SmartCmd_SetPermitFolderName (Some m) k =
     (if length ns \<le> 64
      then Some (0, k\<lparr>nAllowFolder := word_of_nat (length ns),
             AllowFolder := map sms_strupr ns @ replicate (64 - length ns) []\<rparr>) else None)"
  using SetPermitFolderName_eq [OF assms] by (simp add: names_table_def)

lemma permitted_folders_witness:
  "SmartCmd_SetPermitFolderName (Some \<lparr>Size = 136, Command = cmd_SetPermitFolderName, Data = Names [''/TMP'']\<rparr>) kext_boot =
     Some (0, kext_boot\<lparr>nAllowFolder := 1, AllowFolder := ''/TMP'' # replicate 63 []\<rparr>)"
  using permitted_folders [of "\<lparr>Size = 136, Command = cmd_SetPermitFolderName, Data = Names [''/TMP'']\<rparr>" "[''/TMP'']" kext_boot]
  by (simp add: sized_def sizeof_defs sms_strupr_def toupper_c_def)

text \<open>C24: Inserting a mobile node keeps the node list filled from the front and without
  duplicates, keeps what it held, and adds the node when there is a free slot.\<close>

theorem mobile_node_insert:
  assumes "compact (pNewMBNodes (MobileCtx k))" and "distinct (slots (pNewMBNodes (MobileCtx k)))"
  shows "compact (pNewMBNodes (MobileCtx (MobileNode_Insert True (Some nd) k))) \<and>
     distinct (slots (pNewMBNodes (MobileCtx (MobileNode_Insert True (Some nd) k)))) \<and>
     set (slots (pNewMBNodes (MobileCtx k))) \<subseteq> set (slots (pNewMBNodes (MobileCtx (MobileNode_Insert True (Some nd) k)))) \<and>
     (None \<in> set (pNewMBNodes (MobileCtx k)) \<longrightarrow>
        nd \<in> set (slots (pNewMBNodes (MobileCtx (MobileNode_Insert True (Some nd) k)))))"
proof -
  obtain ys n where xs: "pNewMBNodes (MobileCtx k) = map Some ys @ replicate n None"
    using assms(1) by (auto simp: compact_def)
  define zs where "zs = ys @ (if nd \<in> set ys \<or> n = 0 then [] else [nd])"
  define p where "p = (if nd \<in> set ys then n else n - 1)"
  have r: "pNewMBNodes (MobileCtx (MobileNode_Insert True (Some nd) k)) = map Some zs @ replicate p None"
    by (simp add: MobileNode_Insert_def xs node_slot_compact zs_def p_def)
  have "compact (map Some zs @ replicate p None)" unfolding compact_def by blast
  moreover have "distinct zs" using assms(2) by (simp add: xs zs_def)
  moreover have "None \<in> set (pNewMBNodes (MobileCtx k)) \<longrightarrow> nd \<in> set zs" by (auto simp: xs zs_def)
  moreover have "set (slots (pNewMBNodes (MobileCtx k))) \<subseteq> set zs" by (simp add: xs zs_def)
  ultimately show ?thesis unfolding r slots_compact by blast
qed

lemma mobile_node_insert_witness:
  "distinct (slots (pNewMBNodes (MobileCtx (MobileNode_Insert True (Some
     \<lparr>MbType = MB_TYPE_MTP, nd_czBasePath = ''/m'', czKeyword = ''k''\<rparr>) kext_boot))))"
proof -
  have nodes: "pNewMBNodes (MobileCtx kext_boot) = map Some [] @ replicate 30 None"
    by (simp add: kext_boot_def)
  then have "compact (pNewMBNodes (MobileCtx kext_boot))" "distinct (slots (pNewMBNodes (MobileCtx kext_boot)))"
    unfolding nodes slots_compact by (auto simp: compact_def)
  from mobile_node_insert [OF this] show ?thesis by blast
qed

end
