(* ===== verification/Utility.thy ===== *)
theory Utility
  imports Prelude
begin

text \<open>
  \<open>CPIUtility\<close> (\<open>PISupervisor/common/src/PIUtility.cpp\<close>): narrowing of unsigned values, path
  and file names, trimming, replacing and removing substrings, creating the directories of a
  path. A \<open>std::string\<close> is a list of characters; \<open>std::string::npos\<close> is \<open>None\<close>.
\<close>

named_theorems util "CPIUtility"

subsection \<open>Numbers and truth values\<close>

definition getInt :: "u32 \<Rightarrow> u32" where
  "getInt value = (if 0x7FFFFFFF < value then - 1 else value)"

definition getLongLong :: "u64 \<Rightarrow> u64" where
  "getLongLong value = (if 0x7FFFFFFFFFFFFFFF < value then - 1 else value)"

definition getValueAsBool :: "string \<Rightarrow> bool" where
  "getValueAsBool value \<longleftrightarrow> value = ''true''"

lemma takeWhile_stop: "x \<notin> set xs \<Longrightarrow> takeWhile (\<lambda>y. y \<noteq> x) (xs @ x # ys) = xs"
  by (induction xs) auto

subsection \<open>Searching a \<open>std::string\<close>\<close>

definition find_at :: "string \<Rightarrow> string \<Rightarrow> nat \<Rightarrow> nat option" where
  "find_at s t pos = (if length s < pos then None else map_option (\<lambda>i. i + pos) (strpos t (drop pos s)))"

definition find_first_not_of :: "(char \<Rightarrow> bool) \<Rightarrow> string \<Rightarrow> nat option" where
  "find_first_not_of P s = (let n = length (takeWhile P s) in if n < length s then Some n else None)"

definition find_last_not_of :: "(char \<Rightarrow> bool) \<Rightarrow> string \<Rightarrow> nat option" where
  "find_last_not_of P s = map_option (\<lambda>n. length s - 1 - n) (find_first_not_of P (rev s))"

abbreviation find_char :: "char \<Rightarrow> string \<Rightarrow> nat option" where
  "find_char c \<equiv> find_first_not_of (\<lambda>d. d \<noteq> c)"

abbreviation rfind_char :: "char \<Rightarrow> string \<Rightarrow> nat option" where
  "rfind_char c \<equiv> find_last_not_of (\<lambda>d. d \<noteq> c)"

lemma find_at_Some:
  "find_at s t pos = Some i \<longleftrightarrow>
     pos \<le> i \<and> i \<le> length s \<and> prefix t (drop i s) \<and> (\<forall>j. pos \<le> j \<longrightarrow> j < i \<longrightarrow> \<not> prefix t (drop j s))"
proof (cases "pos \<le> i")
  case True
  then obtain d where d: "i = pos + d" using le_Suc_ex by blast
  have *: "(\<forall>j<d. \<not> prefix t (drop (pos + j) s)) \<longleftrightarrow>
      (\<forall>j. pos \<le> j \<longrightarrow> j < pos + d \<longrightarrow> \<not> prefix t (drop j s))"
    by (metis le_add1 nat_add_left_cancel_less ordered_cancel_comm_monoid_diff_class.add_diff_inverse)
  show ?thesis
    unfolding d * [symmetric]
    by (auto simp: find_at_def strpos_Some drop_drop add.commute)
next
  case False
  then show ?thesis by (auto simp: find_at_def)
qed

lemma find_at_None:
  "find_at s t pos = None \<longleftrightarrow> (\<forall>j. pos \<le> j \<longrightarrow> j \<le> length s \<longrightarrow> \<not> prefix t (drop j s))"
proof (cases "length s < pos")
  case False
  then show ?thesis
    by (auto simp: find_at_def strpos_None drop_drop)
      (metis diff_le_mono le_add_diff_inverse2)
qed (auto simp: find_at_def)

lemma find_at_bound: "find_at s t pos = Some i \<Longrightarrow> i + length t \<le> length s"
  unfolding find_at_Some using prefix_length_le by fastforce

lemma find_first_not_of_Some: "find_first_not_of P s = Some n \<Longrightarrow>
    n < length s \<and> \<not> P (s ! n) \<and> (\<forall>x \<in> set (take n s). P x)"
  by (auto simp: find_first_not_of_def Let_def nth_length_takeWhile takeWhile_eq_take [symmetric]
      dest: set_takeWhileD split: if_splits)

lemma length_takeWhile_less_iff: "length (takeWhile P s) < length s \<longleftrightarrow> (\<exists>x \<in> set s. \<not> P x)"
  by (induction s) auto

lemma find_first_not_of_None: "find_first_not_of P s = None \<longleftrightarrow> (\<forall>x \<in> set s. P x)"
  using length_takeWhile_less_iff [of P s] by (auto simp: find_first_not_of_def Let_def)

lemma find_last_not_of_None: "find_last_not_of P s = None \<longleftrightarrow> (\<forall>x \<in> set s. P x)"
  by (simp add: find_last_not_of_def find_first_not_of_None)

lemma find_last_not_of_Some: "find_last_not_of P s = Some n \<Longrightarrow>
    n < length s \<and> \<not> P (s ! n) \<and> (\<forall>x \<in> set (drop (Suc n) s). P x)"
proof -
  assume "find_last_not_of P s = Some n"
  then obtain m where m: "find_first_not_of P (rev s) = Some m" "n = length s - 1 - m"
    by (auto simp: find_last_not_of_def)
  from find_first_not_of_Some [OF m(1)]
  have "m < length s" "\<not> P (rev s ! m)" "\<forall>x \<in> set (take m (rev s)). P x" by auto
  then show ?thesis
    using m(2) by (simp add: rev_nth take_rev Suc_diff_Suc)
qed

subsection \<open>Trimming\<close>

definition white_space :: "char \<Rightarrow> bool" where
  "white_space c \<longleftrightarrow> c \<in> set [CHR 0x20, CHR 0x0A, CHR 0x0D, CHR 0x09, CHR 0x0C, CHR 0x0B]"

text \<open>\<open>atoi\<close>: white space, a sign, digits; the value is that of \<open>strtol\<close> cut to 32 bits.\<close>

definition digit_value :: "char \<Rightarrow> int" where
  "digit_value c = int (of_char c) - 48"

definition is_digit :: "char \<Rightarrow> bool" where
  "is_digit c \<longleftrightarrow> 0 \<le> digit_value c \<and> digit_value c \<le> 9"

definition digits_value :: "string \<Rightarrow> int" where
  "digits_value s = foldl (\<lambda>n c. 10 * n + digit_value c) 0 (takeWhile is_digit s)"

definition atoi :: "string \<Rightarrow> int" where
  "atoi s =
     (let t = dropWhile white_space s;
          v = (case t of [] \<Rightarrow> 0
               | c # r \<Rightarrow> if c = CHR ''-'' then - digits_value r
                          else if c = CHR ''+'' then digits_value r else digits_value t)
      in sint (word_of_int (max (- (2 ^ 63)) (min (2 ^ 63 - 1) v)) :: 32 word))"

definition ltrim :: "string \<Rightarrow> string" where
  "ltrim value = (case find_first_not_of white_space value of None \<Rightarrow> [] | Some start \<Rightarrow> drop start value)"

definition rtrim :: "string \<Rightarrow> string" where
  "rtrim value = (case find_last_not_of white_space value of None \<Rightarrow> [] | Some n \<Rightarrow> take (n + 1) value)"

definition trim :: "string \<Rightarrow> string" where
  "trim value = rtrim (ltrim value)"

lemma ltrim_dropWhile [util]: "ltrim s = dropWhile white_space s"
  by (auto simp: ltrim_def find_first_not_of_def Let_def dropWhile_eq_drop not_less)

lemma rtrim_rev [util]: "rtrim s = rev (dropWhile white_space (rev s))"
proof -
  let ?n = "length (takeWhile white_space (rev s))"
  have "?n \<le> length s" using length_takeWhile_le [of white_space "rev s"] by simp
  then show ?thesis
    by (auto simp: rtrim_def find_last_not_of_def find_first_not_of_def Let_def dropWhile_eq_drop
        rev_drop not_less Suc_diff_Suc)
qed

lemma hd_dropWhile_not: "dropWhile P s = [] \<or> \<not> P (hd (dropWhile P s))"
  by (induction s) auto

lemma last_rtrim: "rtrim s = [] \<or> \<not> white_space (last (rtrim s))"
  using hd_dropWhile_not [of white_space "rev s"] by (auto simp: rtrim_rev last_rev)

lemma rtrim_prefix: "prefix (rtrim s) s"
  unfolding rtrim_rev suffix_to_prefix [symmetric] suffix_dropWhile by (metis rev_rev_ident suffix_dropWhile suffix_to_prefix)

lemma hd_trim: "trim s = [] \<or> \<not> white_space (hd (trim s))"
proof (cases "trim s = []")
  case False
  from rtrim_prefix [of "ltrim s"] obtain t where "ltrim s = trim s @ t"
    by (auto simp: trim_def prefix_def)
  with False have "hd (trim s) = hd (ltrim s)" "ltrim s \<noteq> []" by auto
  then show ?thesis using hd_dropWhile_not [of white_space s] unfolding ltrim_dropWhile by presburger
qed simp

lemma ltrim_id: "s = [] \<or> \<not> white_space (hd s) \<Longrightarrow> ltrim s = s"
  by (cases s) (auto simp: ltrim_dropWhile)

lemma rtrim_id: "s = [] \<or> \<not> white_space (last s) \<Longrightarrow> rtrim s = s"
  by (cases s rule: rev_cases) (auto simp: rtrim_rev)

lemma trim_idem: "trim (trim s) = trim s"
proof -
  have "ltrim (trim s) = trim s" using hd_trim by (rule ltrim_id)
  moreover have "rtrim (trim s) = trim s" unfolding trim_def by (rule rtrim_id, rule last_rtrim)
  ultimately show ?thesis by (simp add: trim_def)
qed

lemma trim_sublist: "sublist (trim s) s"
proof -
  have "prefix (trim s) (ltrim s)" by (simp add: trim_def rtrim_prefix)
  moreover have "suffix (ltrim s) s" by (simp add: ltrim_dropWhile suffix_dropWhile)
  ultimately show ?thesis
    by (meson prefix_imp_sublist sublist_order.dual_order.trans suffix_imp_sublist)
qed

subsection \<open>Replacing and removing\<close>

text \<open>The loop of \<open>replace\<close> looks for the next occurrence where the last one began, so what it
  inserted is searched again; it need not end.\<close>

partial_function (option) replace_loop :: "string \<Rightarrow> string \<Rightarrow> string \<Rightarrow> nat \<Rightarrow> bool \<Rightarrow> (bool \<times> string) option" where
  "replace_loop source tokenOld tokenNew pos result =
     (case find_at source tokenOld pos of
        None \<Rightarrow> Some (result, source)
      | Some i \<Rightarrow> replace_loop (take i source @ tokenNew @ drop (i + length tokenOld) source)
                   tokenOld tokenNew i True)"

definition replace :: "string \<Rightarrow> string \<Rightarrow> string \<Rightarrow> (bool \<times> string) option" where
  "replace source tokenOld tokenNew = replace_loop source tokenOld tokenNew 0 False"

partial_function (option) removeSubString :: "string \<Rightarrow> string \<Rightarrow> string option" where
  "removeSubString source keyword =
     (case find_at source keyword 0 of
        None \<Rightarrow> Some source
      | Some i \<Rightarrow> removeSubString (take i source @ drop (i + length keyword) source) keyword)"

declare replace_loop.simps [code] removeSubString.simps [code]

lemma sublist_iff_drop: "sublist t s \<longleftrightarrow> (\<exists>i \<le> length s. prefix t (drop i s))"
proof
  assume "sublist t s"
  then obtain u v where "s = u @ t @ v" by (auto simp: sublist_def)
  then have "length u \<le> length s \<and> prefix t (drop (length u) s)" by simp
  then show "\<exists>i \<le> length s. prefix t (drop i s)" by blast
next
  assume "\<exists>i \<le> length s. prefix t (drop i s)"
  then obtain i v where "drop i s = t @ v" by (auto simp: prefix_def)
  then have "s = take i s @ t @ v" by (metis append_take_drop_id)
  then show "sublist t s" by (metis sublist_def)
qed

lemma removeSubString_total:
  "keyword \<noteq> [] \<Longrightarrow> \<exists>r. removeSubString source keyword = Some r \<and> \<not> sublist keyword r"
proof (induction "length source" arbitrary: source rule: less_induct)
  case less
  show ?case
  proof (cases "find_at source keyword 0")
    case None
    then have "\<not> sublist keyword source"
      by (simp add: find_at_None sublist_iff_drop)
    with None show ?thesis by (subst removeSubString.simps) simp
  next
    case (Some i)
    with find_at_bound [OF Some] less.prems
    have "length (take i source @ drop (i + length keyword) source) < length source"
      by (cases keyword) auto
    from less.hyps [OF this less.prems] Some show ?thesis
      by (subst removeSubString.simps) simp
  qed
qed

lemma removeSubString_absent: "\<not> sublist keyword source \<Longrightarrow> removeSubString source keyword = Some source"
proof -
  assume "\<not> sublist keyword source"
  then have "find_at source keyword 0 = None"
    by (simp add: find_at_None sublist_iff_drop)
  then show ?thesis by (subst removeSubString.simps) simp
qed

lemma removeSubString_empty: "removeSubString source [] = None"
proof -
  have "k \<noteq> []" if "removeSubString s k = Some r" for s k r
  proof (rule removeSubString.raw_induct [OF _ that, where P = "\<lambda>s k r. k \<noteq> []"])
    fix rec :: "string \<Rightarrow> string \<Rightarrow> string option" and s k r
    assume IH: "\<And>s k r. rec s k = Some r \<Longrightarrow> k \<noteq> []"
      and step: "(case find_at s k 0 of None \<Rightarrow> Some s
                  | Some i \<Rightarrow> rec (take i s @ drop (i + length k) s) k) = Some r"
    show "k \<noteq> []"
    proof
      assume "k = []"
      then have "find_at s k 0 = Some 0" by (simp add: find_at_Some)
      with step have "rec (take 0 s @ drop (0 + length k) s) k = Some r" by simp
      from IH [OF this] \<open>k = []\<close> show False by simp
    qed
  qed
  then show ?thesis by (cases "removeSubString source []") auto
qed

text \<open>A replacement that is shorter than what it replaces ends; one that contains it, where it
  does occur, never does.\<close>

lemma replace_loop_shrinks:
  "length tokenNew < length tokenOld \<Longrightarrow>
     \<exists>r. replace_loop source tokenOld tokenNew pos b = Some r"
proof (induction "length source" arbitrary: source pos b rule: less_induct)
  case less
  show ?case
  proof (cases "find_at source tokenOld pos")
    case None
    then show ?thesis by (subst replace_loop.simps) simp
  next
    case (Some i)
    have "length (take i source @ tokenNew @ drop (i + length tokenOld) source) < length source"
      using find_at_bound [OF Some] less.prems by auto
    from less.hyps [OF this less.prems] Some show ?thesis
      by (subst replace_loop.simps) simp
  qed
qed

lemma replace_loop_diverges:
  assumes "tokenNew = u @ tokenOld @ v" "prefix tokenOld (drop i source)" "pos \<le> i" "i \<le> length source"
  shows "replace_loop source tokenOld tokenNew pos b = None"
proof -
  let ?P = "\<lambda>s old new pos b r. new = u @ old @ v \<longrightarrow>
      \<not> (\<exists>i. pos \<le> i \<and> i \<le> length s \<and> prefix old (drop i s))"
  have "?P s old new pos b r" if "replace_loop s old new pos b = Some r" for s old new pos b r
  proof (rule replace_loop.raw_induct [OF _ that, where P = ?P])
    fix rec :: "string \<Rightarrow> string \<Rightarrow> string \<Rightarrow> nat \<Rightarrow> bool \<Rightarrow> (bool \<times> string) option"
      and s old new :: string and pos :: nat and b :: bool and r :: "bool \<times> string"
    assume IH: "\<And>s old new pos b r. rec s old new pos b = Some r \<Longrightarrow> ?P s old new pos b r"
      and step: "(case find_at s old pos of None \<Rightarrow> Some (b, s)
        | Some i \<Rightarrow> rec (take i s @ new @ drop (i + length old) s) old new i True) = Some r"
    show "?P s old new pos b r"
    proof (cases "find_at s old pos")
      case None
      then show ?thesis by (auto simp: find_at_None)
    next
      case (Some j)
      then have j: "pos \<le> j" "j \<le> length s" by (auto simp: find_at_Some)
      let ?s = "take j s @ new @ drop (j + length old) s"
      have "rec ?s old new j True = Some r" using step Some by simp
      from IH [OF this] have no: "new = u @ old @ v \<Longrightarrow> j + length u \<le> length ?s \<Longrightarrow>
          \<not> prefix old (drop (j + length u) ?s)"
        by (meson le_add1)
      have "new = u @ old @ v \<Longrightarrow> prefix old (drop (j + length u) ?s)" using j by simp
      with no show ?thesis using j by auto
    qed
  qed
  with assms show ?thesis
    by (cases "replace_loop source tokenOld tokenNew pos b") blast+
qed

subsection \<open>Path and file names\<close>

definition getFileExt :: "string \<Rightarrow> string" where
  "getFileExt filePath =
     (if length filePath = 0 then []
      else case rfind_char CHR ''.'' filePath of None \<Rightarrow> [] | Some found \<Rightarrow> drop (found + 1) filePath)"

definition getFileNameExt :: "string \<Rightarrow> string" where
  "getFileNameExt filePath =
     (if length filePath = 0 then []
      else case rfind_char CHR ''/'' filePath of None \<Rightarrow> filePath | Some found \<Rightarrow> drop (found + 1) filePath)"

definition getPath :: "string \<Rightarrow> string" where
  "getPath filePath =
     (if length filePath = 0 then []
      else case rfind_char CHR ''/'' filePath of None \<Rightarrow> filePath | Some found \<Rightarrow> take found filePath)"

definition getFileName :: "string \<Rightarrow> string" where
  "getFileName filePath =
     (let fileNameExt = getFileNameExt filePath
      in if length fileNameExt = 0 then []
         else case find_char CHR ''.'' fileNameExt of None \<Rightarrow> fileNameExt | Some found \<Rightarrow> take found fileNameExt)"

lemma rfind_char_split: "rfind_char c s = Some n \<Longrightarrow>
    s = take n s @ c # drop (Suc n) s \<and> c \<notin> set (drop (Suc n) s)"
  using find_last_not_of_Some [of "\<lambda>d. d \<noteq> c" s n] by (auto simp: id_take_nth_drop [symmetric])

lemma getPath_getFileNameExt:
  "CHR ''/'' \<in> set p \<Longrightarrow> getPath p @ ''/'' @ getFileNameExt p = p \<and> CHR ''/'' \<notin> set (getFileNameExt p)"
proof -
  assume "CHR ''/'' \<in> set p"
  then have "rfind_char CHR ''/'' p \<noteq> None" by (auto simp: find_last_not_of_None)
  then obtain n where n: "rfind_char CHR ''/'' p = Some n" by auto
  with \<open>CHR ''/'' \<in> set p\<close> have "length p \<noteq> 0" by auto
  with rfind_char_split [OF n] n show ?thesis
    by (simp add: getPath_def getFileNameExt_def)
qed

lemma getFileNameExt_plain: "CHR ''/'' \<notin> set p \<Longrightarrow> getFileNameExt p = p \<and> getPath p = p"
proof -
  assume "CHR ''/'' \<notin> set p"
  then have "rfind_char CHR ''/'' p = None" by (auto simp: find_last_not_of_None)
  then show ?thesis by (auto simp: getFileNameExt_def getPath_def)
qed

lemma getFileNameExt_no_slash: "CHR ''/'' \<notin> set (getFileNameExt p)"
  by (cases "CHR ''/'' \<in> set p") (auto simp: getPath_getFileNameExt getFileNameExt_plain)

lemma getFileName_prefix: "prefix (getFileName p) (getFileNameExt p)"
  by (auto simp: getFileName_def Let_def take_is_prefix split: option.splits)

text \<open>A name is cut at its first dot, an extension begins after the last one.\<close>

lemma same_tail: "a @ x # b = c @ x # d \<Longrightarrow> x \<notin> set b \<Longrightarrow> x \<notin> set d \<Longrightarrow> b = d"
proof -
  assume eq: "a @ x # b = c @ x # d" and "x \<notin> set b" "x \<notin> set d"
  have "takeWhile (\<lambda>y. y \<noteq> x) (rev (u @ x # v)) = rev v" if "x \<notin> set v" for u v
    using that takeWhile_stop [of x "rev v" "rev u"] by simp
  with \<open>x \<notin> set b\<close> \<open>x \<notin> set d\<close> show ?thesis using eq by (metis rev_rev_ident)
qed

lemma getFileName_join:
  "CHR ''/'' \<notin> set f \<Longrightarrow> CHR ''.'' \<notin> set f \<Longrightarrow> CHR ''/'' \<notin> set e \<Longrightarrow>
     getFileName (d @ ''/'' @ f @ ''.'' @ e) = f"
proof -
  assume a: "CHR ''/'' \<notin> set f" "CHR ''.'' \<notin> set f" "CHR ''/'' \<notin> set e"
  let ?p = "d @ ''/'' @ f @ ''.'' @ e"
  have "getPath ?p @ ''/'' @ getFileNameExt ?p = ?p" and ns: "CHR ''/'' \<notin> set (getFileNameExt ?p)"
    using getPath_getFileNameExt [of ?p] by simp_all
  then have eq: "getPath ?p @ CHR ''/'' # getFileNameExt ?p = d @ CHR ''/'' # (f @ ''.'' @ e)" by simp
  have "CHR ''/'' \<notin> set (f @ ''.'' @ e)" using a by simp
  with eq ns have g: "getFileNameExt ?p = f @ ''.'' @ e"
    by (blast intro: same_tail)
  have "takeWhile (\<lambda>c. c \<noteq> CHR ''.'') (f @ ''.'' @ e) = f"
    using a(2) takeWhile_stop [of "CHR ''.''" f e] by simp
  then show ?thesis unfolding getFileName_def g find_first_not_of_def Let_def by simp
qed

subsection \<open>Creating directories\<close>

text \<open>The nodes \<open>getline\<close> splits a path into: no last node when the path ends in a slash.\<close>

fun path_nodes :: "string \<Rightarrow> string \<Rightarrow> string list" where
  "path_nodes cur [] = (if cur = [] then [] else [cur])"
| "path_nodes cur (c # s) = (if c = CHR ''/'' then cur # path_nodes [] s else path_nodes (cur @ [c]) s)"

text \<open>The file system is the set of its directories, \<open>deny\<close> the paths \<open>mkdir\<close> refuses with
  another error than \<open>EEXIST\<close>.\<close>

definition makeDir :: "(string \<Rightarrow> bool) \<Rightarrow> string \<Rightarrow> string list \<Rightarrow> bool \<times> string list" where
  "makeDir deny path fs =
     (if path \<notin> set fs then if deny path then (False, fs) else (True, path # fs) else (True, fs))"

fun ensure_loop :: "(string \<Rightarrow> bool) \<Rightarrow> string list \<Rightarrow> string \<Rightarrow> string list \<Rightarrow> bool \<times> string list" where
  "ensure_loop deny [] path_temp fs = (True, fs)"
| "ensure_loop deny (nd # nds) path_temp fs =
     (let path' = path_temp @ nd @ ''/'' in
      case makeDir deny path' fs of
        (ok, fs') \<Rightarrow> if \<not> ok then (False, fs') else ensure_loop deny nds path' fs')"

definition ensurePath :: "(string \<Rightarrow> bool) \<Rightarrow> string \<Rightarrow> string list \<Rightarrow> bool \<times> string list" where
  "ensurePath deny path fs =
     (let pathList = path_nodes [] path
      in if length pathList = 0 then (False, fs) else ensure_loop deny pathList [] fs)"

lemma path_nodes_join: "concat (map (\<lambda>n. n @ ''/'') (path_nodes cur s)) =
    (let t = cur @ s in if t = [] \<or> (s \<noteq> [] \<and> last s = CHR ''/'') then t else t @ ''/'')"
  by (induction cur s rule: path_nodes.induct) (auto simp: Let_def split: if_splits)

lemma ensure_loop_creates:
  "ensure_loop deny nds p fs = (True, fs') \<Longrightarrow>
     set fs \<subseteq> set fs' \<and> (\<forall>k. 0 < k \<longrightarrow> k \<le> length nds \<longrightarrow>
        p @ concat (map (\<lambda>n. n @ ''/'') (take k nds)) \<in> set fs')"
proof (induction nds arbitrary: p fs)
  case Nil
  then show ?case by simp
next
  case (Cons nd nds)
  let ?p = "p @ nd @ ''/''"
  from Cons.prems obtain fs1 where m: "makeDir deny ?p fs = (True, fs1)"
    and r: "ensure_loop deny nds ?p fs1 = (True, fs')"
    by (auto simp: Let_def split: prod.splits if_splits)
  from m have fs1: "set fs \<subseteq> set fs1" "?p \<in> set fs1" by (auto simp: makeDir_def split: if_splits)
  from Cons.IH [OF r] have IH: "set fs1 \<subseteq> set fs'"
    "\<And>k. 0 < k \<Longrightarrow> k \<le> length nds \<Longrightarrow> ?p @ concat (map (\<lambda>n. n @ ''/'') (take k nds)) \<in> set fs'"
    by auto
  have "p @ concat (map (\<lambda>n. n @ ''/'') (take k (nd # nds))) \<in> set fs'"
    if "0 < k" "k \<le> length (nd # nds)" for k
    using that IH fs1 by (cases k; cases "k = 1") auto
  with IH fs1 show ?case by blast
qed

lemma ensure_loop_subset: "ensure_loop deny nds p fs = (b, fs') \<Longrightarrow> set fs \<subseteq> set fs'"
  by (induction nds arbitrary: p fs)
    (auto simp: Let_def makeDir_def split: prod.splits if_splits, fastforce+)

end
