(* ===== verification/Packet.thy ===== *)
theory Packet
  imports Utility
begin

text \<open>
  The messages the agent and the supervisor exchange (\<open>PISupervisor/common/src/PIPacket.cpp\<close>):
  \<open>CPIPacketSupport\<close>, \<open>CPIPacketValue\<close> and \<open>CPIPacket\<close> with \<open>serialize\<close> and \<open>deserialize\<close>. The
  host is little-endian. An \<open>int\<close> field is its 32-bit word, read with \<^const>\<open>sint\<close>; memory behind
  a pointer is the list of its readable bytes, and \<open>None\<close> stands for an access outside it or
  for the exception a negative size ends in.
\<close>

named_theorems pkt "packet codec"

subsection \<open>Bytes of an integer\<close>

fun le_bytes :: "nat \<Rightarrow> 'a::len word \<Rightarrow> u8 list" where
  "le_bytes 0 w = []"
| "le_bytes (Suc n) w = ucast w # le_bytes n (drop_bit 8 w)"

fun of_le :: "u8 list \<Rightarrow> 'a::len word" where
  "of_le [] = 0"
| "of_le (b # bs) = or (ucast b) (push_bit 8 (of_le bs))"

lemma le_bytes_length [simp]: "length (le_bytes n w) = n"
  by (induction n arbitrary: w) auto

lemma of_le_le_bytes: "of_le (le_bytes n w) = take_bit (8 * n) w"
proof (induction n arbitrary: w)
  case 0
  then show ?case by simp
next
  case (Suc n)
  have "or (ucast (ucast w :: u8)) (push_bit 8 (take_bit (8 * n) (drop_bit 8 w))) = take_bit (8 * Suc n) w"
    by (rule bit_word_eqI) (auto simp: bit_simps not_less)
  with Suc show ?case by simp
qed

lemma take_bit_word_full: "LENGTH('a) \<le> n \<Longrightarrow> take_bit n (w :: 'a::len word) = w"
  by (rule bit_word_eqI) (auto simp: bit_simps)

lemma of_le_32 [pkt]: "of_le (le_bytes 4 w) = (w :: u32)"
  by (simp add: of_le_le_bytes take_bit_word_full)

lemma of_le_64 [pkt]: "of_le (le_bytes 8 w) = (w :: u64)"
  by (simp add: of_le_le_bytes take_bit_word_full)

lemma le_bytes_of_le:
  "8 * length bs \<le> LENGTH('a) \<Longrightarrow> le_bytes (length bs) (of_le bs :: 'a::len word) = bs"
proof (induction bs)
  case Nil
  then show ?case by simp
next
  case (Cons b bs)
  let ?w = "of_le bs :: 'a word"
  have small: "take_bit (8 * length bs) ?w = ?w"
  proof -
    have "of_le (le_bytes (length bs) ?w) = take_bit (8 * length bs) ?w" by (rule of_le_le_bytes)
    with Cons show ?thesis by simp
  qed
  have hi: "\<not> bit ?w k" if "8 * length bs \<le> k" for k
    using that small by (metis bit_take_bit_iff not_less)
  have "drop_bit 8 (or (ucast b) (push_bit 8 ?w)) = ?w"
    using Cons.prems hi by (intro bit_word_eqI) (auto simp: bit_simps dest: bit_imp_le_length)
  moreover have "ucast (or (ucast b) (push_bit 8 ?w)) = b"
    using Cons.prems by (intro bit_word_eqI) (auto simp: bit_simps)
  ultimately show ?case using Cons by simp
qed

lemma le_bytes_inject_32: "le_bytes 4 (v :: u32) = le_bytes 4 w \<longleftrightarrow> v = w"
  by (metis of_le_32)

subsection \<open>Byte order\<close>

record packet_support =
  unsignedType :: bool
  bigEndian :: bool

definition support_clear :: packet_support where
  "support_clear = \<lparr>unsignedType = True, bigEndian = False\<rparr>"

text \<open>\<open>htonl\<close> and \<open>ntohl\<close> of the C library on a little-endian host.\<close>

definition ntohl :: "u32 \<Rightarrow> u32" where
  "ntohl w = of_le (rev (le_bytes 4 w))"

definition isHostBigEndian :: bool where
  "isHostBigEndian = (hd (le_bytes 4 (1 :: u32)) \<noteq> 1)"

definition ntoh_int64 :: "u64 \<Rightarrow> u64" where
  "ntoh_int64 param =
     (if isHostBigEndian then param
      else or (push_bit 32 (ucast (ntohl (ucast (drop_bit 32 (push_bit 32 param))))))
              (ucast (ntohl (ucast (drop_bit 32 param)))))"

definition hton_int64 :: "u64 \<Rightarrow> u64" where
  "hton_int64 param = ntoh_int64 param"

definition hton :: "packet_support \<Rightarrow> u32 \<Rightarrow> u32" where
  "hton s param = (if \<not> bigEndian s then param else ntohl param)"

definition ntoh :: "packet_support \<Rightarrow> u32 \<Rightarrow> u32" where
  "ntoh s param = (if \<not> bigEndian s then param else ntohl param)"

definition hton64 :: "packet_support \<Rightarrow> u64 \<Rightarrow> u64" where
  "hton64 s param = (if \<not> bigEndian s then param else hton_int64 param)"

definition ntoh64 :: "packet_support \<Rightarrow> u64 \<Rightarrow> u64" where
  "ntoh64 s param = (if \<not> bigEndian s then param else ntoh_int64 param)"

lemma ntohl_ntohl [simp]: "ntohl (ntohl w) = w"
proof -
  have "le_bytes 4 (of_le (rev (le_bytes 4 w)) :: u32) = rev (le_bytes 4 w)"
    using le_bytes_of_le [of "rev (le_bytes 4 w)", where 'a = 32] by simp
  then show ?thesis by (simp add: ntohl_def pkt)
qed

lemma host_little_endian [simp]: "\<not> isHostBigEndian"
  by (simp add: isHostBigEndian_def numeral_eq_Suc)

lemma ntoh_int64_twice [simp]: "ntoh_int64 (ntoh_int64 w) = w"
proof -
  let ?lo = "ucast (drop_bit 32 (push_bit 32 w)) :: u32" and ?hi = "ucast (drop_bit 32 w) :: u32"
  let ?j = "\<lambda>(h :: u32) (l :: u32). or (push_bit 32 (ucast h)) (ucast l) :: u64"
  have lo: "ucast (drop_bit 32 (push_bit 32 (?j h l))) = l" for h l
    by (rule bit_word_eqI) (auto simp: bit_simps)
  have hi: "ucast (drop_bit 32 (?j h l)) = h" for h l
    by (rule bit_word_eqI) (auto simp: bit_simps dest: bit_imp_le_length)
  have "?j ?hi ?lo = w"
    by (rule bit_word_eqI) (auto simp: bit_simps)
  then show ?thesis by (simp only: ntoh_int64_def host_little_endian if_False lo hi ntohl_ntohl)
qed

lemma ntoh_hton [simp]: "ntoh s (hton s w) = w"
  by (simp add: ntoh_def hton_def)

lemma hton_ntoh [simp]: "hton s (ntoh s w) = w"
  by (simp add: ntoh_def hton_def)

lemma ntoh64_hton64 [simp]: "ntoh64 s (hton64 s w) = w"
  by (simp add: ntoh64_def hton64_def hton_int64_def)

subsection \<open>Values and packets\<close>

record packet_value =
  vsize :: u32
  vbytes :: "u8 list"

record packet =
  totalSize :: u32
  processId :: u32
  command :: u32
  paramCount :: u32
  vectorValue :: "packet_value list"
  psupport :: packet_support

definition empty_value :: packet_value where
  "empty_value = \<lparr>vsize = 0, vbytes = []\<rparr>"

definition CPIPacket :: packet where
  "CPIPacket = \<lparr>totalSize = 0, processId = 0, command = 0, paramCount = 0, vectorValue = [],
     psupport = support_clear\<rparr>"

text \<open>\<open>setBinary\<close> copies \<open>size\<close> bytes from \<open>binary\<close>; \<open>reserve\<close> throws for a negative size.\<close>

definition setBinary :: "u8 list \<Rightarrow> packet_value \<Rightarrow> packet_value option" where
  "setBinary binary v =
     (if sint (vsize v) < 0 then None
      else if length binary < nat (sint (vsize v)) then None
      else Some (v\<lparr>vbytes := take (nat (sint (vsize v))) binary\<rparr>))"

definition setBinary_size :: "u8 list \<Rightarrow> u32 \<Rightarrow> packet_value \<Rightarrow> packet_value option" where
  "setBinary_size binary sz v = setBinary binary (v\<lparr>vsize := sz\<rparr>)"

definition getHeaderSize :: u32 where
  "getHeaderSize = 0 + 4 + 4 + 4"

fun add_sizes :: "packet_value list \<Rightarrow> u32 \<Rightarrow> u32" where
  "add_sizes [] result = result"
| "add_sizes (v # vs) result = add_sizes vs (result + vsize v)"

definition getValueSize :: "packet \<Rightarrow> u32" where
  "getValueSize p = add_sizes (vectorValue p) (0 + 4 + 4 + 4 * of_nat (length (vectorValue p)))"

definition setCommand :: "u32 \<Rightarrow> packet \<Rightarrow> packet" where
  "setCommand cmd p = p\<lparr>command := cmd\<rparr>"

text \<open>The null pointer is \<open>None\<close>.\<close>

definition addBinary :: "u8 list option \<Rightarrow> u32 \<Rightarrow> packet \<Rightarrow> (int \<times> packet) option" where
  "addBinary param sz p =
     (case param of
        None \<Rightarrow> Some (-1, p)
      | Some mem \<Rightarrow> do {
          value \<leftarrow> setBinary_size mem sz empty_value;
          let p' = p\<lparr>vectorValue := vectorValue p @ [value]\<rparr>;
          Some (int (length (vectorValue p')) - 1, p')
        })"

definition add_int :: "u32 \<Rightarrow> packet \<Rightarrow> (int \<times> packet) option" where
  "add_int param p = addBinary (Some (le_bytes 4 (hton (psupport p) param))) 4 p"

definition add_uint :: "u32 \<Rightarrow> packet \<Rightarrow> (int \<times> packet) option" where
  "add_uint param p =
     (if \<not> unsignedType (psupport p) then add_int (getInt param) p
      else addBinary (Some (le_bytes 4 (hton (psupport p) param))) 4 p)"

definition add_longlong :: "u64 \<Rightarrow> packet \<Rightarrow> (int \<times> packet) option" where
  "add_longlong param p = addBinary (Some (le_bytes 8 (hton64 (psupport p) param))) 8 p"

definition add_ulonglong :: "u64 \<Rightarrow> packet \<Rightarrow> (int \<times> packet) option" where
  "add_ulonglong param p =
     (if \<not> unsignedType (psupport p) then add_longlong (getLongLong param) p
      else addBinary (Some (le_bytes 8 (hton64 (psupport p) param))) 8 p)"

definition chars_of :: "string \<Rightarrow> u8 list" where
  "chars_of s = map of_char s"

definition add_string :: "string \<Rightarrow> packet \<Rightarrow> (int \<times> packet) option" where
  "add_string param p = addBinary (Some (chars_of param @ [0])) (of_nat (length param + 1)) p"

text \<open>The data of an empty vector is the null pointer.\<close>

definition getBinary :: "nat \<Rightarrow> packet \<Rightarrow> u8 list option" where
  "getBinary index p =
     (if length (vectorValue p) \<le> index then None
      else case vbytes (vectorValue p ! index) of [] \<Rightarrow> None | b # bs \<Rightarrow> Some (b # bs))"

definition get_int :: "nat \<Rightarrow> packet \<Rightarrow> u32 option" where
  "get_int index p =
     (case getBinary index p of
        None \<Rightarrow> Some 0
      | Some param \<Rightarrow> if length param < 4 then None else Some (ntoh (psupport p) (of_le (take 4 param))))"

definition get_uint :: "nat \<Rightarrow> packet \<Rightarrow> u32 option" where
  "get_uint index p =
     (case getBinary index p of
        None \<Rightarrow> Some 0
      | Some param \<Rightarrow> if length param < 4 then None else Some (ntoh (psupport p) (of_le (take 4 param))))"

definition get_longlong :: "nat \<Rightarrow> packet \<Rightarrow> u64 option" where
  "get_longlong index p =
     (case getBinary index p of
        None \<Rightarrow> Some 0
      | Some param \<Rightarrow> if length param < 8 then None else Some (ntoh64 (psupport p) (of_le (take 8 param))))"

definition get_ulonglong :: "nat \<Rightarrow> packet \<Rightarrow> u64 option" where
  "get_ulonglong index p =
     (case getBinary index p of
        None \<Rightarrow> Some 0
      | Some param \<Rightarrow> if length param < 8 then None else Some (ntoh64 (psupport p) (of_le (take 8 param))))"

text \<open>\<open>std::string\<close> of a null pointer is undefined; of bytes, it ends at the first NUL, which has
  to be among them.\<close>

fun c_str :: "u8 list \<Rightarrow> string option" where
  "c_str [] = None"
| "c_str (b # bs) = (if b = 0 then Some [] else map_option (Cons (char_of (unat b))) (c_str bs))"

definition get_string :: "nat \<Rightarrow> packet \<Rightarrow> string option" where
  "get_string index p = (case getBinary index p of None \<Rightarrow> None | Some param \<Rightarrow> c_str param)"

subsection \<open>Serializing\<close>

text \<open>\<open>memcpy (itr, value.value.data (), value.size)\<close>: a negative size is a huge one.\<close>

definition copy_value :: "packet_value \<Rightarrow> u8 list option" where
  "copy_value v =
     (if sint (vsize v) < 0 \<or> length (vbytes v) < nat (sint (vsize v)) then None
      else Some (take (nat (sint (vsize v))) (vbytes v)))"

fun copy_values :: "packet_value list \<Rightarrow> u8 list option" where
  "copy_values [] = Some []"
| "copy_values (v # vs) = do { b \<leftarrow> copy_value v; bs \<leftarrow> copy_values vs; Some (b @ bs) }"

definition copy_size :: "packet_support \<Rightarrow> packet_value \<Rightarrow> u8 list" where
  "copy_size s v = le_bytes 4 (hton s (vsize v))"

text \<open>The bytes of the packet, and the packet with its recomputed total size.\<close>

definition serialize :: "packet \<Rightarrow> (u8 list \<times> packet) option" where
  "serialize p =
     (let s = psupport p;
          total = getHeaderSize + getValueSize p;
          p' = p\<lparr>totalSize := total, processId := 0\<rparr>
      in if sint total < 0 then None
         else do {
           vals \<leftarrow> copy_values (vectorValue p);
           data \<leftarrow> blit (le_bytes 4 (hton s total) @ le_bytes 4 (processId p') @ replicate 4 0 @
                        le_bytes 4 (hton s (command p)) @
                        le_bytes 4 (hton s (of_nat (length (vectorValue p)))) @
                        concat (map (copy_size s) (vectorValue p)) @ vals)
                       (replicate (nat (sint total)) 0);
           Some (data, p')
         })"

subsection \<open>Parsing\<close>

definition rd32 :: "packet_support \<Rightarrow> u8 list \<Rightarrow> (u32 \<times> u8 list) option" where
  "rd32 s itr = (if length itr < 4 then None else Some (ntoh s (of_le (take 4 itr)), drop 4 itr))"

fun read_sizes :: "packet_support \<Rightarrow> nat \<Rightarrow> u8 list \<Rightarrow> (packet_value list \<times> u8 list) option" where
  "read_sizes s 0 itr = Some ([], itr)"
| "read_sizes s (Suc n) itr = do {
     (sz, itr1) \<leftarrow> rd32 s itr;
     (vs, itr2) \<leftarrow> read_sizes s n itr1;
     Some (empty_value\<lparr>vsize := sz\<rparr> # vs, itr2)
   }"

fun read_values :: "packet_value list \<Rightarrow> u8 list \<Rightarrow> (packet_value list \<times> u8 list) option" where
  "read_values [] itr = Some ([], itr)"
| "read_values (v # vs) itr = do {
     v' \<leftarrow> setBinary itr v;
     (vs', itr') \<leftarrow> read_values vs (drop (nat (sint (vsize v'))) itr);
     Some (v' # vs', itr')
   }"

text \<open>\<open>data\<close> is the memory from the pointer on; the result is the packet and its total size.\<close>

definition deserialize :: "u8 list \<Rightarrow> packet \<Rightarrow> (packet \<times> u32) option" where
  "deserialize data p = do {
     let s = psupport p;
     (total, i1) \<leftarrow> rd32 s data;
     (pid, i2) \<leftarrow> rd32 s i1;
     (reserved, i3) \<leftarrow> rd32 s i2;
     (cmd, i4) \<leftarrow> rd32 s i3;
     (count, i5) \<leftarrow> rd32 s i4;
     (sizes, i6) \<leftarrow> read_sizes s (nat (sint count)) i5;
     (vals, i7) \<leftarrow> read_values sizes i6;
     Some (p\<lparr>totalSize := total, processId := pid, command := cmd, paramCount := count,
             vectorValue := vals\<rparr>, total)
   }"

subsection \<open>Well-formed packets\<close>

text \<open>A value as the \<open>add_*\<close> operations build it; a packet that fits an \<open>int\<close>.\<close>

definition value_ok :: "packet_value \<Rightarrow> bool" where
  "value_ok v \<longleftrightarrow> 0 \<le> sint (vsize v) \<and> length (vbytes v) = nat (sint (vsize v))"

definition packet_len :: "packet \<Rightarrow> nat" where
  "packet_len p = 20 + 4 * length (vectorValue p) + sum_list (map (length \<circ> vbytes) (vectorValue p))"

definition packet_ok :: "packet \<Rightarrow> bool" where
  "packet_ok p \<longleftrightarrow> (\<forall>v \<in> set (vectorValue p). value_ok v) \<and> packet_len p < 2 ^ 31"

text \<open>The packet the other side reads.\<close>

definition as_sent :: "packet \<Rightarrow> packet" where
  "as_sent p = p\<lparr>totalSize := of_nat (packet_len p), processId := 0,
     paramCount := of_nat (length (vectorValue p))\<rparr>"

subsection \<open>Round trip\<close>

definition wire :: "packet \<Rightarrow> u8 list" where
  "wire p =
     (let s = psupport p in
      le_bytes 4 (hton s (of_nat (packet_len p))) @ le_bytes 4 (0 :: u32) @ replicate 4 0 @
      le_bytes 4 (hton s (command p)) @ le_bytes 4 (hton s (of_nat (length (vectorValue p)))) @
      concat (map (copy_size s) (vectorValue p)) @ concat (map vbytes (vectorValue p)))"

lemma value_ok_iff: "value_ok v \<longleftrightarrow> vsize v = of_nat (length (vbytes v)) \<and> length (vbytes v) < 2 ^ 31"
proof
  assume *: "value_ok v"
  then have "length (vbytes v) = unat (vsize v)" "unat (vsize v) < 2 ^ 31"
    using sint_nonneg_bound [of "vsize v"] by (auto simp: value_ok_def sint_nonneg_unat)
  then show "vsize v = of_nat (length (vbytes v)) \<and> length (vbytes v) < 2 ^ 31" by simp
next
  assume "vsize v = of_nat (length (vbytes v)) \<and> length (vbytes v) < 2 ^ 31"
  then show "value_ok v" by (simp add: value_ok_def sint_of_small_nat)
qed

lemma copy_value_ok [pkt]: "value_ok v \<Longrightarrow> copy_value v = Some (vbytes v)"
  by (auto simp: copy_value_def value_ok_def)

lemma copy_values_ok [pkt]: "\<forall>v \<in> set vs. value_ok v \<Longrightarrow> copy_values vs = Some (concat (map vbytes vs))"
  by (induction vs) (auto simp: pkt)

lemma add_sizes_ok: "\<forall>v \<in> set vs. value_ok v \<Longrightarrow>
    add_sizes vs r = r + of_nat (sum_list (map (length \<circ> vbytes) vs))"
  by (induction vs arbitrary: r) (auto simp: value_ok_iff)

lemma total_size_ok: "\<forall>v \<in> set (vectorValue p). value_ok v \<Longrightarrow>
    getHeaderSize + getValueSize p = of_nat (packet_len p)"
  by (simp add: getHeaderSize_def getValueSize_def add_sizes_ok packet_len_def)

lemma copy_size_length [simp]: "length (copy_size s v) = 4"
  by (simp add: copy_size_def)

lemma wire_length [simp]: "length (wire p) = packet_len p"
  by (simp add: wire_def Let_def packet_len_def length_concat comp_def sum_list_triv)

lemma serialize_ok:
  "packet_ok p \<Longrightarrow>
     serialize p = Some (wire p, p\<lparr>totalSize := of_nat (packet_len p), processId := 0\<rparr>)"
proof -
  assume ok: "packet_ok p"
  then have v: "\<forall>v \<in> set (vectorValue p). value_ok v" and l: "packet_len p < 2 ^ 31"
    by (auto simp: packet_ok_def)
  have s: "sint (of_nat (packet_len p) :: u32) = int (packet_len p)" using l by (rule sint_of_small_nat)
  have "blit (wire p) (replicate (packet_len p) 0) = Some (wire p)"
    by (simp add: blit_def)
  then show ?thesis
    using v s by (simp add: serialize_def Let_def total_size_ok copy_values_ok wire_def)
qed

lemma rd32_le_bytes [pkt]: "rd32 s (le_bytes 4 w @ rest) = Some (ntoh s w, rest)"
  by (simp add: rd32_def pkt)

lemma rd32_zero [pkt]: "rd32 s (replicate 4 0 @ rest) = Some (ntoh s 0, rest)"
  by (simp add: rd32_def numeral_eq_Suc)

lemma ntohl_0 [simp]: "ntohl 0 = 0"
  by (simp add: ntohl_def numeral_eq_Suc)

lemma ntoh_0 [simp]: "ntoh s 0 = 0"
  by (simp add: ntoh_def)

lemma read_sizes_ok [pkt]:
  "read_sizes s (length vs) (concat (map (copy_size s) vs) @ rest) =
     Some (map (\<lambda>v. empty_value\<lparr>vsize := vsize v\<rparr>) vs, rest)"
  by (induction vs) (simp_all add: copy_size_def pkt)

lemma setBinary_ok [pkt]:
  "value_ok v \<Longrightarrow> setBinary (vbytes v @ rest) (empty_value\<lparr>vsize := vsize v\<rparr>) = Some v"
  by (auto simp: setBinary_def value_ok_def empty_value_def)

lemma read_values_ok [pkt]:
  "\<forall>v \<in> set vs. value_ok v \<Longrightarrow>
     read_values (map (\<lambda>v. empty_value\<lparr>vsize := vsize v\<rparr>) vs) (concat (map vbytes vs) @ rest) = Some (vs, rest)"
proof (induction vs)
  case Nil
  then show ?case by simp
next
  case (Cons v vs)
  then have "nat (sint (vsize v)) = length (vbytes v)" by (simp add: value_ok_def)
  with Cons show ?case by (simp add: setBinary_ok)
qed

lemma count_ok: "packet_ok p \<Longrightarrow> nat (sint (of_nat (length (vectorValue p)) :: u32)) = length (vectorValue p)"
  by (rule nat_sint_count) (simp add: packet_ok_def packet_len_def)

lemma deserialize_wire:
  "packet_ok p \<Longrightarrow> bigEndian (psupport q) = bigEndian (psupport p) \<Longrightarrow>
     deserialize (wire p @ rest) q = Some ((as_sent p)\<lparr>psupport := psupport q\<rparr>, of_nat (packet_len p))"
proof -
  assume ok: "packet_ok p" and be: "bigEndian (psupport q) = bigEndian (psupport p)"
  have h: "hton (psupport p) = hton (psupport q)" using be by (simp add: hton_def fun_eq_iff)
  then have cs: "copy_size (psupport p) = copy_size (psupport q)" by (simp add: copy_size_def fun_eq_iff)
  have "\<forall>v \<in> set (vectorValue p). value_ok v" using ok by (simp add: packet_ok_def)
  then show ?thesis
    by (simp add: deserialize_def wire_def Let_def h cs pkt count_ok [OF ok] as_sent_def)
qed

text \<open>The operations that build a packet keep it well formed as long as it fits.\<close>

lemma addBinary_ok:
  "length mem = unat sz \<Longrightarrow> unat sz < 2 ^ 31 \<Longrightarrow>
     addBinary (Some mem) sz p =
       Some (int (length (vectorValue p)), p\<lparr>vectorValue := vectorValue p @ [\<lparr>vsize = sz, vbytes = mem\<rparr>]\<rparr>)"
proof -
  assume l: "length mem = unat sz" "unat sz < 2 ^ 31"
  then have "sint sz = int (unat sz)" using sint_of_small_nat [of "unat sz"] by simp
  with l show ?thesis
    by (simp add: addBinary_def setBinary_size_def setBinary_def empty_value_def Let_def)
qed

lemma addBinary_null: "addBinary None sz p = Some (-1, p)"
  by (simp add: addBinary_def)

lemmas adders = add_int_def add_uint_def add_longlong_def add_ulonglong_def add_string_def

lemma add_int_eq: "add_int x p = Some (int (length (vectorValue p)),
    p\<lparr>vectorValue := vectorValue p @ [\<lparr>vsize = 4, vbytes = le_bytes 4 (hton (psupport p) x)\<rparr>]\<rparr>)"
  by (simp add: adders addBinary_ok)

lemma add_longlong_eq: "add_longlong x p = Some (int (length (vectorValue p)),
    p\<lparr>vectorValue := vectorValue p @ [\<lparr>vsize = 8, vbytes = le_bytes 8 (hton64 (psupport p) x)\<rparr>]\<rparr>)"
  by (simp add: adders addBinary_ok)

lemma add_string_eq: "length s + 1 < 2 ^ 31 \<Longrightarrow> add_string s p = Some (int (length (vectorValue p)),
    p\<lparr>vectorValue := vectorValue p @ [\<lparr>vsize = of_nat (length s + 1), vbytes = chars_of s @ [0]\<rparr>]\<rparr>)"
proof -
  assume "length s + 1 < 2 ^ 31"
  then have "unat (of_nat (length s + 1) :: u32) = length s + 1" by (rule unat_count)
  with \<open>length s + 1 < 2 ^ 31\<close> show ?thesis
    by (simp add: add_string_def addBinary_ok chars_of_def del: of_nat_add)
qed

lemma unat_byte: "n < 256 \<Longrightarrow> unat (of_nat n :: u8) = n"
  by (simp add: unat_of_nat)

lemma c_str_chars_of: "NUL \<notin> set s \<Longrightarrow> c_str (chars_of s @ 0 # rest) = Some s"
proof (induction s)
  case Nil
  then show ?case by (simp add: chars_of_def)
next
  case (Cons c s)
  have u: "unat (of_char c :: u8) = of_char c"
    using unat_byte [of "of_char c"] by (simp add: of_nat_of_char)
  have "(of_char c :: u8) \<noteq> 0"
  proof
    assume "(of_char c :: u8) = 0"
    with u have "(of_char c :: nat) = 0" by simp
    then have "c = char_of (0 :: nat)" by (metis char_of_char)
    with Cons.prems show False by (simp add: char_of_def)
  qed
  with Cons u show ?case by (simp add: chars_of_def)
qed

text \<open>Reading a value back.\<close>

lemma getBinary_at: "index < length (vectorValue p) \<Longrightarrow> vbytes (vectorValue p ! index) = bs \<Longrightarrow> bs \<noteq> [] \<Longrightarrow>
    getBinary index p = Some bs"
  by (cases bs) (auto simp: getBinary_def)

lemma get_int_at: "index < length (vectorValue p) \<Longrightarrow>
    vbytes (vectorValue p ! index) = le_bytes 4 (hton (psupport p) x) \<Longrightarrow> get_int index p = Some x"
  using getBinary_at [of index p "le_bytes 4 (hton (psupport p) x)"]
  by (simp add: get_int_def pkt flip: length_0_conv)

lemma get_longlong_at: "index < length (vectorValue p) \<Longrightarrow>
    vbytes (vectorValue p ! index) = le_bytes 8 (hton64 (psupport p) x) \<Longrightarrow> get_longlong index p = Some x"
  using getBinary_at [of index p "le_bytes 8 (hton64 (psupport p) x)"]
  by (simp add: get_longlong_def pkt flip: length_0_conv)

lemma get_string_at: "index < length (vectorValue p) \<Longrightarrow> NUL \<notin> set s \<Longrightarrow>
    vbytes (vectorValue p ! index) = chars_of s @ [0] \<Longrightarrow> get_string index p = Some s"
  using getBinary_at [of index p "chars_of s @ [0]"] by (simp add: get_string_def c_str_chars_of)

subsection \<open>Codecs\<close>

text \<open>What a stream reader needs of a codec: a decoder that takes an encoding off the front of
  whatever follows it. Then a stream of encodings has one reading only.\<close>

locale codec =
  fixes enc :: "'p \<Rightarrow> 'b list" and dec :: "'b list \<Rightarrow> ('v \<times> 'b list) option"
    and view :: "'p \<Rightarrow> 'v" and ok :: "'p \<Rightarrow> bool"
  assumes dec_enc: "ok p \<Longrightarrow> dec (enc p @ rest) = Some (view p, rest)"
begin

lemma enc_prefix_free: "ok p \<Longrightarrow> ok q \<Longrightarrow> prefix (enc p) (enc q) \<Longrightarrow> view p = view q \<and> enc p = enc q"
  using dec_enc [of p] dec_enc [of q "[]"] by (fastforce simp: prefix_def)

lemma enc_eq: "ok p \<Longrightarrow> ok q \<Longrightarrow> enc p @ r = enc q @ s \<Longrightarrow> view p = view q \<and> r = s"
  using dec_enc [of p r] dec_enc [of q s] by simp

lemma stream_unique:
  "\<forall>p \<in> set ps. ok p \<and> enc p \<noteq> [] \<Longrightarrow> \<forall>q \<in> set qs. ok q \<and> enc q \<noteq> [] \<Longrightarrow>
     concat (map enc ps) = concat (map enc qs) \<Longrightarrow> map view ps = map view qs"
proof (induction ps arbitrary: qs)
  case Nil
  then show ?case by (cases qs) auto
next
  case (Cons p ps)
  then obtain q qs' where q: "qs = q # qs'" by (cases qs) auto
  with Cons.prems have "enc p @ concat (map enc ps) = enc q @ concat (map enc qs')" by simp
  with Cons.prems q have "view p = view q" "concat (map enc ps) = concat (map enc qs')"
    using enc_eq [of p q "concat (map enc ps)" "concat (map enc qs')"] by auto
  with Cons q show ?case by auto
qed

end

interpretation int_codec: codec "\<lambda>w. le_bytes 4 (hton s w)" "rd32 s" "\<lambda>w. w" "\<lambda>_. True"
  for s by unfold_locales (simp add: pkt)

interpretation str_codec: codec "\<lambda>s. chars_of s @ [0]"
  "\<lambda>bs. map_option (\<lambda>s. (s, drop (length s + 1) bs)) (c_str bs)" "\<lambda>s. s" "\<lambda>s. NUL \<notin> set s"
  by unfold_locales (simp add: c_str_chars_of, simp add: chars_of_def)

definition take_packet :: "packet_support \<Rightarrow> u8 list \<Rightarrow> (packet \<times> u8 list) option" where
  "take_packet s bs = map_option (\<lambda>(p, n). (p, drop (nat (sint n)) bs)) (deserialize bs (CPIPacket\<lparr>psupport := s\<rparr>))"

definition sendable :: "packet_support \<Rightarrow> packet \<Rightarrow> bool" where
  "sendable s p \<longleftrightarrow> packet_ok p \<and> bigEndian (psupport p) = bigEndian s"

lemma nat_sint_len: "packet_ok p \<Longrightarrow> nat (sint (of_nat (packet_len p) :: u32)) = packet_len p"
  by (rule nat_sint_count) (simp add: packet_ok_def)

interpretation packet_codec: codec wire "take_packet s" "\<lambda>p. (as_sent p)\<lparr>psupport := s\<rparr>" "sendable s"
  for s
proof
  fix p rest
  assume "sendable s p"
  then show "take_packet s (wire p @ rest) = Some ((as_sent p)\<lparr>psupport := s\<rparr>, rest)"
    by (simp add: take_packet_def sendable_def deserialize_wire nat_sint_len)
qed

subsection \<open>Properties\<close>

text \<open>C26: What \<open>serialize\<close> writes for a packet of well-formed values whose size fits an \<open>int\<close> is as
  long as its total size says, and \<open>deserialize\<close>, with the same byte order and whatever follows
  it in memory, reads the same command and the same parameters from it; the sender's process
  id is always 0.\<close>

theorem packet_roundtrip:
  assumes "packet_ok p" and "bigEndian (psupport q) = bigEndian (psupport p)"
  shows "\<exists>data. serialize p = Some (data, p\<lparr>totalSize := of_nat (packet_len p), processId := 0\<rparr>) \<and>
    length data = packet_len p \<and>
    deserialize (data @ rest) q = Some (q\<lparr>totalSize := of_nat (packet_len p), processId := 0,
      command := command p, paramCount := of_nat (length (vectorValue p)),
      vectorValue := vectorValue p\<rparr>, of_nat (packet_len p))"
  using assms by (simp add: serialize_ok deserialize_wire as_sent_def)

definition sample_packet :: packet where
  "sample_packet = CPIPacket\<lparr>command := 7, vectorValue := [\<lparr>vsize = 4, vbytes = [1, 0, 0, 0]\<rparr>, \<lparr>vsize = 2, vbytes = [65, 0]\<rparr>]\<rparr>"

lemma sample_packet_ok: "packet_ok sample_packet"
  by (simp add: packet_ok_def sample_packet_def CPIPacket_def value_ok_def packet_len_def)

theorem packet_roundtrip_witness:
  "\<exists>data. serialize sample_packet = Some (data, sample_packet\<lparr>totalSize := 34, processId := 0\<rparr>) \<and>
    length data = 34 \<and> deserialize (data @ [9]) CPIPacket =
      Some (sample_packet\<lparr>totalSize := 34, paramCount := 2\<rparr>, 34)"
  using packet_roundtrip [of sample_packet CPIPacket "[9]"] sample_packet_ok
  by (simp add: sample_packet_def CPIPacket_def packet_len_def)

text \<open>C27: A number and a text a sender adds to a packet are what the receiver reads at the indices
  the two calls returned, in either byte order; a wide number too.\<close>

theorem message_fields_roundtrip:
  assumes "vectorValue p = []" and "length s < 2 ^ 30" and "NUL \<notin> set s"
    and "bigEndian (psupport q) = bigEndian (psupport p)"
  shows "\<exists>p1 p2 p3 data p4 r n. add_int x p = Some (0, p1) \<and> add_string s p1 = Some (1, p2) \<and>
    add_longlong y p2 = Some (2, p3) \<and> serialize p3 = Some (data, p4) \<and>
    deserialize data q = Some (r, n) \<and> command r = command p \<and> paramCount r = 3 \<and>
    get_int 0 r = Some x \<and> get_string 1 r = Some s \<and> get_longlong 2 r = Some y"
proof -
  let ?vs = "[\<lparr>vsize = 4, vbytes = le_bytes 4 (hton (psupport p) x)\<rparr>,
     \<lparr>vsize = of_nat (length s + 1), vbytes = chars_of s @ [0]\<rparr>,
     \<lparr>vsize = 8, vbytes = le_bytes 8 (hton64 (psupport p) y)\<rparr>]"
  let ?p3 = "p\<lparr>vectorValue := ?vs\<rparr>"
  have l: "length s + 1 < 2 ^ 31" using assms(2) by simp
  have ok: "packet_ok ?p3"
    using assms(2) by (auto simp: packet_ok_def value_ok_iff packet_len_def chars_of_def)
  have h: "hton (psupport p) = hton (psupport q)" "hton64 (psupport p) = hton64 (psupport q)"
    using assms(4) by (simp_all add: hton_def hton64_def fun_eq_iff)
  let ?r = "(as_sent ?p3)\<lparr>psupport := psupport q\<rparr>"
  have d: "deserialize (wire ?p3) q = Some (?r, of_nat (packet_len ?p3))"
    using deserialize_wire [OF ok, of q "[]"] assms(4) by simp
  have v: "vectorValue ?r = ?vs" "psupport ?r = psupport q" by (simp_all add: as_sent_def)
  have g0: "get_int 0 ?r = Some x"
    by (rule get_int_at) (use v h in simp_all)
  have g1: "get_string 1 ?r = Some s"
    by (rule get_string_at) (use v assms(3) in simp_all)
  have g2: "get_longlong 2 ?r = Some y"
    by (rule get_longlong_at) (use v h in simp_all)
  have a: "add_int x p = Some (0, p\<lparr>vectorValue := take 1 ?vs\<rparr>)"
    "add_string s (p\<lparr>vectorValue := take 1 ?vs\<rparr>) = Some (1, p\<lparr>vectorValue := take 2 ?vs\<rparr>)"
    "add_longlong y (p\<lparr>vectorValue := take 2 ?vs\<rparr>) = Some (2, ?p3)"
    using assms(1) l by (simp_all add: add_int_eq add_string_eq add_longlong_eq)
  have "command ?r = command p \<and> paramCount ?r = 3" by (simp add: as_sent_def)
  with a serialize_ok [OF ok] d g0 g1 g2 show ?thesis by blast
qed

theorem message_fields_roundtrip_witness:
  "\<exists>p1 p2 p3 data p4 r n. add_int 5 CPIPacket = Some (0, p1) \<and> add_string ''/tmp'' p1 = Some (1, p2) \<and>
    add_longlong 9 p2 = Some (2, p3) \<and> serialize p3 = Some (data, p4) \<and>
    deserialize data CPIPacket = Some (r, n) \<and> command r = command CPIPacket \<and> paramCount r = 3 \<and>
    get_int 0 r = Some 5 \<and> get_string 1 r = Some ''/tmp'' \<and> get_longlong 2 r = Some 9"
  by (rule message_fields_roundtrip) (simp_all add: CPIPacket_def)

end
