(* ===== verification/Communicator.thy ===== *)
theory Communicator
  imports Packet
begin

text \<open>
  The connection between the agent and the supervisor
  (\<open>PISupervisor/common/src/PICommunicator.cpp\<close>): \<open>CPICommunicator\<close> with its receive buffer and
  packet queues. The socket is an argument: a list of what successive \<open>read\<close> calls return, a list
  of what successive \<open>write\<close> calls return. A call for which the list holds nothing more blocks;
  a result is \<open>None\<close> when the code blocks, does not end or leaves the buffer. The
  optional dump of the traffic (\<open>CPICommSupport::save\<close>, its result is not used) has no effect here.
\<close>

definition MAX_LENGTH_TCPBUFFER :: nat where "MAX_LENGTH_TCPBUFFER = 262144"
definition PISUPERVISOR_PORT :: nat where "PISUPERVISOR_PORT = 7790"

datatype comm_tcpstate = TCPSTATE_NOTCONNECTED | TCPSTATE_CONNECTED | TCPSTATE_SENDING
  | TCPSTATE_RECVING | TCPSTATE_ONRECV
datatype comm_state = STATE_INACTIVE | STATE_ACTIVE
datatype comm_result = RESULT_OK | RESULT_ERROR | RESULT_NOPACKET | RESULT_INVALID_STATE

record comm =
  cstate :: comm_state
  ipString :: string
  tcpFd :: int
  tcpPort :: nat
  tcpState :: comm_tcpstate
  tcpRecvBuffer :: "u8 list"
  remainedRecvBufSize :: int
  listSend :: "packet list"
  listRecv :: "packet list"
  csupport :: packet_support

definition comm_clear :: "comm \<Rightarrow> comm" where
  "comm_clear c = c\<lparr>remainedRecvBufSize := 0, cstate := STATE_INACTIVE,
     tcpState := TCPSTATE_NOTCONNECTED, tcpFd := -1, csupport := support_clear\<rparr>"

text \<open>A communicator on a buffer of arbitrary contents; the lists start empty.\<close>

definition new_comm :: "u8 list \<Rightarrow> comm" where
  "new_comm mem = comm_clear \<lparr>cstate = STATE_INACTIVE, ipString = [], tcpFd = -1, tcpPort = 0,
     tcpState = TCPSTATE_NOTCONNECTED, tcpRecvBuffer = mem, remainedRecvBufSize = 0,
     listSend = [], listRecv = [], csupport = support_clear\<rparr>"

subsection \<open>Connecting\<close>

text \<open>\<open>fd\<close> is what \<open>socket\<close> returns, \<open>ok\<close> whether \<open>connect\<close> succeeds, \<open>sel\<close> what \<open>select\<close> returns.\<close>

definition initializeTCPClient :: "int \<Rightarrow> comm \<Rightarrow> bool \<times> comm" where
  "initializeTCPClient fd c =
     (if length (ipString c) = 0 then (False, c)
      else let c' = c\<lparr>tcpFd := fd\<rparr> in if fd < 0 then (False, c') else (True, c'))"

definition connectTCP :: "bool \<Rightarrow> comm \<Rightarrow> comm_result \<times> comm" where
  "connectTCP ok c =
     (if \<not> ok then (RESULT_ERROR, c)
      else (RESULT_OK, c\<lparr>cstate := STATE_ACTIVE, tcpState := TCPSTATE_CONNECTED\<rparr>))"

definition disconnectTCP :: "comm \<Rightarrow> comm_result \<times> comm" where
  "disconnectTCP c =
     (let c1 = (if 0 < tcpFd c then c\<lparr>tcpFd := -1\<rparr> else c)
      in (RESULT_OK, c1\<lparr>cstate := STATE_INACTIVE, tcpState := TCPSTATE_NOTCONNECTED\<rparr>))"

definition terminateTCPClient :: "comm \<Rightarrow> bool \<times> comm" where
  "terminateTCPClient c = (case disconnectTCP c of (r, c') \<Rightarrow> (r \<noteq> RESULT_OK, c'))"

definition selectTCP :: "int \<Rightarrow> comm \<Rightarrow> comm_tcpstate \<times> comm" where
  "selectTCP sel c =
     (if tcpState c = TCPSTATE_NOTCONNECTED then (TCPSTATE_NOTCONNECTED, c)
      else let c' = (if sel = 0 then c\<lparr>tcpState := TCPSTATE_CONNECTED\<rparr>
                     else if sel = -1 then c\<lparr>cstate := STATE_INACTIVE, tcpState := TCPSTATE_NOTCONNECTED\<rparr>
                     else c\<lparr>tcpState := TCPSTATE_ONRECV\<rparr>)
           in (tcpState c', c'))"

subsection \<open>Sending\<close>

text \<open>The loop over the send list: the bytes put on the wire, the result, the packets left. A
  \<open>write\<close> that takes fewer bytes than the packet has counts as sent.\<close>

fun send_loop :: "int list \<Rightarrow> packet list \<Rightarrow> (u8 list \<times> comm_result \<times> packet list) option" where
  "send_loop ws [] = Some ([], RESULT_OK, [])"
| "send_loop [] (p # ps) = None"
| "send_loop (w # ws) (p # ps) = do {
     (buf, p') \<leftarrow> serialize p;
     (if 0 < w then do {
        (out, result, rest) \<leftarrow> send_loop ws ps;
        Some (take (nat w) buf @ out, result, rest)
      } else Some ([], RESULT_ERROR, p' # ps))
   }"

definition sendTCP :: "int list \<Rightarrow> comm \<Rightarrow> (u8 list \<times> comm_result \<times> comm) option" where
  "sendTCP ws c =
     (if length (listSend c) = 0 then Some ([], RESULT_NOPACKET, c)
      else do {
        let c1 = c\<lparr>tcpState := TCPSTATE_SENDING\<rparr>;
        (out, result, rest) \<leftarrow> send_loop ws (listSend c1);
        let c2 = (if result = RESULT_ERROR
                  then c1\<lparr>listSend := rest, tcpState := TCPSTATE_NOTCONNECTED\<rparr>
                  else c1\<lparr>listSend := rest\<rparr>);
        Some (out, result, if tcpState c2 \<noteq> TCPSTATE_NOTCONNECTED then c2\<lparr>tcpState := TCPSTATE_CONNECTED\<rparr> else c2)
      })"

subsection \<open>Receiving\<close>

datatype read_result = ReadError | ReadData "u8 list"

definition mem_at :: "u8 list \<Rightarrow> int \<Rightarrow> u8 list option" where
  "mem_at buffer off = (if off < 0 \<or> int (length buffer) < off then None else Some (drop (nat off) buffer))"

text \<open>The inner loop. \<open>buf\<close> is the offset of this read in the buffer. The comparison with
  \<open>MIN_LENGTH_PIPROTOCOL\<close> is unsigned: a negative length is a large one there, but not in the
  comparison with what was read.\<close>

partial_function (option) parse_loop ::
  "int \<Rightarrow> int \<Rightarrow> int \<Rightarrow> comm_result \<Rightarrow> comm \<Rightarrow> (int \<times> comm_result \<times> comm) option" where
  "parse_loop buf readSum parsedSize result c =
     (if 0 \<le> readSum - parsedSize \<and> readSum - parsedSize < 4 then Some (parsedSize, result, c)
      else do {
        mem \<leftarrow> mem_at (tcpRecvBuffer c) (buf + parsedSize);
        (word, r) \<leftarrow> rd32 (csupport c) mem;
        (if 0 \<le> sint word \<and> sint word \<le> 4
         then Some (readSum, RESULT_ERROR, c\<lparr>tcpFd := -1, tcpState := TCPSTATE_NOTCONNECTED\<rparr>)
         else if parsedSize + sint word > readSum then Some (parsedSize, result, c)
         else do {
           (packet, total) \<leftarrow> deserialize mem
             (CPIPacket\<lparr>psupport := \<lparr>unsignedType = False, bigEndian = bigEndian (csupport c)\<rparr>\<rparr>);
           parse_loop buf readSum (parsedSize + sint total) result (c\<lparr>listRecv := listRecv c @ [packet]\<rparr>)
         })
      })"

definition put_at :: "u8 list \<Rightarrow> nat \<Rightarrow> u8 list \<Rightarrow> u8 list" where
  "put_at buffer off d = take off buffer @ d @ drop (off + length d) buffer"

text \<open>One turn of the outer loop: \<open>Inl\<close> when it ends the call, \<open>Inr\<close> the new
  \<open>readSum\<close>, \<open>parsedSize\<close>, result and communicator when it reads on.\<close>

definition recv_parsed :: "int \<Rightarrow> int \<Rightarrow> comm_result \<Rightarrow> comm \<Rightarrow>
    ((comm_result \<times> comm) + (int \<times> int \<times> comm_result \<times> comm)) option" where
  "recv_parsed readSum parsedSize result c =
     (let remained = readSum - parsedSize; c1 = c\<lparr>remainedRecvBufSize := remained\<rparr> in
      if remained = 0 then Some (Inl (result, c1))
      else do {
        mem \<leftarrow> mem_at (tcpRecvBuffer c1) parsedSize;
        (if remained < 0 \<or> int (length mem) < remained then None
         else Some (Inr (readSum, parsedSize, result,
           c1\<lparr>tcpRecvBuffer := put_at (tcpRecvBuffer c1) 0 (take (nat remained) mem)\<rparr>)))
      })"

definition recv_data :: "u8 list \<Rightarrow> int \<Rightarrow> int \<Rightarrow> int \<Rightarrow> comm_result \<Rightarrow> comm \<Rightarrow>
    ((comm_result \<times> comm) + (int \<times> int \<times> comm_result \<times> comm)) option" where
  "recv_data d off readSum parsedSize result c =
     (let d' = take (length (tcpRecvBuffer c) - nat off) d in
      if length d' = 0
      then Some (Inl (result, c\<lparr>cstate := STATE_INACTIVE, tcpState := TCPSTATE_NOTCONNECTED\<rparr>))
      else do {
        let readSum1 = readSum + int (length d');
        (parsed1, result1, c1) \<leftarrow> parse_loop off readSum1 parsedSize result
           (c\<lparr>tcpRecvBuffer := put_at (tcpRecvBuffer c) (nat off) d'\<rparr>);
        recv_parsed readSum1 parsed1 result1 c1
      })"

definition recv_step :: "read_result \<Rightarrow> int \<Rightarrow> int \<Rightarrow> comm_result \<Rightarrow> comm \<Rightarrow>
    ((comm_result \<times> comm) + (int \<times> int \<times> comm_result \<times> comm)) option" where
  "recv_step r readSum parsedSize result c =
     (let off = remainedRecvBufSize c + readSum in
      if off < 0 \<or> int (length (tcpRecvBuffer c)) < off then None
      else case r of ReadError \<Rightarrow> Some (Inl (result, c))
                   | ReadData d \<Rightarrow> recv_data d off readSum parsedSize result c)"

fun recv_loop :: "read_result list \<Rightarrow> int \<Rightarrow> int \<Rightarrow> comm_result \<Rightarrow> comm \<Rightarrow> (comm_result \<times> comm) option" where
  "recv_loop [] readSum parsedSize result c = None"
| "recv_loop (r # rs) readSum parsedSize result c = do {
     s \<leftarrow> recv_step r readSum parsedSize result c;
     (case s of Inl res \<Rightarrow> Some res
      | Inr (readSum', parsedSize', result', c') \<Rightarrow> recv_loop rs readSum' parsedSize' result' c')
   }"

definition recvTCP :: "read_result list \<Rightarrow> comm \<Rightarrow> (comm_result \<times> comm) option" where
  "recvTCP rs c = recv_loop rs 0 0 RESULT_OK c"

subsection \<open>Whole packets\<close>

definition recv_support :: "packet_support \<Rightarrow> packet_support" where
  "recv_support s = \<lparr>unsignedType = False, bigEndian = bigEndian s\<rparr>"

definition received :: "packet_support \<Rightarrow> packet \<Rightarrow> packet" where
  "received s p = (as_sent p)\<lparr>psupport := recv_support s\<rparr>"

lemma mem_at_ok: "0 \<le> off \<Longrightarrow> off \<le> int (length b) \<Longrightarrow> mem_at b off = Some (drop (nat off) b)"
  by (simp add: mem_at_def)

lemma deserialize_received:
  "sendable s p \<Longrightarrow> deserialize (wire p @ rest) (CPIPacket\<lparr>psupport := recv_support s\<rparr>) =
     Some (received s p, of_nat (packet_len p))"
  by (simp add: sendable_def deserialize_wire recv_support_def received_def)

lemma rd32_wire: "sendable s p \<Longrightarrow> \<exists>r. rd32 s (wire p @ rest) = Some (of_nat (packet_len p), r)"
proof -
  assume "sendable s p"
  then have "hton (psupport p) = hton s" by (simp add: sendable_def hton_def fun_eq_iff)
  then show ?thesis by (simp add: wire_def Let_def rd32_le_bytes)
qed

lemma sint_packet_len: "packet_ok p \<Longrightarrow> sint (of_nat (packet_len p) :: u32) = int (packet_len p)"
  by (rule sint_of_small_nat) (simp add: packet_ok_def)

lemma packet_len_ge: "20 \<le> packet_len p"
  by (simp add: packet_len_def)

lemma wire_not_Nil [simp]: "wire p \<noteq> []"
  by (simp add: wire_def Let_def numeral_eq_Suc)

lemma parse_loop_short [simp]:
  "0 \<le> readSum - parsed \<Longrightarrow> readSum - parsed < 4 \<Longrightarrow> parse_loop buf readSum parsed result c = Some (parsed, result, c)"
  by (subst parse_loop.simps) simp

text \<open>The inner loop takes every complete packet off the front and leaves a shorter tail.\<close>

lemma parse_loop_packets:
  assumes "\<forall>p \<in> set ps. sendable (csupport c) p" and "length tail < 4"
    and "0 \<le> buf + parsed" and "buf + parsed \<le> int (length (tcpRecvBuffer c))"
    and "drop (nat (buf + parsed)) (tcpRecvBuffer c) = concat (map wire ps) @ tail @ rest"
    and "readSum = parsed + int (length (concat (map wire ps))) + int (length tail)"
  shows "parse_loop buf readSum parsed result c =
    Some (readSum - int (length tail), result,
      c\<lparr>listRecv := listRecv c @ map (received (csupport c)) ps\<rparr>)"
  using assms
proof (induction ps arbitrary: parsed c)
  case Nil
  then show ?case by simp
next
  case (Cons p ps)
  let ?n = "packet_len p"
  let ?c = "c\<lparr>listRecv := listRecv c @ [received (csupport c) p]\<rparr>"
  let ?mem = "drop (nat (buf + parsed)) (tcpRecvBuffer c)"
  have p: "sendable (csupport c) p" and ok: "packet_ok p"
    using Cons.prems(1) by (auto simp: sendable_def)
  have mem: "?mem = wire p @ concat (map wire ps) @ tail @ rest" using Cons.prems(5) by simp
  have n: "20 \<le> ?n" by (rule packet_len_ge)
  have rs: "readSum = parsed + int ?n + int (length (concat (map wire ps))) + int (length tail)"
    using Cons.prems(6) by simp
  have len: "?n \<le> length ?mem" by (simp add: mem)
  then have e: "buf + (parsed + int ?n) \<le> int (length (tcpRecvBuffer c))"
    using Cons.prems(3,4) by auto
  have "drop (nat (buf + (parsed + int ?n))) (tcpRecvBuffer c) = drop ?n ?mem"
    using Cons.prems(3) by (simp add: nat_add_distrib add.assoc [symmetric] drop_drop add.commute)
  then have d: "drop (nat (buf + (parsed + int ?n))) (tcpRecvBuffer ?c) = concat (map wire ps) @ tail @ rest"
    by (simp add: mem)
  have "parse_loop buf readSum (parsed + int ?n) result ?c = Some (readSum - int (length tail), result,
      ?c\<lparr>listRecv := listRecv ?c @ map (received (csupport ?c)) ps\<rparr>)"
    by (rule Cons.IH) (use Cons.prems e d rs in \<open>simp_all\<close>)
  moreover obtain r where r: "rd32 (csupport c) ?mem = Some (of_nat ?n, r)"
    unfolding mem using rd32_wire [OF p] by blast
  moreover have "deserialize ?mem (CPIPacket\<lparr>psupport := recv_support (csupport c)\<rparr>) =
      Some (received (csupport c) p, of_nat ?n)"
    unfolding mem by (rule deserialize_received [OF p])
  ultimately show ?case
    using n rs Cons.prems(3,4) sint_packet_len [OF ok]
    by (subst parse_loop.simps) (simp add: mem_at_ok recv_support_def)
qed

lemma put_at_length [simp]: "off + length d \<le> length b \<Longrightarrow> length (put_at b off d) = length b"
  by (simp add: put_at_def)

lemma put_at_drop: "off \<le> length b \<Longrightarrow> drop off (put_at b off d) = d @ drop (off + length d) b"
  by (simp add: put_at_def)

lemma put_at_self: "put_at b 0 (take n b) = b"
  by (cases "n \<le> length b") (simp_all add: put_at_def)

lemma recvTCP_packets:
  assumes "\<forall>p \<in> set ps. sendable (csupport c) p" and "ps \<noteq> []" and "remainedRecvBufSize c = 0"
    and "length (concat (map wire ps)) \<le> length (tcpRecvBuffer c)"
  shows "recvTCP (ReadData (concat (map wire ps)) # rs) c =
    Some (RESULT_OK, c\<lparr>tcpRecvBuffer := put_at (tcpRecvBuffer c) 0 (concat (map wire ps)),
      listRecv := listRecv c @ map (received (csupport c)) ps\<rparr>)"
proof -
  let ?d = "concat (map wire ps)"
  let ?c = "c\<lparr>tcpRecvBuffer := put_at (tcpRecvBuffer c) 0 ?d\<rparr>"
  have "?d \<noteq> []"
    using assms(2) by (cases ps) simp_all
  moreover have "parse_loop 0 (int (length ?d)) 0 RESULT_OK ?c =
      Some (int (length ?d) - int (length ([] :: u8 list)), RESULT_OK,
        ?c\<lparr>listRecv := listRecv ?c @ map (received (csupport ?c)) ps\<rparr>)"
    by (rule parse_loop_packets) (use assms in \<open>simp_all add: put_at_def\<close>)
  then have "parse_loop 0 (int (length ?d)) 0 RESULT_OK ?c = Some (int (length ?d), RESULT_OK,
      ?c\<lparr>listRecv := listRecv c @ map (received (csupport c)) ps\<rparr>)" by simp
  ultimately have "recv_step (ReadData ?d) 0 0 RESULT_OK c = Some (Inl (RESULT_OK,
      ?c\<lparr>listRecv := listRecv c @ map (received (csupport c)) ps, remainedRecvBufSize := 0\<rparr>))"
    using assms(3,4) by (simp del: length_concat add: recv_step_def recv_data_def recv_parsed_def)
  then show ?thesis using assms(3) by (simp add: recvTCP_def)
qed

lemma send_loop_complete:
  "\<forall>p \<in> set ps. packet_ok p \<Longrightarrow>
     send_loop (map (int \<circ> packet_len) ps @ ws) ps = Some (concat (map wire ps), RESULT_OK, [])"
proof (induction ps)
  case Nil
  then show ?case by simp
next
  case (Cons p ps)
  then show ?case using packet_len_ge [of p] by (simp add: serialize_ok)
qed

subsection \<open>Properties\<close>

text \<open>C28: Every packet queued on one side arrives on the other, in order and unchanged, when each
  \<open>write\<close> takes its packet whole and the bytes arrive in one \<open>read\<close>: the send queue is empty
  then, the sender is connected again, and the receiver has nothing left over.\<close>

theorem transfer_complete:
  assumes "listSend a \<noteq> []" and "\<forall>p \<in> set (listSend a). sendable (csupport b) p"
    and "remainedRecvBufSize b = 0"
    and "sum_list (map packet_len (listSend a)) \<le> length (tcpRecvBuffer b)"
  shows "\<exists>out a' b'. sendTCP (map (int \<circ> packet_len) (listSend a)) a = Some (out, RESULT_OK, a') \<and>
    listSend a' = [] \<and> tcpState a' = TCPSTATE_CONNECTED \<and>
    recvTCP (ReadData out # rs) b = Some (RESULT_OK, b') \<and> remainedRecvBufSize b' = 0 \<and>
    listRecv b' = listRecv b @ map (received (csupport b)) (listSend a)"
proof -
  let ?ps = "listSend a"
  have ok: "\<forall>p \<in> set ?ps. packet_ok p" using assms(2) by (simp add: sendable_def)
  have "sendTCP (map (int \<circ> packet_len) ?ps) a = Some (concat (map wire ?ps), RESULT_OK,
      a\<lparr>listSend := [], tcpState := TCPSTATE_CONNECTED\<rparr>)"
    using assms(1) send_loop_complete [OF ok, of "[]"] by (simp add: sendTCP_def)
  moreover have "length (concat (map wire ?ps)) \<le> length (tcpRecvBuffer b)"
    using assms(4) by (simp add: length_concat comp_def)
  ultimately show ?thesis
    using recvTCP_packets [OF assms(2,1,3)] assms(3) by fastforce
qed

definition sample_comm :: comm where
  "sample_comm = (new_comm (replicate 100 0))\<lparr>listSend := [sample_packet, sample_packet]\<rparr>"

lemma sample_packet_sendable: "sendable support_clear sample_packet"
  using sample_packet_ok by (simp add: sendable_def sample_packet_def CPIPacket_def)

lemma sample_packet_len: "packet_len sample_packet = 34"
  by (simp add: sample_packet_def packet_len_def)

lemmas sample_comm_simps = sample_comm_def new_comm_def comm_clear_def sample_packet_sendable sample_packet_len

theorem transfer_complete_witness:
  "\<exists>out a' b'. sendTCP [34, 34] sample_comm = Some (out, RESULT_OK, a') \<and> listSend a' = [] \<and>
    tcpState a' = TCPSTATE_CONNECTED \<and> recvTCP [ReadData out] sample_comm = Some (RESULT_OK, b') \<and>
    remainedRecvBufSize b' = 0 \<and>
    listRecv b' = map (received support_clear) [sample_packet, sample_packet]"
  using transfer_complete [of sample_comm sample_comm "[]"] by (simp add: sample_comm_simps)



text \<open>C30: A peer that sends a negative length makes the receiver leave its buffer: the length passes
  the check for a minimal size, which is unsigned, and the one for a complete packet, and moves
  the parser before the start of the buffer. Neither the length nor anything else of the
  message has to be valid.\<close>

theorem negative_length_leaves_buffer:
  assumes "4 \<le> length d" and "length d \<le> length (tcpRecvBuffer c)"
    and "sint (ntoh (csupport c) (of_le (take 4 d))) < 0" and "remainedRecvBufSize c = 0"
  shows "recvTCP (ReadData d # rs) c = None"
proof -
  let ?c = "c\<lparr>tcpRecvBuffer := put_at (tcpRecvBuffer c) 0 d\<rparr>"
  let ?w = "ntoh (csupport c) (of_le (take 4 d))"
  let ?n = "int (length d)"
  let ?B = "tcpRecvBuffer ?c"
  let ?q = "CPIPacket\<lparr>psupport := recv_support (csupport c)\<rparr>"
  have t: "take 4 ?B = take 4 d" "length ?B = length (tcpRecvBuffer c)"
    using assms(1,2) by (simp_all add: put_at_def)
  have rd: "rd32 (csupport c) ?B = Some (?w, drop 4 ?B)"
    using assms(1,2) t by (simp add: rd32_def)
  have tot: "total = ?w" if "deserialize ?B ?q = Some (packet, total)" for packet total
    using that t(1)
    by (auto simp: deserialize_def Let_def rd32_def recv_support_def ntoh_def split: bind_splits if_splits)
  have off: "parse_loop 0 ?n (sint ?w) result c' = None" for result c'
    using assms(1,3) by (subst parse_loop.simps) (simp add: mem_at_def)
  have "parse_loop 0 ?n 0 RESULT_OK ?c = None"
    using assms(1,3) rd tot off
    by (subst parse_loop.simps)
      (auto simp: mem_at_ok recv_support_def split: bind_splits)
  then have "recv_step (ReadData d) 0 0 RESULT_OK c = None"
    using assms by (auto simp: recv_step_def recv_data_def Let_def)
  then show ?thesis by (simp add: recvTCP_def)
qed

theorem negative_length_leaves_buffer_witness:
  "recvTCP [ReadData [0xFB, 0xFF, 0xFF, 0xFF]] sample_comm = None"
proof -
  have "sint (of_le [0xFB, 0xFF, 0xFF, 0xFF] :: u32) < 0" by code_simp
  then show ?thesis
    using negative_length_leaves_buffer [of "[0xFB, 0xFF, 0xFF, 0xFF]" sample_comm "[]"]
    by (simp add: sample_comm_simps ntoh_def support_clear_def)
qed

text \<open>A \<open>write\<close> that takes only a part of a packet counts as success: the packet leaves the
  queue, the rest of its bytes is never sent and the call reports no error. A failing \<open>write\<close>
  keeps the packet and reports that the connection is gone.\<close>

theorem short_write_loses_tail:
  assumes "packet_ok p" and "listSend c = [p]"
  shows "(0 < w \<longrightarrow> sendTCP [w] c =
      Some (take (nat w) (wire p), RESULT_OK, c\<lparr>listSend := [], tcpState := TCPSTATE_CONNECTED\<rparr>)) \<and>
    (w \<le> 0 \<longrightarrow> (\<exists>c'. sendTCP [w] c = Some ([], RESULT_ERROR, c') \<and>
      tcpState c' = TCPSTATE_NOTCONNECTED \<and> map wire (listSend c') = [wire p]))"
  using assms by (simp_all add: sendTCP_def serialize_ok wire_def packet_len_def)

theorem short_write_loses_tail_witness:
  "sendTCP [1] (sample_comm\<lparr>listSend := [sample_packet]\<rparr>) =
      Some (take 1 (wire sample_packet), RESULT_OK,
        sample_comm\<lparr>listSend := [], tcpState := TCPSTATE_CONNECTED\<rparr>) \<and>
   (\<exists>c'. sendTCP [-1] (sample_comm\<lparr>listSend := [sample_packet]\<rparr>) = Some ([], RESULT_ERROR, c') \<and>
      tcpState c' = TCPSTATE_NOTCONNECTED \<and> map wire (listSend c') = [wire sample_packet])"
  using short_write_loses_tail [OF sample_packet_ok, of "sample_comm\<lparr>listSend := [sample_packet]\<rparr>" 1]
    short_write_loses_tail [OF sample_packet_ok, of "sample_comm\<lparr>listSend := [sample_packet]\<rparr>" "-1"] by simp

end
