(* ===== verification/StructCodec.thy ===== *)
theory StructCodec
  imports SmartCmd Communicator
begin

text \<open>
  The packed structures of \<open>KernelProtocol.h\<close> as bytes: a structure is a list of fields, an 8-byte
  \<open>BOOLEAN\<close>, a 4-byte integer or an array of characters that ends at its first null. The message a
  supervisor builds (\<open>COMMAND_MESSAGE\<close>) is its bytes; the agent reads the structures its command
  calls for.
\<close>

subsection \<open>Fields\<close>

datatype field = F64 u64 | F32 u32 | FStr nat string

datatype ftype = L64 | L32 | LStr nat

fun ty_of :: "field \<Rightarrow> ftype" where
  "ty_of (F64 _) = L64"
| "ty_of (F32 _) = L32"
| "ty_of (FStr n _) = LStr n"

fun ftype_size :: "ftype \<Rightarrow> nat" where
  "ftype_size L64 = 8"
| "ftype_size L32 = 4"
| "ftype_size (LStr n) = n"

fun field_ok :: "field \<Rightarrow> bool" where
  "field_ok (FStr n s) \<longleftrightarrow> length s < n \<and> NUL \<notin> set s"
| "field_ok _ \<longleftrightarrow> True"

fun enc_field :: "field \<Rightarrow> u8 list" where
  "enc_field (F64 w) = le_bytes 8 w"
| "enc_field (F32 w) = le_bytes 4 w"
| "enc_field (FStr n s) = chars_of s @ replicate (n - length s) 0"

definition c_array :: "u8 list \<Rightarrow> string" where
  "c_array bs = the (c_str (bs @ [0]))"

fun dec_field :: "ftype \<Rightarrow> u8 list \<Rightarrow> field" where
  "dec_field L64 bs = F64 (of_le bs)"
| "dec_field L32 bs = F32 (of_le bs)"
| "dec_field (LStr n) bs = FStr n (c_array bs)"

lemma c_array_chars_of: "NUL \<notin> set s \<Longrightarrow> c_array (chars_of s @ replicate n 0) = s"
  using c_str_chars_of [of s "replicate n 0"]
  by (simp add: c_array_def replicate_append_same [symmetric])

lemma chars_of_length [simp]: "length (chars_of s) = length s"
  by (simp add: chars_of_def)

lemma enc_field_length: "field_ok f \<Longrightarrow> length (enc_field f) = ftype_size (ty_of f)"
  by (cases f) auto

lemma dec_enc_field: "field_ok f \<Longrightarrow> dec_field (ty_of f) (enc_field f) = f"
  by (cases f) (auto simp: pkt c_array_chars_of)

subsection \<open>Structures and arrays of them\<close>

definition enc_fields :: "field list \<Rightarrow> u8 list" where
  "enc_fields fs = concat (map enc_field fs)"

fun dec_fields :: "ftype list \<Rightarrow> u8 list \<Rightarrow> (field list \<times> u8 list) option" where
  "dec_fields [] bs = Some ([], bs)"
| "dec_fields (t # ts) bs =
     (if length bs < ftype_size t then None
      else do {
        (fs, r) \<leftarrow> dec_fields ts (drop (ftype_size t) bs);
        Some (dec_field t (take (ftype_size t) bs) # fs, r)
      })"

definition struct_size :: "ftype list \<Rightarrow> nat" where
  "struct_size ts = sum_list (map ftype_size ts)"

lemma enc_fields_length:
  "\<forall>f \<in> set fs. field_ok f \<Longrightarrow> length (enc_fields fs) = struct_size (map ty_of fs)"
  by (induction fs) (auto simp: enc_fields_def struct_size_def enc_field_length)

lemma dec_enc_fields:
  "\<forall>f \<in> set fs. field_ok f \<Longrightarrow> dec_fields (map ty_of fs) (enc_fields fs @ rest) = Some (fs, rest)"
  by (induction fs) (auto simp: enc_fields_def enc_field_length dec_enc_field)

text \<open>The structures that lie whole in a stretch of memory.\<close>

fun dec_structs :: "ftype list \<Rightarrow> (field list \<Rightarrow> 'a) \<Rightarrow> nat \<Rightarrow> u8 list \<Rightarrow> 'a list" where
  "dec_structs ts mk 0 bs = []"
| "dec_structs ts mk (Suc n) bs =
     (case dec_fields ts bs of None \<Rightarrow> [] | Some (fs, r) \<Rightarrow> mk fs # dec_structs ts mk n r)"

definition dec_array :: "ftype list \<Rightarrow> (field list \<Rightarrow> 'a) \<Rightarrow> u8 list \<Rightarrow> 'a list" where
  "dec_array ts mk bs = dec_structs ts mk (length bs div struct_size ts) bs"

locale struct_codec =
  fixes layout :: "ftype list" and to_fields :: "'a \<Rightarrow> field list" and of_fields :: "field list \<Rightarrow> 'a"
    and ok :: "'a \<Rightarrow> bool"
  assumes typed: "map ty_of (to_fields x) = layout"
    and fields_ok: "ok x \<Longrightarrow> \<forall>f \<in> set (to_fields x). field_ok f"
    and of_to: "of_fields (to_fields x) = x"
    and size_pos: "0 < struct_size layout"
begin

lemma enc_length: "ok x \<Longrightarrow> length (enc_fields (to_fields x)) = struct_size layout"
  using enc_fields_length [of "to_fields x"] fields_ok typed by simp

lemma dec_enc: "ok x \<Longrightarrow> dec_fields layout (enc_fields (to_fields x) @ rest) = Some (to_fields x, rest)"
  using dec_enc_fields [of "to_fields x" rest] fields_ok typed by simp

lemma enc_array_length:
  "\<forall>x \<in> set xs. ok x \<Longrightarrow> length (concat (map (\<lambda>x. enc_fields (to_fields x)) xs)) = length xs * struct_size layout"
  by (induction xs) (auto simp: enc_length)

lemma dec_structs_array:
  "\<forall>x \<in> set xs. ok x \<Longrightarrow>
     dec_structs layout of_fields (length xs) (concat (map (\<lambda>x. enc_fields (to_fields x)) xs) @ rest) = xs"
  by (induction xs) (auto simp: dec_enc of_to)

lemma dec_array_enc:
  "\<forall>x \<in> set xs. ok x \<Longrightarrow>
     dec_array layout of_fields (concat (map (\<lambda>x. enc_fields (to_fields x)) xs)) = xs"
  using dec_structs_array [of xs "[]"] enc_array_length [of xs] size_pos
  by (simp add: dec_array_def)

end

sublocale struct_codec \<subseteq> bytes: codec "\<lambda>x. enc_fields (to_fields x)"
  "\<lambda>bs. map_option (\<lambda>(fs, r). (of_fields fs, r)) (dec_fields layout bs)" "\<lambda>x. x" ok
  by unfold_locales (auto simp: dec_enc of_to)

subsection \<open>The structures of the messages\<close>

definition device_layout :: "ftype list" where
  "device_layout = [L64, L64, L64, L64, L32, LStr DEVICE_NAME_SZ]"

definition device_fields :: "attached_device \<Rightarrow> field list" where
  "device_fields d = [F64 (bLoggingOn d), F64 (bDisableAll d), F64 (bDisableRead d), F64 (bDisableWrite d),
     F32 (nReserved1 d), FStr DEVICE_NAME_SZ (DeviceNames d)]"

fun device_of_fields :: "field list \<Rightarrow> attached_device" where
  "device_of_fields (F64 l # F64 a # F64 r # F64 w # F32 n # FStr _ s # _) = \<lparr>bLoggingOn = l, bDisableAll = a,
     bDisableRead = r, bDisableWrite = w, nReserved1 = n, DeviceNames = s\<rparr>"
| "device_of_fields _ = zero_device"

definition device_ex_layout :: "ftype list" where
  "device_ex_layout = device_layout @ [L32]"

definition device_ex_fields :: "attached_device_ex \<Rightarrow> field list" where
  "device_ex_fields d = device_fields (cDevice d) @ [F32 (ulStorDevType d)]"

fun device_ex_of_fields :: "field list \<Rightarrow> attached_device_ex" where
  "device_ex_of_fields (a # b # c # d # e # f # F32 t # _) =
     \<lparr>cDevice = device_of_fields [a, b, c, d, e, f], ulStorDevType = t\<rparr>"
| "device_ex_of_fields _ = zero_device_ex"

definition name_fields :: "nat \<Rightarrow> string \<Rightarrow> field list" where
  "name_fields n s = [FStr n s]"

fun name_of_fields :: "field list \<Rightarrow> string" where
  "name_of_fields (FStr _ s # _) = s"
| "name_of_fields _ = []"

definition camera_fields :: "camera_policy \<Rightarrow> field list" where
  "camera_fields p = [F64 (bCameraLog p), F64 (bCameraBlock p), F32 (cam_nReserved p)]"

fun camera_of_fields :: "field list \<Rightarrow> camera_policy" where
  "camera_of_fields (F64 l # F64 b # F32 n # _) = \<lparr>bCameraLog = l, bCameraBlock = b, cam_nReserved = n\<rparr>"
| "camera_of_fields _ = \<lparr>bCameraLog = 0, bCameraBlock = 0, cam_nReserved = 0\<rparr>"

definition rndis_fields :: "rndis_policy \<Rightarrow> field list" where
  "rndis_fields p = [F64 (bRNdisLog p), F64 (bRNdisBlock p)]"

fun rndis_of_fields :: "field list \<Rightarrow> rndis_policy" where
  "rndis_of_fields (F64 l # F64 b # _) = \<lparr>bRNdisLog = l, bRNdisBlock = b\<rparr>"
| "rndis_of_fields _ = \<lparr>bRNdisLog = 0, bRNdisBlock = 0\<rparr>"

definition airdrop_fields :: "airdrop_policy \<Rightarrow> field list" where
  "airdrop_fields p = [F64 (bAirDropLog p), F64 (bAirDropBlock p), F32 (ad_nReserved0 p),
     F32 (ad_nReserved1 p), F32 (ad_nReserved2 p), F32 (ad_nReserved3 p)]"

fun airdrop_of_fields :: "field list \<Rightarrow> airdrop_policy" where
  "airdrop_of_fields (F64 l # F64 b # F32 n0 # F32 n1 # F32 n2 # F32 n3 # _) =
     \<lparr>bAirDropLog = l, bAirDropBlock = b, ad_nReserved0 = n0, ad_nReserved1 = n1, ad_nReserved2 = n2,
      ad_nReserved3 = n3\<rparr>"
| "airdrop_of_fields _ = \<lparr>bAirDropLog = 0, bAirDropBlock = 0, ad_nReserved0 = 0, ad_nReserved1 = 0,
      ad_nReserved2 = 0, ad_nReserved3 = 0\<rparr>"

definition mb_policy_fields :: "mb_policy \<Rightarrow> field list" where
  "mb_policy_fields p = [F64 (bMtpLog p), F64 (bMtpBlock p), F64 (bPtpLog p), F64 (bPtpBlock p),
     F64 (bAndroidLog p), F64 (bAndroidBlock p), F64 (bAppleLog p), F64 (bAppleBlock p)]"

fun mb_policy_of_fields :: "field list \<Rightarrow> mb_policy" where
  "mb_policy_of_fields (F64 a # F64 b # F64 c # F64 d # F64 e # F64 f # F64 g # F64 h # _) =
     \<lparr>bMtpLog = a, bMtpBlock = b, bPtpLog = c, bPtpBlock = d, bAndroidLog = e, bAndroidBlock = f,
      bAppleLog = g, bAppleBlock = h\<rparr>"
| "mb_policy_of_fields _ = \<lparr>bMtpLog = 0, bMtpBlock = 0, bPtpLog = 0, bPtpBlock = 0, bAndroidLog = 0,
      bAndroidBlock = 0, bAppleLog = 0, bAppleBlock = 0\<rparr>"

definition permit_fields :: "mb_permit \<Rightarrow> field list" where
  "permit_fields p = [FStr 128 (czMediaName p), FStr 260 (czMediaID p)]"

fun permit_of_fields :: "field list \<Rightarrow> mb_permit" where
  "permit_of_fields (FStr _ a # FStr _ b # _) = \<lparr>czMediaName = a, czMediaID = b\<rparr>"
| "permit_of_fields _ = \<lparr>czMediaName = [], czMediaID = []\<rparr>"

lemmas struct_defs = device_layout_def device_fields_def device_ex_layout_def device_ex_fields_def
  name_fields_def camera_fields_def rndis_fields_def airdrop_fields_def mb_policy_fields_def
  permit_fields_def struct_size_def

definition device_ok :: "attached_device \<Rightarrow> bool" where
  "device_ok d \<longleftrightarrow> length (DeviceNames d) < DEVICE_NAME_SZ \<and> NUL \<notin> set (DeviceNames d)"

definition name_ok :: "nat \<Rightarrow> string \<Rightarrow> bool" where
  "name_ok n s \<longleftrightarrow> length s < n \<and> NUL \<notin> set s"

interpretation device_codec: struct_codec device_layout device_fields device_of_fields device_ok
  by unfold_locales (auto simp: struct_defs device_ok_def)

interpretation device_ex_codec: struct_codec device_ex_layout device_ex_fields device_ex_of_fields "\<lambda>d. device_ok (cDevice d)"
  by unfold_locales (auto simp: struct_defs device_ok_def)

interpretation name_codec: struct_codec "[LStr (Suc n)]" "name_fields (Suc n)" name_of_fields "name_ok (Suc n)" for n
  by unfold_locales (auto simp: struct_defs name_ok_def)

interpretation camera_codec: struct_codec "[L64, L64, L32]" camera_fields camera_of_fields "\<lambda>_. True"
  by unfold_locales (auto simp: struct_defs)

interpretation rndis_codec: struct_codec "[L64, L64]" rndis_fields rndis_of_fields "\<lambda>_. True"
  by unfold_locales (auto simp: struct_defs)

interpretation airdrop_codec: struct_codec "[L64, L64, L32, L32, L32, L32]" airdrop_fields airdrop_of_fields "\<lambda>_. True"
  by unfold_locales (auto simp: struct_defs)

interpretation mb_policy_codec: struct_codec "replicate 8 L64" mb_policy_fields mb_policy_of_fields "\<lambda>_. True"
  by unfold_locales (auto simp: struct_defs numeral_eq_Suc)

interpretation permit_codec: struct_codec "[LStr 128, LStr 260]" permit_fields permit_of_fields
    "\<lambda>p. name_ok 128 (czMediaName p) \<and> name_ok 260 (czMediaID p)"
  by unfold_locales (auto simp: struct_defs name_ok_def)

text \<open>The sizes agree with the element sizes the handlers divide by.\<close>

lemma struct_sizes:
  "struct_size device_ex_layout = SIZEOF_ATTACHED_DEVICE_EX" "struct_size device_layout = SIZEOF_ATTACHED_DEVICE"
  "struct_size [LStr 256] = SIZEOF_ALLOWPROCESSNAME" "struct_size [LStr 128] = SIZEOF_ALLOWFOLDERNAME"
  "struct_size [LStr 64] = SIZEOF_ALLOWFILEEXTNAME"
  by (simp_all add: struct_defs sizeof_defs DEVICE_NAME_SZ_def)

definition print_layout :: "ftype list" where
  "print_layout = [L64, L32, L64, L64, L64, L64, L64, L32, LStr DEVICE_NAME_SZ]"

definition print_fields :: "print_policy \<Rightarrow> field list" where
  "print_fields p = [F64 (pp_bPolicy p), F32 (pp_nPolicyType p), F64 (pp_bWatermark p), F64 (pp_bLoggingOn p),
     F64 (pp_bDisableAll p), F64 (pp_bDisableRead p), F64 (pp_bDisableWrite p), F32 (pp_nReserved1 p),
     FStr DEVICE_NAME_SZ (pp_czDeviceName p)]"

fun print_of_fields :: "field list \<Rightarrow> print_policy" where
  "print_of_fields (F64 a # F32 b # F64 c # F64 d # F64 e # F64 f # F64 g # F32 h # FStr n s # _) =
     \<lparr>pp_bPolicy = a, pp_nPolicyType = b, pp_bWatermark = c, pp_bLoggingOn = d, pp_bDisableAll = e,
      pp_bDisableRead = f, pp_bDisableWrite = g, pp_nReserved1 = h, pp_czDeviceName = s\<rparr>"
| "print_of_fields _ = \<lparr>pp_bPolicy = 0, pp_nPolicyType = 0, pp_bWatermark = 0, pp_bLoggingOn = 0,
      pp_bDisableAll = 0, pp_bDisableRead = 0, pp_bDisableWrite = 0, pp_nReserved1 = 0, pp_czDeviceName = []\<rparr>"

interpretation print_codec: struct_codec print_layout print_fields print_of_fields
    "\<lambda>p. name_ok DEVICE_NAME_SZ (pp_czDeviceName p)"
  by unfold_locales (auto simp: print_layout_def print_fields_def name_ok_def struct_size_def)

text \<open>Entries of the quarantine and services: the rest of a structure, a repeated part.\<close>

fun entries_of :: "field list \<Rightarrow> qt_entry list" where
  "entries_of (F32 t # FStr n s # fs) = \<lparr>ulQtType = t, czBuffer = s\<rparr> # entries_of fs"
| "entries_of _ = []"

definition qt_layout :: "ftype list" where
  "qt_layout = L64 # L32 # concat (replicate MAX_QT_COUNT [L32, LStr 512])"

fun qt_of_fields :: "field list \<Rightarrow> qt_ctx" where
  "qt_of_fields (F64 b # F32 n # fs) = \<lparr>bQtLimit = b, ulCount = n, Entry = entries_of fs\<rparr>"
| "qt_of_fields _ = \<lparr>bQtLimit = 0, ulCount = 0, Entry = []\<rparr>"

fun services_of :: "field list \<Rightarrow> spt_service list" where
  "services_of (F32 pid # FStr n s # fs) = \<lparr>svc_nPID = pid, czPList = s\<rparr> # services_of fs"
| "services_of _ = []"

definition protect_layout :: "ftype list" where
  "protect_layout = L64 # L32 # LStr 260 # concat (replicate SPT_SERVICE_COUNT [L32, LStr 128])"

fun protect_of_fields :: "field list \<Rightarrow> self_protect" where
  "protect_of_fields (F64 b # F32 n # FStr l s # fs) =
     \<lparr>bProtect = b, nService = n, FilePath = s, Services = services_of fs\<rparr>"
| "protect_of_fields _ = \<lparr>bProtect = 0, nService = 0, FilePath = [], Services = []\<rparr>"

fun ac_of_fields :: "field list \<Rightarrow> proc_ac_policy" where
  "ac_of_fields (F64 l # F64 b # _) = \<lparr>ac_bLog = l, bProcAC = b\<rparr>"
| "ac_of_fields _ = \<lparr>ac_bLog = 0, bProcAC = 0\<rparr>"

subsection \<open>Messages\<close>

text \<open>One structure at the start of the data; data too short for it is none.\<close>

definition one_struct :: "ftype list \<Rightarrow> (field list \<Rightarrow> 'a) \<Rightarrow> ('a \<Rightarrow> payload) \<Rightarrow> u8 list \<Rightarrow> payload" where
  "one_struct layout mk con bs = (case dec_fields layout bs of None \<Rightarrow> NoData | Some (fs, r) \<Rightarrow> con (mk fs))"

definition payload_of :: "u32 \<Rightarrow> u8 list \<Rightarrow> payload" where
  "payload_of c bs =
     (if c = cmd_SetDrivePolicy then DevicesEx (dec_array device_ex_layout device_ex_of_fields bs)
      else if c = cmd_SetExceptDrivePolicy then Devices (dec_array device_layout device_of_fields bs)
      else if c = cmd_SetPermitProcessName then Names (dec_array [LStr 256] name_of_fields bs)
      else if c = cmd_SetPermitFolderName then Names (dec_array [LStr 128] name_of_fields bs)
      else if c = cmd_SetPermitFileExtName then Names (dec_array [LStr 64] name_of_fields bs)
      else if c = cmd_SetCtrlMobile then one_struct (replicate 8 L64) mb_policy_of_fields MbPolicy bs
      else if c = cmd_SetMobilePermitList then one_struct [LStr 128, LStr 260] permit_of_fields Permit bs
      else if c = cmd_SetQuarantinePathExt then one_struct qt_layout qt_of_fields QtInfo bs
      else if c = cmd_SetQuarantineLimit then one_struct qt_layout qt_of_fields QtInfo bs
      else if c = cmd_SetPrintPrevent then one_struct print_layout print_of_fields PrintPolicy bs
      else if c = cmd_SetSelfProtect then one_struct protect_layout protect_of_fields SelfProtect bs
      else if c = cmd_SetProcessAccessCheck then one_struct [L64, L64] ac_of_fields ProcAC bs
      else if c = cmd_SetControlCamera then one_struct [L64, L64, L32] camera_of_fields CameraPolicy bs
      else if c = cmd_SetControlRNDIS then one_struct [L64, L64] rndis_of_fields RndisPolicy bs
      else if c = cmd_SetControlAirDrop
      then one_struct [L64, L64, L32, L32, L32, L32] airdrop_of_fields AirDropPolicy bs
      else NoData)"

text \<open>The cast of a buffer to \<open>COMMAND_MESSAGE\<close>; \<open>None\<close> when its header is not all there.\<close>

definition as_message :: "u8 list \<Rightarrow> command_message option" where
  "as_message bs =
     (if length bs < 8 then None
      else let c = of_le (take 4 (drop 4 bs))
           in Some \<lparr>Size = of_le (take 4 bs), Command = c, Data = payload_of c (drop 8 bs)\<rparr>)"

text \<open>A message as the supervisor lays it out, its size in front.\<close>

definition message_bytes :: "u32 \<Rightarrow> u8 list \<Rightarrow> u8 list" where
  "message_bytes c d = le_bytes 4 (of_nat (8 + length d) :: u32) @ le_bytes 4 c @ d"

lemma message_bytes_length [simp]: "length (message_bytes c d) = 8 + length d"
  by (simp add: message_bytes_def)

lemma as_message_bytes:
  "as_message (message_bytes c d) = Some \<lparr>Size = of_nat (8 + length d), Command = c, Data = payload_of c d\<rparr>"
  by (simp add: as_message_def message_bytes_def pkt)

lemma one_struct_enc:
  assumes "dec_fields layout (enc_fields fs @ []) = Some (fs, [])" and "mk fs = x"
  shows "one_struct layout mk con (enc_fields fs) = con x"
  using assms by (simp add: one_struct_def)

end
