(* ===== verification/SupervisorLink.thy ===== *)
theory SupervisorLink
  imports Communicator
begin

text \<open>
  The agent's side of the exchange with the supervisor: \<open>SendToPISupervisor\<close> and
  \<open>SendEventDataToPISupervisor\<close> (\<open>PIKern/KauthEventFunc.cpp\<close>), one connection for one event. The
  record \<open>link\<close> holds what the system calls of the connection return; \<open>None\<close> as in
  \<open>Communicator\<close>.
\<close>

record link =
  l_socket :: int
  l_connect :: bool
  l_writes :: "int list"
  l_reads :: "read_result list"
  l_mem :: "u8 list"

text \<open>The loop over the received packets: every one sets the answer.\<close>

fun read_answers :: "packet list \<Rightarrow> bool \<Rightarrow> u32 \<Rightarrow> (bool \<times> u32) option" where
  "read_answers [] returnValue response = Some (returnValue, response)"
| "read_answers (p # ps) returnValue response = do {
     response' \<leftarrow> get_int 0 p;
     read_answers ps True response'
   }"

text \<open>The block of calls that ends at the first failure: whether it reached its end, and the
  communicator.\<close>

definition exchange :: "link \<Rightarrow> comm \<Rightarrow> packet \<Rightarrow> (bool \<times> comm) option" where
  "exchange l comm packet =
     (case initializeTCPClient (l_socket l) comm of (ok, c1) \<Rightarrow>
        if \<not> ok then Some (False, c1)
        else case connectTCP (l_connect l) c1 of (r2, c2) \<Rightarrow>
          if r2 \<noteq> RESULT_OK then Some (False, c2)
          else do {
            (out, r3, c3) \<leftarrow> sendTCP (l_writes l) (c2\<lparr>listSend := listSend c2 @ [packet]\<rparr>);
            (if r3 \<noteq> RESULT_OK then Some (False, c3)
             else do {
               (r4, c4) \<leftarrow> recvTCP (l_reads l) c3;
               Some (r4 = RESULT_OK, c4)
             })
          })"

definition SendToPISupervisor :: "link \<Rightarrow> packet \<Rightarrow> u32 \<Rightarrow> (bool \<times> u32) option" where
  "SendToPISupervisor l packet response = do {
     (returnValue, c) \<leftarrow> exchange l
        ((new_comm (l_mem l))\<lparr>ipString := ''127.0.0.1'', tcpPort := PISUPERVISOR_PORT\<rparr>) packet;
     read_answers (listRecv c) returnValue response
   }"

text \<open>\<open>pData\<close> is the command with its size; the result is the answer stored in the
  notification, \<open>None\<close> inside for \<open>KERN_FAILURE\<close>.\<close>

definition SendEventDataToPISupervisor :: "link \<Rightarrow> u32 \<Rightarrow> u8 list \<Rightarrow> u32 option option" where
  "SendEventDataToPISupervisor l cmd pData =
     (if length pData = 0 then Some None
      else do {
        (i, packet) \<leftarrow> addBinary (Some pData) (of_nat (length pData)) (setCommand cmd CPIPacket);
        (ok, response) \<leftarrow> SendToPISupervisor l packet 0;
        Some (if ok then Some response else None)
      })"

subsection \<open>Lemmas\<close>

lemma read_answers_last:
  "read_answers ps b x = Some (b', r) \<Longrightarrow> ps \<noteq> [] \<Longrightarrow> b' \<and> get_int 0 (last ps) = Some r"
proof (induction ps arbitrary: b x)
  case Nil
  then show ?case by simp
next
  case (Cons p ps)
  from Cons.prems(1) obtain y where y: "get_int 0 p = Some y" "read_answers ps True y = Some (b', r)"
    by (auto split: bind_splits)
  then show ?case using Cons.IH [OF y(2)] by (cases "ps = []") auto
qed

lemma read_answers_Nil: "read_answers [] b x = Some (b', r) \<longleftrightarrow> b' = b \<and> r = x"
  by auto

lemma new_comm_simps [simp]:
  "listSend (new_comm m) = []" "listRecv (new_comm m) = []" "csupport (new_comm m) = support_clear"
  "remainedRecvBufSize (new_comm m) = 0" "tcpRecvBuffer (new_comm m) = m"
  by (simp_all add: new_comm_def comm_clear_def)

lemma sendTCP_listRecv: "sendTCP ws c = Some (out, r, c') \<Longrightarrow> listRecv c' = listRecv c"
  by (auto simp: sendTCP_def Let_def split: if_splits bind_splits)

lemma exchange_answers:
  "exchange l c p = Some (b, c') \<Longrightarrow> listRecv c = [] \<Longrightarrow> listRecv c' \<noteq> [] \<Longrightarrow>
     0 \<le> l_socket l \<and> l_connect l \<and> (\<exists>c0 res. recvTCP (l_reads l) c0 = Some (res, c') \<and> listRecv c0 = [])"
  by (auto simp: exchange_def initializeTCPClient_def connectTCP_def Let_def dest!: sendTCP_listRecv
      split: if_splits bind_splits) blast+

lemma addBinary_packet:
  assumes "length d < 2 ^ 30"
  shows "addBinary (Some d) (of_nat (length d)) (setCommand cmd CPIPacket) =
    Some (0, CPIPacket\<lparr>command := cmd, vectorValue := [\<lparr>vsize = of_nat (length d), vbytes = d\<rparr>]\<rparr>)"
    and "packet_ok (CPIPacket\<lparr>command := cmd, vectorValue := [\<lparr>vsize = of_nat (length d), vbytes = d\<rparr>]\<rparr>)"
  using assms unat_count [of "length d"]
  by (auto simp: addBinary_ok setCommand_def CPIPacket_def packet_ok_def value_ok_iff packet_len_def)

text \<open>The first answer of a well-formed packet.\<close>

definition answers :: "packet \<Rightarrow> u32 \<Rightarrow> bool" where
  "answers q r \<longleftrightarrow> sendable support_clear q \<and> vectorValue q \<noteq> [] \<and> vbytes (hd (vectorValue q)) = le_bytes 4 r"

lemma answers_get_int: "answers q r \<Longrightarrow> get_int 0 (received support_clear q) = Some r"
  by (intro get_int_at)
    (auto simp: answers_def received_def as_sent_def recv_support_def support_clear_def hton_def hd_conv_nth)

lemma sendTCP_one:
  "packet_ok p \<Longrightarrow> listSend c = [] \<Longrightarrow> 0 < w \<Longrightarrow>
     sendTCP (w # ws) (c\<lparr>listSend := listSend c @ [p]\<rparr>) =
       Some (take (nat w) (wire p), RESULT_OK, c\<lparr>listSend := [], tcpState := TCPSTATE_CONNECTED\<rparr>)"
  by (simp add: sendTCP_def serialize_ok)

lemma exchange_sent:
  assumes "0 \<le> l_socket l" "l_connect l" "l_writes l = w # ws" "0 < w" "packet_ok p"
  shows "\<exists>c. exchange l ((new_comm (l_mem l))\<lparr>ipString := ''127.0.0.1'', tcpPort := PISUPERVISOR_PORT\<rparr>) p =
      map_option (\<lambda>(r4, c4). (r4 = RESULT_OK, c4)) (recvTCP (l_reads l) c) \<and>
    listRecv c = [] \<and> csupport c = support_clear \<and> remainedRecvBufSize c = 0 \<and> tcpRecvBuffer c = l_mem l"
proof -
  let ?c0 = "(new_comm (l_mem l))\<lparr>ipString := ''127.0.0.1'', tcpPort := PISUPERVISOR_PORT,
     tcpFd := l_socket l, cstate := STATE_ACTIVE, tcpState := TCPSTATE_CONNECTED\<rparr>"
  let ?c = "?c0\<lparr>listSend := [], tcpState := TCPSTATE_CONNECTED\<rparr>"
  have "sendTCP (w # ws) (?c0\<lparr>listSend := listSend ?c0 @ [p]\<rparr>) = Some (take (nat w) (wire p), RESULT_OK, ?c)"
    using sendTCP_one [OF assms(5) _ assms(4), of ?c0 ws] by simp
  then have "exchange l ((new_comm (l_mem l))\<lparr>ipString := ''127.0.0.1'', tcpPort := PISUPERVISOR_PORT\<rparr>) p =
      map_option (\<lambda>(r4, c4). (r4 = RESULT_OK, c4)) (recvTCP (l_reads l) ?c)"
    using assms(1-3)
    by (auto simp: exchange_def initializeTCPClient_def connectTCP_def map_option_case split: option.split)
  then show ?thesis by (intro exI [of _ ?c]) simp
qed

lemma recvTCP_closed:
  "remainedRecvBufSize c = 0 \<Longrightarrow> recvTCP (ReadData [] # rs) c =
     Some (RESULT_OK, c\<lparr>cstate := STATE_INACTIVE, tcpState := TCPSTATE_NOTCONNECTED\<rparr>)"
  by (simp add: recvTCP_def recv_step_def recv_data_def)

subsection \<open>Properties\<close>

text \<open>The answer of the supervisor reaches the event: when the connection is made, the event is
  written and a well-formed packet whose first value is a number comes back in one read, the
  stored answer is that number.\<close>

theorem answer_delivered:
  assumes "0 \<le> l_socket l" and "l_connect l" and "l_writes l = w # ws" and "0 < w"
    and "l_reads l = ReadData (wire q) # rs" and "answers q r" and "packet_len q \<le> length (l_mem l)"
    and "pData \<noteq> []" and "length pData < 2 ^ 30"
  shows "SendEventDataToPISupervisor l cmd pData = Some (Some r)"
proof -
  let ?p = "CPIPacket\<lparr>command := cmd, vectorValue := [\<lparr>vsize = of_nat (length pData), vbytes = pData\<rparr>]\<rparr>"
  obtain c where c: "exchange l ((new_comm (l_mem l))\<lparr>ipString := ''127.0.0.1'', tcpPort := PISUPERVISOR_PORT\<rparr>) ?p =
      map_option (\<lambda>(r4, c4). (r4 = RESULT_OK, c4)) (recvTCP (l_reads l) c)"
    "listRecv c = []" "csupport c = support_clear" "remainedRecvBufSize c = 0" "tcpRecvBuffer c = l_mem l"
    using exchange_sent [OF assms(1-4) addBinary_packet(2) [OF assms(9)]] by blast
  have "recvTCP (ReadData (concat (map wire [q])) # rs) c = Some (RESULT_OK,
      c\<lparr>tcpRecvBuffer := put_at (tcpRecvBuffer c) 0 (concat (map wire [q])),
        listRecv := listRecv c @ map (received (csupport c)) [q]\<rparr>)"
    using assms(6,7) c by (intro recvTCP_packets) (simp_all add: answers_def)
  then have "SendToPISupervisor l ?p 0 = Some (True, r)"
    using c(2,3) answers_get_int [OF assms(6)]
    by (simp add: SendToPISupervisor_def c(1) assms(5))
  then show ?thesis
    using assms(8) by (simp add: SendEventDataToPISupervisor_def addBinary_packet [OF assms(9)])
qed

definition deny_packet :: packet where
  "deny_packet = CPIPacket\<lparr>vectorValue := [\<lparr>vsize = 4, vbytes = le_bytes 4 (1 :: u32)\<rparr>]\<rparr>"

definition sample_link :: link where
  "sample_link = \<lparr>l_socket = 3, l_connect = True, l_writes = [21], l_reads = [ReadData (wire deny_packet)],
     l_mem = replicate 100 0\<rparr>"

theorem answer_delivered_witness: "SendEventDataToPISupervisor sample_link 5 [1, 2] = Some (Some 1)"
  by (rule answer_delivered [of _ 21 "[]" deny_packet "[]"])
    (simp_all add: sample_link_def answers_def sendable_def deny_packet_def CPIPacket_def packet_ok_def
      value_ok_iff packet_len_def)

text \<open>C33: Where the supervisor cannot be reached there is no answer, where it closes the connection
  without one the stored answer is 0, a denial, and not a failure.\<close>

theorem silent_supervisor_denies:
  assumes "pData \<noteq> []" and "length pData < 2 ^ 30"
  shows "(l_socket l < 0 \<or> \<not> l_connect l \<longrightarrow> SendEventDataToPISupervisor l cmd pData = Some None) \<and>
    (0 \<le> l_socket l \<and> l_connect l \<and> l_writes l = w # ws \<and> 0 < w \<and> l_reads l = ReadData [] # rs \<longrightarrow>
       SendEventDataToPISupervisor l cmd pData = Some (Some 0))"
proof (intro conjI impI)
  assume "l_socket l < 0 \<or> \<not> l_connect l"
  then show "SendEventDataToPISupervisor l cmd pData = Some None"
    using assms by (auto simp: SendEventDataToPISupervisor_def SendToPISupervisor_def exchange_def
        initializeTCPClient_def connectTCP_def addBinary_packet [OF assms(2)] Let_def)
next
  assume h: "0 \<le> l_socket l \<and> l_connect l \<and> l_writes l = w # ws \<and> 0 < w \<and> l_reads l = ReadData [] # rs"
  let ?p = "CPIPacket\<lparr>command := cmd, vectorValue := [\<lparr>vsize = of_nat (length pData), vbytes = pData\<rparr>]\<rparr>"
  obtain c where c: "exchange l ((new_comm (l_mem l))\<lparr>ipString := ''127.0.0.1'', tcpPort := PISUPERVISOR_PORT\<rparr>) ?p =
      map_option (\<lambda>(r4, c4). (r4 = RESULT_OK, c4)) (recvTCP (l_reads l) c)"
    "listRecv c = []" "remainedRecvBufSize c = 0"
    using exchange_sent [OF _ _ _ _ addBinary_packet(2) [OF assms(2)], of l w ws] h by blast
  then show "SendEventDataToPISupervisor l cmd pData = Some (Some 0)"
    using assms(1) h by (simp add: SendEventDataToPISupervisor_def SendToPISupervisor_def
        addBinary_packet [OF assms(2)] recvTCP_closed)
qed

theorem silent_supervisor_denies_witness:
  "SendEventDataToPISupervisor (sample_link\<lparr>l_connect := False\<rparr>) 5 [1] = Some None \<and>
   SendEventDataToPISupervisor (sample_link\<lparr>l_reads := [ReadData []]\<rparr>) 5 [1] = Some (Some 0)"
  using silent_supervisor_denies [of "[1]" "sample_link\<lparr>l_connect := False\<rparr>" 5]
    silent_supervisor_denies [of "[1]" "sample_link\<lparr>l_reads := [ReadData []]\<rparr>" 5 21 "[]" "[]"]
  by (simp add: sample_link_def)

text \<open>C34: An answer other than 0 is the last one a packet on the connection carried: no failure on
  the way can turn into a permission.\<close>

theorem allowed_only_if_answered:
  assumes "SendEventDataToPISupervisor l cmd pData = Some (Some r)" and "r \<noteq> 0"
  shows "0 \<le> l_socket l \<and> l_connect l \<and>
    (\<exists>c res c'. recvTCP (l_reads l) c = Some (res, c') \<and> listRecv c = [] \<and> listRecv c' \<noteq> [] \<and>
       get_int 0 (last (listRecv c')) = Some r)"
proof -
  from assms(1) obtain p where "SendToPISupervisor l p 0 = Some (True, r)"
    by (auto simp: SendEventDataToPISupervisor_def split: if_splits bind_splits prod.splits)
  then obtain b c where e: "exchange l ((new_comm (l_mem l))\<lparr>ipString := ''127.0.0.1'',
      tcpPort := PISUPERVISOR_PORT\<rparr>) p = Some (b, c)" and a: "read_answers (listRecv c) b 0 = Some (True, r)"
    by (auto simp: SendToPISupervisor_def split: bind_splits prod.splits)
  have n: "listRecv c \<noteq> []" using a assms(2) by auto
  from exchange_answers [OF e _ n] read_answers_last [OF a n] n show ?thesis by auto
qed

theorem allowed_only_if_answered_witness:
  "\<exists>c res c'. recvTCP (l_reads sample_link) c = Some (res, c') \<and> listRecv c = [] \<and> listRecv c' \<noteq> [] \<and>
       get_int 0 (last (listRecv c')) = Some 1"
  using allowed_only_if_answered [of sample_link 5 "[1, 2]" 1]
    answer_delivered [of sample_link 21 "[]" deny_packet "[]" 1 "[1, 2]" 5]
  by (simp add: sample_link_def answers_def sendable_def deny_packet_def CPIPacket_def packet_ok_def
      value_ok_iff packet_len_def)

end
