(* ===== verification/KextLife.thy ===== *)
theory KextLife
  imports SmartCmd
begin

text \<open>
  Starting and stopping the agent: the \<open>*_Init\<close> and \<open>*_Uninit\<close> routines of
  \<open>PIKern/SmartCmd.cpp\<close> and \<open>DrvKext_Init\<close>, \<open>DrvKext_Uninit\<close> of \<open>PIKern/PISecSmartDrv.c\<close>. The
  locks are not part of the state; the arguments of type \<open>bool\<close> say whether the calls of
  \<open>pthread_mutex_init\<close> succeed, in their order.
\<close>

definition zero_print :: print_policy where
  "zero_print = \<lparr>pp_bPolicy = 0, pp_nPolicyType = 0, pp_bWatermark = 0, pp_bLoggingOn = 0,
     pp_bDisableAll = 0, pp_bDisableRead = 0, pp_bDisableWrite = 0, pp_nReserved1 = 0,
     pp_czDeviceName = []\<rparr>"

definition zero_upload :: upload_policy where
  "zero_upload = \<lparr>up_bPolicy = 0, up_nPolicyType = 0, up_bLoggingOn = 0, up_bDisableWrite = 0,
     up_nReserved1 = 0\<rparr>"

definition zero_mobile :: mobile_ctx where
  "zero_mobile = \<lparr>mb_Policy = \<lparr>bMtpLog = 0, bMtpBlock = 0, bPtpLog = 0, bPtpBlock = 0,
     bAndroidLog = 0, bAndroidBlock = 0, bAppleLog = 0, bAppleBlock = 0\<rparr>,
     pNewMBNodes = replicate MB_NODE_COUNT None,
     pNewPermitList = replicate USBMOBILE_PERMIT_COUNT None\<rparr>"

definition zero_drv :: drv_ctx where
  "zero_drv = \<lparr>Policy = \<lparr>pol_nCount = 0, pol_DeviceEx = replicate MAX_POLICY zero_device_ex\<rparr>,
     Except = \<lparr>ex_nCount = 0, ex_DriveEx = replicate MAX_DEVICE zero_device_ex\<rparr>\<rparr>"

definition zero_vols :: volume_ctx where
  "zero_vols = \<lparr>vol_nCount = 0, VolumeDevice = replicate MAX_DEVICE zero_volume\<rparr>"

definition zero_media :: media_ctx where
  "zero_media = \<lparr>Bth = \<lparr>bBluetoothLog = 0, bBluetoothBlock = 0, bSelectedBluetoothBlock = 0\<rparr>,
     Camera = \<lparr>bCameraLog = 0, bCameraBlock = 0, cam_nReserved = 0\<rparr>,
     Rndis = \<lparr>bRNdisLog = 0, bRNdisBlock = 0\<rparr>,
     AirDrop = \<lparr>bAirDropLog = 0, bAirDropBlock = 0, ad_nReserved0 = 0, ad_nReserved1 = 0,
       ad_nReserved2 = 0, ad_nReserved3 = 0\<rparr>\<rparr>"

text \<open>\<open>memset (&g_DrvKext, 0, ...)\<close>.\<close>

definition kext_zero :: drv_kext where
  "kext_zero = kext_boot\<lparr>QtCtx := (QtCtx kext_boot)\<lparr>bQtLimit := 0\<rparr>\<rparr>"

definition lock_result :: "bool list \<Rightarrow> int" where
  "lock_result oks = (if list_all id oks then KERN_SUCCESS else KERN_FAILURE)"

definition DrvPrintCtx_Init :: "bool \<Rightarrow> bool \<Rightarrow> drv_kext \<Rightarrow> int \<times> drv_kext" where
  "DrvPrintCtx_Init m1 m2 k = (lock_result [m1, m2], k\<lparr>PrintCtx := zero_print\<rparr>)"

definition DrvPrintCtx_Uninit :: "drv_kext \<Rightarrow> int \<times> drv_kext" where
  "DrvPrintCtx_Uninit k = (0, k)"

definition DrvUploadCtx_Init :: "bool \<Rightarrow> bool \<Rightarrow> bool \<Rightarrow> bool \<Rightarrow> drv_kext \<Rightarrow> int \<times> drv_kext" where
  "DrvUploadCtx_Init m1 m2 m3 m4 k = (lock_result [m1, m2, m3, m4], k\<lparr>UploadCtx := zero_upload\<rparr>)"

definition DrvUploadCtx_Uninit :: "drv_kext \<Rightarrow> int \<times> drv_kext" where
  "DrvUploadCtx_Uninit k = (0, k)"

definition DrvMobile_Init :: "bool \<Rightarrow> bool \<Rightarrow> drv_kext \<Rightarrow> int \<times> drv_kext" where
  "DrvMobile_Init m1 m2 k = (lock_result [m1, m2], k\<lparr>MobileCtx := zero_mobile\<rparr>)"

definition DrvMobile_Uninit :: "drv_kext \<Rightarrow> int \<times> drv_kext" where
  "DrvMobile_Uninit k =
     (KERN_SUCCESS, (USBMobilePermitList_RemoveAll (MobileNode_RemoveAll k))\<lparr>MobileCtx := zero_mobile\<rparr>)"

definition DrvCtx_Init :: "bool \<Rightarrow> bool \<Rightarrow> bool \<Rightarrow> bool \<Rightarrow> drv_kext \<Rightarrow> int \<times> drv_kext" where
  "DrvCtx_Init m1 m2 m3 m4 k =
     (lock_result [m1, m2, m3, m4], k\<lparr>DrvCtx := zero_drv, VolCtx := zero_vols\<rparr>)"

definition DrvCtx_Uninit :: "drv_kext \<Rightarrow> int \<times> drv_kext" where
  "DrvCtx_Uninit k = (KERN_SUCCESS, k\<lparr>DrvCtx := zero_drv\<rparr>)"

text \<open>\<open>locks\<close> holds the twelve lock results in the order of the calls.\<close>

definition DrvKext_Init :: "(nat \<Rightarrow> bool) \<Rightarrow> drv_kext \<Rightarrow> int \<times> drv_kext" where
  "DrvKext_Init locks k =
     (let k0 = kext_zero;
          k1 = snd (DrvCtx_Init (locks 0) (locks 1) (locks 2) (locks 3) k0);
          k2 = snd (DrvMobile_Init (locks 4) (locks 5) k1);
          k3 = snd (DrvPrintCtx_Init (locks 6) (locks 7) k2);
          k4 = snd (DrvUploadCtx_Init (locks 8) (locks 9) (locks 10) (locks 11) k3);
          k5 = k4\<lparr>QtCtx := (QtCtx k4)\<lparr>bQtLimit := 1\<rparr>, ProcCtx := \<lparr>ac_bLog = 0, bProcAC = 0\<rparr>,
                 MediaCtx := zero_media\<rparr>
      in (KERN_SUCCESS, k5))"

definition DrvKext_Uninit :: "drv_kext \<Rightarrow> int \<times> drv_kext" where
  "DrvKext_Uninit k =
     (let k1 = k\<lparr>MediaCtx := zero_media, ProcCtx := \<lparr>ac_bLog = 0, bProcAC = 0\<rparr>\<rparr>;
          k2 = snd (DrvPrintCtx_Uninit k1);
          k3 = snd (DrvMobile_Uninit k2);
          k4 = snd (DrvCtx_Uninit k3);
          k5 = kext_zero
      in (KERN_SUCCESS, k5\<lparr>QtCtx := (QtCtx k5)\<lparr>bQtLimit := 1\<rparr>\<rparr>))"

lemmas life_defs = kext_zero_def kext_boot_def zero_print_def zero_upload_def zero_mobile_def
  zero_drv_def zero_vols_def zero_media_def

lemma DrvKext_Init_eq: "DrvKext_Init locks k = (KERN_SUCCESS, kext_boot)"
  by (simp add: DrvKext_Init_def DrvCtx_Init_def DrvMobile_Init_def DrvPrintCtx_Init_def
      DrvUploadCtx_Init_def life_defs)

lemma DrvKext_Uninit_eq: "DrvKext_Uninit k = (KERN_SUCCESS, kext_boot)"
  by (simp add: DrvKext_Uninit_def life_defs)

end
