(* ===== verification/AgentServer.thy ===== *)
theory AgentServer
  imports StructCodec SupervisorLink KextLife
begin

text \<open>
  The agent's side of the policy link: \<open>CPIActionSupervisorIPC\<close>
  (\<open>PIKern/PIActionSupervisorIPC.cpp\<close>), a server whose clients send command messages in packets
  and get the result code of the handler back. System calls are arguments: the record \<open>client_io\<close>
  holds what they return for one client in one pass. \<open>None\<close> as in \<open>Communicator\<close>.
\<close>

datatype srv_state = SRV_WAIT | SRV_SIG

record server =
  serverFd :: int
  isContinue :: bool
  stateClient :: srv_state
  runningServerThread :: bool
  runningClientThread :: bool
  srvInit :: bool
  client :: "comm list"

definition srv_clear :: "server \<Rightarrow> server" where
  "srv_clear s = s\<lparr>serverFd := -1, isContinue := True, runningServerThread := False,
     runningClientThread := False, srvInit := False\<rparr>"

subsection \<open>Starting\<close>

record srv_calls =
  c_socket :: int
  c_reuse :: bool
  c_rcvbuf :: bool
  c_sndbuf :: bool
  c_bind :: bool
  c_listen :: bool

text \<open>The socket stays open on the error paths.\<close>

definition initializeTCP :: "srv_calls \<Rightarrow> server \<Rightarrow> bool \<times> server" where
  "initializeTCP e s =
     (let s1 = s\<lparr>serverFd := c_socket e\<rparr> in
      if c_socket e < 0 then (False, s1)
      else if \<not> c_reuse e then (False, s1)
      else if \<not> c_rcvbuf e then (False, s1)
      else if \<not> c_sndbuf e then (False, s1)
      else if \<not> c_bind e then (False, s1)
      else if \<not> c_listen e then (False, s1)
      else (True, s1))"

text \<open>The result of \<open>initializeTCP\<close> is not looked at.\<close>

definition srv_initialize :: "srv_calls \<Rightarrow> server \<Rightarrow> bool \<times> server" where
  "srv_initialize e s =
     (if srvInit s then (True, s)
      else (True, (snd (initializeTCP e (s\<lparr>stateClient := SRV_WAIT, isContinue := True\<rparr>)))\<lparr>srvInit := True\<rparr>))"

text \<open>One turn of the accepting thread: \<open>Inl\<close> when it ends. \<open>sel\<close> is the result of \<open>select\<close>, not
  interrupted; \<open>fd\<close> that of \<open>accept\<close>; \<open>mem\<close> the contents of the new receive buffer.\<close>

definition accept_client :: "int \<Rightarrow> int \<Rightarrow> u8 list \<Rightarrow> server \<Rightarrow> server + server" where
  "accept_client sel fd mem s =
     (if sel = -1 then Inl (s\<lparr>runningServerThread := False\<rparr>)
      else if sel = 0 then Inr s
      else if fd < 0 then Inl (s\<lparr>runningServerThread := False\<rparr>)
      else Inr (s\<lparr>stateClient := SRV_SIG, client := client s @
        [(new_comm mem)\<lparr>tcpFd := fd, cstate := STATE_ACTIVE, tcpState := TCPSTATE_CONNECTED\<rparr>]\<rparr>))"

subsection \<open>One request\<close>

text \<open>The result code and the result string, which stays empty.\<close>

definition processPacket :: "bool \<Rightarrow> packet \<Rightarrow> drv_kext \<Rightarrow> (int \<times> string \<times> drv_kext) option" where
  "processPacket mem p k =
     (case getBinary 0 p of
        None \<Rightarrow> Some (0, '''', k)
      | Some bs \<Rightarrow>
          if length bs < 8 then None
          else do { (r, k') \<leftarrow> SmartCmd_Parser_CM mem (as_message bs) k; Some (r, '''', k') })"

definition sendResponse :: "int list \<Rightarrow> comm \<Rightarrow> u32 \<Rightarrow> int \<Rightarrow> string \<Rightarrow> (u8 list \<times> comm) option" where
  "sendResponse ws c cmd code val =
     do {
       let p0 = setCommand cmd (CPIPacket\<lparr>psupport := (psupport CPIPacket)\<lparr>unsignedType := False\<rparr>\<rparr>);
       (i, p1) \<leftarrow> add_int (word_of_int code) p0;
       p2 \<leftarrow> (if 0 < length val then map_option snd (add_string val p1) else Some p1);
       (out, r, c') \<leftarrow> sendTCP ws (c\<lparr>listSend := listSend c @ [p2]\<rparr>);
       Some (out, c')
     }"

definition parseClientPacket :: "bool \<Rightarrow> int list \<Rightarrow> packet \<Rightarrow> comm \<Rightarrow> drv_kext
    \<Rightarrow> (u8 list \<times> comm \<times> drv_kext) option" where
  "parseClientPacket mem ws p c k = do {
     (code, val, k') \<leftarrow> processPacket mem p k;
     (out, c') \<leftarrow> sendResponse ws c (command p) code val;
     Some (out, c', k')
   }"

subsection \<open>One pass over the clients\<close>

record client_io =
  io_select :: int
  io_reads :: "read_result list"
  io_writes :: "int list list"

text \<open>Every received packet is handled, answered and erased.\<close>

fun serve_packets :: "bool \<Rightarrow> int list list \<Rightarrow> packet list \<Rightarrow> comm \<Rightarrow> drv_kext
    \<Rightarrow> (u8 list \<times> comm \<times> drv_kext) option" where
  "serve_packets mem wss [] c k = Some ([], c\<lparr>listRecv := []\<rparr>, k)"
| "serve_packets mem [] (p # ps) c k = None"
| "serve_packets mem (ws # wss) (p # ps) c k = do {
     (out, c1, k1) \<leftarrow> parseClientPacket mem ws p c k;
     (outs, c2, k2) \<leftarrow> serve_packets mem wss ps c1 k1;
     Some (out @ outs, c2, k2)
   }"

text \<open>A client that has gone is dropped (\<open>None\<close> for it).\<close>

definition serve_client :: "bool \<Rightarrow> client_io \<Rightarrow> comm \<Rightarrow> drv_kext
    \<Rightarrow> (u8 list \<times> comm option \<times> drv_kext) option" where
  "serve_client mem io c k =
     (case selectTCP (io_select io) c of (st, c1) \<Rightarrow>
        if tcpState c1 = TCPSTATE_NOTCONNECTED then Some ([], None, k)
        else if tcpState c1 = TCPSTATE_ONRECV then do {
          (r, c2) \<leftarrow> recvTCP (io_reads io) c1;
          (out, c3, k') \<leftarrow> serve_packets mem (io_writes io) (listRecv c2) c2 k;
          Some (out, Some c3, k')
        }
        else Some ([], Some c1, k))"

text \<open>\<open>kept\<close> holds the clients the iterator has passed.\<close>

fun serve_loop :: "bool \<Rightarrow> client_io list \<Rightarrow> comm list \<Rightarrow> comm list \<Rightarrow> srv_state \<Rightarrow> drv_kext
    \<Rightarrow> (u8 list list \<times> comm list \<times> srv_state \<times> drv_kext) option" where
  "serve_loop mem ios kept [] st k = Some ([], kept, st, k)"
| "serve_loop mem [] kept (c # cs) st k = None"
| "serve_loop mem (io # ios) kept (c # cs) st k = do {
     (out, c', k') \<leftarrow> serve_client mem io c k;
     (outs, kept', st', k'') \<leftarrow>
       (case c' of
          None \<Rightarrow> serve_loop mem ios kept cs (if kept = [] \<and> cs = [] then SRV_WAIT else st) k'
        | Some x \<Rightarrow> serve_loop mem ios (kept @ [x]) cs st k');
     Some (out # outs, kept', st', k'')
   }"

definition communicate :: "bool \<Rightarrow> client_io list \<Rightarrow> server \<Rightarrow> drv_kext
    \<Rightarrow> (u8 list list \<times> server \<times> drv_kext) option" where
  "communicate mem ios s k =
     (if stateClient s \<noteq> SRV_SIG then None
      else if \<not> isContinue s then Some ([], s\<lparr>runningClientThread := False\<rparr>, k)
      else do {
        (outs, cs, st, k') \<leftarrow> serve_loop mem ios [] (client s) (stateClient s) k;
        Some (outs, s\<lparr>client := cs, stateClient := st\<rparr>, k')
      })"

subsection \<open>Stopping\<close>

text \<open>\<open>clearClient\<close> deletes the client its iterator points to and does not move the iterator.
  \<open>live\<close> says which clients are not deleted yet; deleting one twice is undefined.\<close>

partial_function (option) clear_loop :: "nat \<Rightarrow> bool list \<Rightarrow> bool list option" where
  "clear_loop i live =
     (if length live \<le> i then Some live
      else if \<not> live ! i then None
      else clear_loop i (live[i := False]))"

definition clearClient :: "server \<Rightarrow> server option" where
  "clearClient s =
     (if 0 < length (client s) then do {
        live \<leftarrow> clear_loop 0 (replicate (length (client s)) True);
        Some (s\<lparr>client := []\<rparr>)
      } else Some s)"

definition srv_finalize :: "server \<Rightarrow> server option" where
  "srv_finalize s = do {
     s1 \<leftarrow> clearClient ((srv_clear s)\<lparr>serverFd := -1\<rparr>);
     Some (s1\<lparr>srvInit := False\<rparr>)
   }"

definition srv_stop :: "server \<Rightarrow> server option" where
  "srv_stop s = srv_finalize (s\<lparr>isContinue := False, serverFd := -1, stateClient := SRV_SIG\<rparr>)"

lemmas srv_defs = srv_clear_def clearClient_def srv_finalize_def srv_stop_def

subsection \<open>The server as a sequence of commands\<close>

text \<open>The handlers run on the messages one after the other.\<close>

fun run_messages :: "bool \<Rightarrow> u8 list list \<Rightarrow> drv_kext \<Rightarrow> (int list \<times> drv_kext) option" where
  "run_messages mem [] k = Some ([], k)"
| "run_messages mem (m # ms) k = do {
     (r, k1) \<leftarrow> SmartCmd_Parser_CM mem (as_message m) k;
     (rs, k2) \<leftarrow> run_messages mem ms k1;
     Some (r # rs, k2)
   }"

definition request :: "u32 \<times> u8 list \<Rightarrow> packet" where
  "request r = CPIPacket\<lparr>command := fst r,
     vectorValue := [\<lparr>vsize = of_nat (length (snd r)), vbytes = snd r\<rparr>]\<rparr>"

definition reply :: "u32 \<Rightarrow> int \<Rightarrow> packet" where
  "reply cmd code = CPIPacket\<lparr>command := cmd, psupport := support_clear\<lparr>unsignedType := False\<rparr>,
     vectorValue := [\<lparr>vsize = 4, vbytes = le_bytes 4 (word_of_int code :: u32)\<rparr>]\<rparr>"

definition request_ok :: "u32 \<times> u8 list \<Rightarrow> bool" where
  "request_ok r \<longleftrightarrow> 8 \<le> length (snd r) \<and> length (snd r) < 2 ^ 30"

lemma request_sendable: "request_ok r \<Longrightarrow> \<not> bigEndian s \<Longrightarrow> sendable s (request r)"
  using addBinary_packet(2) [of "snd r" "fst r"]
  by (simp add: request_ok_def request_def sendable_def CPIPacket_def support_clear_def)

lemma reply_len: "packet_len (reply cmd code) = 28"
  by (simp add: reply_def packet_len_def)

lemma reply_ok: "packet_ok (reply cmd code)"
  using reply_len [of cmd code] by (simp add: packet_ok_def reply_def value_ok_iff)

lemma processPacket_request:
  assumes "request_ok r"
  shows "processPacket mem (received s (request r)) k =
    map_option (\<lambda>(c, k'). (c, '''', k')) (SmartCmd_Parser_CM mem (as_message (snd r)) k)"
proof -
  have "getBinary 0 (received s (request r)) = Some (snd r)"
    using assms by (intro getBinary_at) (auto simp: request_ok_def received_def as_sent_def request_def)
  then show ?thesis using assms
    by (simp add: processPacket_def request_ok_def map_option_case split: option.split)
qed

lemma sendResponse_reply:
  assumes "listSend c = []"
  shows "sendResponse [28] c cmd code '''' =
    Some (wire (reply cmd code), c\<lparr>listSend := [], tcpState := TCPSTATE_CONNECTED\<rparr>)"
proof -
  let ?q = "setCommand cmd (CPIPacket\<lparr>psupport := (psupport CPIPacket)\<lparr>unsignedType := False\<rparr>\<rparr>)"
  have "map_option snd (add_int (word_of_int code) ?q) = Some (reply cmd code)"
    by (simp add: add_int_eq setCommand_def CPIPacket_def reply_def support_clear_def hton_def)
  then obtain i where i: "add_int (word_of_int code) ?q = Some (i, reply cmd code)" by auto
  have "sendTCP [28] (c\<lparr>listSend := [reply cmd code]\<rparr>) =
      Some (wire (reply cmd code), RESULT_OK, c\<lparr>listSend := [], tcpState := TCPSTATE_CONNECTED\<rparr>)"
    by (simp add: sendTCP_def Let_def serialize_ok reply_ok flip: reply_len [of cmd code])
  then show ?thesis using assms by (simp add: sendResponse_def Let_def i)
qed

lemma serve_packets_requests:
  assumes "\<forall>r \<in> set rs. request_ok r" and "listSend c = []"
    and "run_messages mem (map snd rs) k = Some (codes, k')" and "tcpState c \<noteq> TCPSTATE_NOTCONNECTED"
  shows "\<exists>c'. serve_packets mem (replicate (length rs) [28]) (map (\<lambda>r. received s (request r)) rs) c k =
      Some (concat (map2 (\<lambda>r code. wire (reply (fst r) code)) rs codes), c', k') \<and>
    listSend c' = [] \<and> listRecv c' = [] \<and> tcpState c' \<noteq> TCPSTATE_NOTCONNECTED"
  using assms
proof (induction rs arbitrary: c k codes)
  case Nil
  then show ?case by simp
next
  case (Cons r rs)
  obtain x k1 xs where x: "SmartCmd_Parser_CM mem (as_message (snd r)) k = Some (x, k1)"
      "run_messages mem (map snd rs) k1 = Some (xs, k')" "codes = x # xs"
    using Cons.prems(3) by (auto split: bind_splits)
  let ?c = "c\<lparr>listSend := [], tcpState := TCPSTATE_CONNECTED\<rparr>"
  have cmd: "command (received s (request r)) = fst r"
    by (simp add: received_def as_sent_def request_def)
  have "parseClientPacket mem [28] (received s (request r)) c k = Some (wire (reply (fst r) x), ?c, k1)"
    using Cons.prems(1,2) x(1)
    by (simp add: parseClientPacket_def processPacket_request sendResponse_reply cmd)
  moreover obtain c' where "serve_packets mem (replicate (length rs) [28])
      (map (\<lambda>r. received s (request r)) rs) ?c k1 =
      Some (concat (map2 (\<lambda>r code. wire (reply (fst r) code)) rs xs), c', k')"
      "listSend c' = []" "listRecv c' = []" "tcpState c' \<noteq> TCPSTATE_NOTCONNECTED"
    using Cons.IH [of ?c k1 xs] Cons.prems x by auto
  ultimately show ?case by (simp add: x(3))
qed

lemma run_messages_length: "run_messages mem ms k = Some (codes, k') \<Longrightarrow> length codes = length ms"
  by (induction ms arbitrary: k codes) (auto split: bind_splits)

lemma serve_client_requests:
  assumes "\<forall>r \<in> set rs. request_ok r" and "rs \<noteq> []" and "\<not> bigEndian (csupport c)"
    and "tcpState c \<noteq> TCPSTATE_NOTCONNECTED" and "listSend c = []" and "listRecv c = []"
    and "remainedRecvBufSize c = 0"
    and "sum_list (map (packet_len \<circ> request) rs) \<le> length (tcpRecvBuffer c)"
    and "run_messages mem (map snd rs) k = Some (codes, k')"
  shows "\<exists>c'. serve_client mem \<lparr>io_select = 1, io_reads = [ReadData (concat (map (wire \<circ> request) rs))],
        io_writes = replicate (length rs) [28]\<rparr> c k =
      Some (concat (map2 (\<lambda>r code. wire (reply (fst r) code)) rs codes), Some c', k') \<and>
    listSend c' = [] \<and> listRecv c' = [] \<and> tcpState c' \<noteq> TCPSTATE_NOTCONNECTED"
proof -
  let ?c = "c\<lparr>tcpState := TCPSTATE_ONRECV\<rparr>" and ?ps = "map request rs"
  let ?d = "concat (map wire ?ps)"
  let ?c2 = "?c\<lparr>tcpRecvBuffer := put_at (tcpRecvBuffer ?c) 0 ?d,
    listRecv := listRecv ?c @ map (received (csupport ?c)) ?ps\<rparr>"
  have "\<forall>p \<in> set ?ps. sendable (csupport ?c) p" using assms(1,3) by (simp add: request_sendable)
  moreover have "length ?d \<le> length (tcpRecvBuffer ?c)"
    using assms(8) by (simp add: length_concat comp_def)
  ultimately have r: "recvTCP [ReadData ?d] ?c = Some (RESULT_OK, ?c2)"
    using assms(2,7) by (intro recvTCP_packets) simp_all
  have sel: "selectTCP 1 c = (TCPSTATE_ONRECV, ?c)" using assms(4) by (simp add: selectTCP_def Let_def)
  obtain c' where "serve_packets mem (replicate (length rs) [28])
      (map (\<lambda>r. received (csupport c) (request r)) rs) ?c2 k =
      Some (concat (map2 (\<lambda>r code. wire (reply (fst r) code)) rs codes), c', k')"
    "listSend c' = []" "listRecv c' = []" "tcpState c' \<noteq> TCPSTATE_NOTCONNECTED"
    using serve_packets_requests [OF assms(1) _ assms(9), of ?c2 "csupport c"] assms(5) by auto
  then show ?thesis using assms(6) r by (simp add: serve_client_def sel comp_def)
qed

subsection \<open>Properties\<close>

text \<open>C2: A client that sends whole commands in one burst is served as the agent's handlers run on
  its messages, in order: the agent ends in the state they leave, every command is answered with
  its own number and its handler's result code, and nothing stays queued. So the server refines
  the handlers.\<close>

theorem commands_refine_agent:
  assumes "\<forall>r \<in> set rs. request_ok r" and "rs \<noteq> []" and "\<not> bigEndian (csupport c)"
    and "tcpState c \<noteq> TCPSTATE_NOTCONNECTED" and "listSend c = []" and "listRecv c = []"
    and "remainedRecvBufSize c = 0"
    and "sum_list (map (packet_len \<circ> request) rs) \<le> length (tcpRecvBuffer c)"
    and "run_messages mem (map snd rs) k = Some (codes, k')"
  shows "\<exists>c'. serve_client mem \<lparr>io_select = 1, io_reads = [ReadData (concat (map (wire \<circ> request) rs))],
        io_writes = replicate (length rs) [28]\<rparr> c k =
      Some (concat (map2 (\<lambda>r code. wire (reply (fst r) code)) rs codes), Some c', k') \<and>
    listSend c' = [] \<and> listRecv c' = [] \<and> tcpState c' \<noteq> TCPSTATE_NOTCONNECTED"
  using assms by (rule serve_client_requests)

definition clear_request :: "u32 \<times> u8 list" where
  "clear_request = (cmd_ClrMobilePermitList, message_bytes cmd_ClrMobilePermitList [])"

definition sample_client :: comm where
  "sample_client = (new_comm (replicate 100 0))\<lparr>tcpFd := 5, cstate := STATE_ACTIVE, tcpState := TCPSTATE_CONNECTED\<rparr>"

lemma clear_request_run:
  "SmartCmd_Parser_CM mem (as_message (snd clear_request)) k = Some (0, USBMobilePermitList_RemoveAll k)"
  by (simp add: clear_request_def as_message_bytes SmartCmd_Parser_CM_def SmartCmd_ClrMobilePermitList_def
      bad_message_def cmd_defs)

theorem commands_refine_agent_witness:
  "\<exists>c'. serve_client True \<lparr>io_select = 1, io_reads = [ReadData (wire (request clear_request) @ wire (request clear_request))],
        io_writes = [[28], [28]]\<rparr> sample_client kext_boot =
      Some (wire (reply cmd_ClrMobilePermitList 0) @ wire (reply cmd_ClrMobilePermitList 0), Some c',
        USBMobilePermitList_RemoveAll (USBMobilePermitList_RemoveAll kext_boot)) \<and>
    listSend c' = [] \<and> listRecv c' = [] \<and> tcpState c' \<noteq> TCPSTATE_NOTCONNECTED"
proof -
  have "request_ok clear_request" "packet_len (request clear_request) = 32" "fst clear_request = cmd_ClrMobilePermitList"
    by (simp_all add: request_ok_def clear_request_def packet_len_def request_def)
  then show ?thesis
    using commands_refine_agent [of "[clear_request, clear_request]" sample_client True kext_boot "[0, 0]"
        "USBMobilePermitList_RemoveAll (USBMobilePermitList_RemoveAll kext_boot)"]
    by (simp add: sample_client_def clear_request_run support_clear_def numeral_2_eq_2)
qed

lemma clear_loop_end: "length live \<le> i \<Longrightarrow> clear_loop i live = Some live"
  by (subst clear_loop.simps) simp

lemma clear_loop_stuck: "i < length live \<Longrightarrow> clear_loop i live = None"
  by (subst clear_loop.simps, subst clear_loop.simps) simp


end
