(* ===== verification/PolicyLink.thy ===== *)
theory PolicyLink
  imports AgentServer Utility
begin

text \<open>
  The supervisor's side of the policy link, \<open>PISupervisor/apple/src\<close>: \<open>CESFControl\<close> sends one
  command message over a connection of its own, \<open>CESFManager\<close> lays the messages out, \<open>CPIESFStub\<close>
  is what the device manager calls. The files are under \<open>apple\<close> and are what a Linux build uses.
  The record \<open>esf\<close> holds the id of the control channel, the result the stub keeps, what the
  system calls of the next connections return, and what was written on the wire so far, a
  connection after the other. \<open>esf_cfg\<close> holds the configuration, whether \<open>malloc\<close> succeeds,
  \<open>errno\<close>, what fresh memory contains and the output of \<open>ps\<close>. \<open>None\<close> as in \<open>Communicator\<close>.
\<close>

record esf_cfg =
  cfg_support :: packet_support
  cfg_mem :: bool
  cfg_errno :: int
  cfg_fresh :: "nat \<Rightarrow> u8 list"
  cfg_ps :: string

record esf =
  m_nESFCtlId :: u32
  esf_result :: int
  esf_links :: "link list"
  esf_wire :: "u8 list list"

definition PIESF_PORT :: nat where "PIESF_PORT = 7791"

subsection \<open>One command\<close>

text \<open>The block of calls that ends at the first failure: whether it reached its end, the
  communicator, and the bytes written.\<close>

definition esf_exchange :: "link \<Rightarrow> comm \<Rightarrow> packet \<Rightarrow> (bool \<times> comm \<times> u8 list) option" where
  "esf_exchange l comm packet =
     (case initializeTCPClient (l_socket l) comm of (ok, c1) \<Rightarrow>
        if \<not> ok then Some (False, c1, [])
        else case connectTCP (l_connect l) c1 of (r2, c2) \<Rightarrow>
          if r2 \<noteq> RESULT_OK then Some (False, c2, [])
          else do {
            (out, r3, c3) \<leftarrow> sendTCP (l_writes l) (c2\<lparr>listSend := listSend c2 @ [packet]\<rparr>);
            (if r3 \<noteq> RESULT_OK then Some (False, c3, out)
             else do {
               (r4, c4) \<leftarrow> recvTCP (l_reads l) c3;
               Some (r4 = RESULT_OK, c4, out)
             })
          })"

fun last_response :: "packet list \<Rightarrow> u32 \<Rightarrow> u32 option" where
  "last_response [] response = Some response"
| "last_response (p # ps) response = do { r \<leftarrow> get_int 0 p; last_response ps r }"

definition sendToPIESF :: "packet_support \<Rightarrow> link \<Rightarrow> packet \<Rightarrow> u32 \<Rightarrow> (bool \<times> u32 \<times> u8 list) option" where
  "sendToPIESF cs l packet response = do {
     (returnValue, c, out) \<leftarrow> esf_exchange l
        ((new_comm (l_mem l))\<lparr>csupport := support_clear\<lparr>bigEndian := bigEndian cs\<rparr>,
          ipString := ''127.0.0.1'', tcpPort := PIESF_PORT\<rparr>) packet;
     response' \<leftarrow> last_response (listRecv c) response;
     Some (returnValue, response', out)
   }"

text \<open>The command number and the size are read out of the message. The response is only
  logged; the value returned is whether the exchange succeeded, 1 or 0.\<close>

definition SendCommand_ESFCtl :: "esf_cfg \<Rightarrow> u8 list option \<Rightarrow> esf \<Rightarrow> (int \<times> esf) option" where
  "SendCommand_ESFCtl cfg pCmdMsg s =
     (case pCmdMsg of None \<Rightarrow> Some (-1, s)
      | Some m \<Rightarrow>
          if length m < 8 then None
          else case esf_links s of [] \<Rightarrow> None
          | l # ls \<Rightarrow> do {
              let cmd = of_le (take 4 (drop 4 m));
              let sz = of_le (take 4 m);
              (i, packet) \<leftarrow> addBinary (Some m) sz (setCommand cmd (CPIPacket\<lparr>psupport := cfg_support cfg\<rparr>));
              (ok, response, out) \<leftarrow> sendToPIESF (cfg_support cfg) l packet 0;
              Some (if ok then 1 else 0, s\<lparr>esf_links := ls, esf_wire := esf_wire s @ [out]\<rparr>)
            })"

subsection \<open>Messages\<close>

text \<open>What every \<open>fnSet*\<close> ends with: allocate, lay the message out, send it if there is a channel.\<close>

definition fn_msg :: "esf_cfg \<Rightarrow> u32 \<Rightarrow> u8 list \<Rightarrow> esf \<Rightarrow> (int \<times> esf) option" where
  "fn_msg cfg cmd d s =
     (if \<not> cfg_mem cfg then Some (cfg_errno cfg, s)
      else if 0 < m_nESFCtlId s then SendCommand_ESFCtl cfg (Some (message_bytes cmd d)) s
      else Some (0, s))"

text \<open>The handlers that get a buffer and its length; a length the buffer does not have is read past
  its end.\<close>

definition fn_buf :: "esf_cfg \<Rightarrow> u32 \<Rightarrow> u8 list option \<Rightarrow> int \<Rightarrow> esf \<Rightarrow> (int \<times> esf) option" where
  "fn_buf cfg cmd pBuf nLength s =
     (case pBuf of None \<Rightarrow> Some (-1, s)
      | Some b \<Rightarrow>
          if nLength \<le> 0 then Some (-1, s)
          else if cfg_mem cfg \<and> length b < nat nLength then None
          else fn_msg cfg cmd (take (nat nLength) b) s)"

definition cmd_GetDrivePolicy :: u32 where "cmd_GetDrivePolicy = 1011"
definition cmd_MobileNodeInsert :: u32 where "cmd_MobileNodeInsert = 1027"
definition cmd_SetProcessIdUnprotect :: u32 where "cmd_SetProcessIdUnprotect = 1034"
definition cmd_SetSelfProtectOnlyPermit :: u32 where "cmd_SetSelfProtectOnlyPermit = 1082"
definition MEDIA_PRINTPREVENT :: u32 where "MEDIA_PRINTPREVENT = 0x1000"

definition fnGetDrivePolicy :: "esf_cfg \<Rightarrow> u8 list option \<Rightarrow> int \<Rightarrow> esf \<Rightarrow> (int \<times> esf) option" where
  "fnGetDrivePolicy cfg pBuf nLength s = fn_buf cfg cmd_GetDrivePolicy pBuf nLength s"

definition fnSetDrivePolicy :: "esf_cfg \<Rightarrow> u8 list option \<Rightarrow> int \<Rightarrow> esf \<Rightarrow> (int \<times> esf) option" where
  "fnSetDrivePolicy cfg pBuf nLength s = fn_buf cfg cmd_SetDrivePolicy pBuf nLength s"

definition fnSetExceptDrivePolicy :: "esf_cfg \<Rightarrow> u8 list option \<Rightarrow> int \<Rightarrow> esf \<Rightarrow> (int \<times> esf) option" where
  "fnSetExceptDrivePolicy cfg pBuf nLength s = fn_buf cfg cmd_SetExceptDrivePolicy pBuf nLength s"

definition fnSetPermitProcessName :: "esf_cfg \<Rightarrow> u8 list option \<Rightarrow> int \<Rightarrow> esf \<Rightarrow> (int \<times> esf) option" where
  "fnSetPermitProcessName cfg pBuf nBufSize s = fn_buf cfg cmd_SetPermitProcessName pBuf nBufSize s"

definition fnSetPermitFolderName :: "esf_cfg \<Rightarrow> u8 list option \<Rightarrow> int \<Rightarrow> esf \<Rightarrow> (int \<times> esf) option" where
  "fnSetPermitFolderName cfg pBuf nBufSize s = fn_buf cfg cmd_SetPermitFolderName pBuf nBufSize s"

definition fnSetPermitFileExtName :: "esf_cfg \<Rightarrow> u8 list option \<Rightarrow> int \<Rightarrow> esf \<Rightarrow> (int \<times> esf) option" where
  "fnSetPermitFileExtName cfg pBuf nBufSize s = fn_buf cfg cmd_SetPermitFileExtName pBuf nBufSize s"

definition fnSetPrintPrevent :: "esf_cfg \<Rightarrow> u8 list option \<Rightarrow> int \<Rightarrow> esf \<Rightarrow> (int \<times> esf) option" where
  "fnSetPrintPrevent cfg pBuf nBufSize s = fn_buf cfg cmd_SetPrintPrevent pBuf nBufSize s"

definition fnSetUploadPrevent :: "esf_cfg \<Rightarrow> u8 list option \<Rightarrow> int \<Rightarrow> esf \<Rightarrow> (int \<times> esf) option" where
  "fnSetUploadPrevent cfg pBuf nBufSize s = fn_buf cfg cmd_SetUploadPrevent pBuf nBufSize s"

definition fnSetSelfProtect_CommitComplete :: "esf_cfg \<Rightarrow> u8 list option \<Rightarrow> int \<Rightarrow> u32 \<Rightarrow> esf
    \<Rightarrow> (int \<times> esf) option" where
  "fnSetSelfProtect_CommitComplete cfg pBuf nBufSize nCommand s = fn_buf cfg nCommand pBuf nBufSize s"

text \<open>Its body is for macOS only.\<close>

definition fnSetSelfProtect_Commit :: "bool \<Rightarrow> u32 \<Rightarrow> esf \<Rightarrow> (int \<times> esf) option" where
  "fnSetSelfProtect_Commit prot nCommand s = Some (0, s)"

subsection \<open>Messages of one structure\<close>

definition SIZEOF_QT_CTX :: nat where "SIZEOF_QT_CTX = 1560"
definition SIZEOF_PRINT_POLICY :: nat where "SIZEOF_PRINT_POLICY = 312"
definition SIZEOF_UPLOAD_POLICY :: nat where "SIZEOF_UPLOAD_POLICY = 320"
definition SIZEOF_MB_PERMIT :: nat where "SIZEOF_MB_PERMIT = 388"
definition SIZEOF_MB_NODE :: nat where "SIZEOF_MB_NODE = 392"

lemma one_struct_sizes:
  "struct_size qt_layout = SIZEOF_QT_CTX" "struct_size print_layout = SIZEOF_PRINT_POLICY"
  "struct_size [LStr 128, LStr 260] = SIZEOF_MB_PERMIT" "struct_size [L32, LStr 260, LStr 128] = SIZEOF_MB_NODE"
  by (simp_all add: struct_size_def qt_layout_def print_layout_def SIZEOF_QT_CTX_def SIZEOF_PRINT_POLICY_def
      SIZEOF_MB_PERMIT_def SIZEOF_MB_NODE_def numeral_3_eq_3)

definition fnSetQuarantinePathExt :: "esf_cfg \<Rightarrow> u8 list option \<Rightarrow> esf \<Rightarrow> (int \<times> esf) option" where
  "fnSetQuarantinePathExt cfg pQtCtx s =
     (case pQtCtx of None \<Rightarrow> Some (-1, s)
      | Some b \<Rightarrow>
          if cfg_mem cfg \<and> length b < SIZEOF_QT_CTX then None
          else fn_msg cfg cmd_SetQuarantinePathExt (take SIZEOF_QT_CTX b) s)"

text \<open>\<open>bQtLimit\<close> is the first field, an \<open>int\<close> widened to 8 bytes.\<close>

definition fnSetQuarantineLimit :: "esf_cfg \<Rightarrow> u32 \<Rightarrow> esf \<Rightarrow> (int \<times> esf) option" where
  "fnSetQuarantineLimit cfg lim s =
     fn_msg cfg cmd_SetQuarantineLimit (le_bytes 8 (scast lim :: u64) @ replicate (SIZEOF_QT_CTX - 8) 0) s"

definition fnSetUSBMobilePermit :: "esf_cfg \<Rightarrow> mb_permit \<Rightarrow> esf \<Rightarrow> (int \<times> esf) option" where
  "fnSetUSBMobilePermit cfg p s = fn_msg cfg cmd_SetMobilePermitList (enc_fields (permit_fields p)) s"

fun permit_loop :: "esf_cfg \<Rightarrow> mb_permit list \<Rightarrow> esf \<Rightarrow> esf option" where
  "permit_loop cfg [] s = Some s"
| "permit_loop cfg (p # ps) s = do { (r, s1) \<leftarrow> fnSetUSBMobilePermit cfg p s; permit_loop cfg ps s1 }"

text \<open>The results of the single messages are dropped.\<close>

definition fnSetUSBMobilePermitList :: "esf_cfg \<Rightarrow> mb_permit list option \<Rightarrow> esf \<Rightarrow> (int \<times> esf) option" where
  "fnSetUSBMobilePermitList cfg pPermitList s =
     (case pPermitList of None \<Rightarrow> Some (EINVAL, s)
      | Some l \<Rightarrow> if length l \<le> 0 then Some (EINVAL, s) else map_option (Pair 0) (permit_loop cfg l s))"

definition fnClrUSBMobilePermitList :: "esf_cfg \<Rightarrow> esf \<Rightarrow> (int \<times> esf) option" where
  "fnClrUSBMobilePermitList cfg s = fn_msg cfg cmd_ClrMobilePermitList (replicate SIZEOF_MB_PERMIT 0) s"

definition fnSetCtrlMobile :: "esf_cfg \<Rightarrow> mb_policy option \<Rightarrow> esf \<Rightarrow> (int \<times> esf) option" where
  "fnSetCtrlMobile cfg pPolicy s =
     (case pPolicy of None \<Rightarrow> Some (EINVAL, s)
      | Some p \<Rightarrow> fn_msg cfg cmd_SetCtrlMobile (enc_fields (mb_policy_fields p)) s)"

fun mb_code :: "mb_type \<Rightarrow> u32" where
  "mb_code MB_TYPE_NONE = 0"
| "mb_code MB_TYPE_MTP = 1"
| "mb_code MB_TYPE_PTP = 2"
| "mb_code MB_TYPE_ANDROID = 3"
| "mb_code MB_TYPE_APPLE = 4"

definition node_fields :: "mb_node \<Rightarrow> field list" where
  "node_fields n = [F32 (mb_code (MbType n)), FStr 260 (nd_czBasePath n), FStr 128 (czKeyword n)]"

definition fnMobileNodeInsert :: "esf_cfg \<Rightarrow> mb_node option \<Rightarrow> esf \<Rightarrow> (int \<times> esf) option" where
  "fnMobileNodeInsert cfg pNode s =
     (case pNode of None \<Rightarrow> Some (-1, s)
      | Some n \<Rightarrow> fn_msg cfg cmd_MobileNodeInsert (enc_fields (node_fields n)) s)"

text \<open>A path or keyword that does not fit is cut.\<close>

definition cut_copy :: "nat \<Rightarrow> string option \<Rightarrow> string" where
  "cut_copy n s = (case s of None \<Rightarrow> [] | Some t \<Rightarrow> take (min (length t) (n - 1)) t)"

definition fnMobileNodeInsert_SetMtp :: "esf_cfg \<Rightarrow> string option \<Rightarrow> string option \<Rightarrow> esf
    \<Rightarrow> (int \<times> esf) option" where
  "fnMobileNodeInsert_SetMtp cfg base key s = fnMobileNodeInsert cfg (Some \<lparr>MbType = MB_TYPE_MTP,
     nd_czBasePath = cut_copy 260 base, czKeyword = cut_copy 128 key\<rparr>) s"

definition fnMobileNodeInsert_SetPtp :: "esf_cfg \<Rightarrow> string option \<Rightarrow> string option \<Rightarrow> esf
    \<Rightarrow> (int \<times> esf) option" where
  "fnMobileNodeInsert_SetPtp cfg base key s = fnMobileNodeInsert cfg (Some \<lparr>MbType = MB_TYPE_PTP,
     nd_czBasePath = cut_copy 260 base, czKeyword = cut_copy 128 key\<rparr>) s"

definition fnMobileNodeRemoveAll :: "esf_cfg \<Rightarrow> esf \<Rightarrow> (int \<times> esf) option" where
  "fnMobileNodeRemoveAll cfg s = fn_msg cfg cmd_MobileNodeRemoveAll (replicate SIZEOF_MB_NODE 0) s"

definition fnSetProcessIdUnprotect :: "esf_cfg \<Rightarrow> u32 \<Rightarrow> esf \<Rightarrow> (int \<times> esf) option" where
  "fnSetProcessIdUnprotect cfg pid s = fn_msg cfg cmd_SetProcessIdUnprotect (le_bytes 4 pid) s"

definition zero_print :: print_policy where
  "zero_print = \<lparr>pp_bPolicy = 0, pp_nPolicyType = 0, pp_bWatermark = 0, pp_bLoggingOn = 0,
     pp_bDisableAll = 0, pp_bDisableRead = 0, pp_bDisableWrite = 0, pp_nReserved1 = 0, pp_czDeviceName = []\<rparr>"

definition fn_print :: "esf_cfg \<Rightarrow> print_policy \<Rightarrow> esf \<Rightarrow> (int \<times> esf) option" where
  "fn_print cfg p s = fnSetPrintPrevent cfg (Some (enc_fields (print_fields p))) (int SIZEOF_PRINT_POLICY) s"

definition fnSetPrintPrevent_Off :: "esf_cfg \<Rightarrow> esf \<Rightarrow> (int \<times> esf) option" where
  "fnSetPrintPrevent_Off cfg s = fn_print cfg (zero_print\<lparr>pp_nPolicyType := MEDIA_PRINTPREVENT\<rparr>) s"

definition fnSetPrintPrevent_Allow :: "esf_cfg \<Rightarrow> esf \<Rightarrow> (int \<times> esf) option" where
  "fnSetPrintPrevent_Allow cfg s =
     fn_print cfg (zero_print\<lparr>pp_bPolicy := 1, pp_nPolicyType := MEDIA_PRINTPREVENT\<rparr>) s"

definition fnSetPrintPrevent_Watermark :: "esf_cfg \<Rightarrow> esf \<Rightarrow> (int \<times> esf) option" where
  "fnSetPrintPrevent_Watermark cfg s =
     fn_print cfg (zero_print\<lparr>pp_bPolicy := 1, pp_bWatermark := 1, pp_nPolicyType := MEDIA_PRINTPREVENT\<rparr>) s"

definition fnSetPrintPrevent_DisableWrite :: "esf_cfg \<Rightarrow> esf \<Rightarrow> (int \<times> esf) option" where
  "fnSetPrintPrevent_DisableWrite cfg s =
     fn_print cfg (zero_print\<lparr>pp_bPolicy := 1, pp_bWatermark := 1, pp_bDisableWrite := 1,
       pp_nReserved1 := 1, pp_nPolicyType := MEDIA_PRINTPREVENT\<rparr>) s"

definition fnSetPrintPrevent_CopyPrevent :: "esf_cfg \<Rightarrow> esf \<Rightarrow> (int \<times> esf) option" where
  "fnSetPrintPrevent_CopyPrevent cfg s =
     fn_print cfg (zero_print\<lparr>pp_bPolicy := 1, pp_bWatermark := 1, pp_bDisableWrite := 1,
       pp_nReserved1 := -1, pp_nPolicyType := MEDIA_PRINTPREVENT\<rparr>) s"

text \<open>A failed allocation is -1 here, not \<open>errno\<close>.\<close>

definition fnSetProcessAccessCheck :: "esf_cfg \<Rightarrow> u64 \<Rightarrow> u64 \<Rightarrow> esf \<Rightarrow> (int \<times> esf) option" where
  "fnSetProcessAccessCheck cfg ac lg s =
     fn_msg (cfg\<lparr>cfg_errno := -1\<rparr>) cmd_SetProcessAccessCheck (enc_fields [F64 lg, F64 ac]) s"

definition fnSetControlCamera :: "esf_cfg \<Rightarrow> bool \<Rightarrow> bool \<Rightarrow> esf \<Rightarrow> (int \<times> esf) option" where
  "fnSetControlCamera cfg bControl bLog s = fn_msg cfg cmd_SetControlCamera
     (enc_fields (camera_fields \<lparr>bCameraLog = of_cbool bLog, bCameraBlock = of_cbool bControl, cam_nReserved = 0\<rparr>)) s"

definition fnSetControlRndis :: "esf_cfg \<Rightarrow> bool \<Rightarrow> bool \<Rightarrow> esf \<Rightarrow> (int \<times> esf) option" where
  "fnSetControlRndis cfg bCtrl bLog s = fn_msg cfg cmd_SetControlRNDIS
     (enc_fields (rndis_fields \<lparr>bRNdisLog = of_cbool bLog, bRNdisBlock = of_cbool bCtrl\<rparr>)) s"

definition fnSetControlAirDrop :: "esf_cfg \<Rightarrow> bool \<Rightarrow> bool \<Rightarrow> esf \<Rightarrow> (int \<times> esf) option" where
  "fnSetControlAirDrop cfg bBlock bLog s = fn_msg cfg cmd_SetControlAirDrop
     (enc_fields (airdrop_fields \<lparr>bAirDropLog = of_cbool bLog, bAirDropBlock = of_cbool bBlock,
        ad_nReserved0 = 0, ad_nReserved1 = 0, ad_nReserved2 = 0, ad_nReserved3 = 0\<rparr>)) s"

lemmas fn_buf_defs = fnGetDrivePolicy_def fnSetDrivePolicy_def fnSetExceptDrivePolicy_def
  fnSetPermitProcessName_def fnSetPermitFolderName_def fnSetPermitFileExtName_def
  fnSetPrintPrevent_def fnSetUploadPrevent_def fnSetSelfProtect_CommitComplete_def

subsection \<open>The stub\<close>

record usb_mobile =
  um_type :: string
  um_basePath :: string
  um_keyword :: string

text \<open>\<open>isActive\<close> looks for \<open>PIKern\<close> in the first line of the output of \<open>ps -eaf | grep PIKern\<close>.\<close>

definition isActive :: "string \<Rightarrow> bool" where
  "isActive temp \<longleftrightarrow> temp \<noteq> [] \<and> find_at (takeWhile (\<lambda>c. c \<noteq> CHR 0x0A) temp) ''PIKern'' 0 \<noteq> None"

text \<open>Without rules, the buffer is fresh memory for one structure, but the size is that of
  \<open>ATTACHED_DEVICE\<close> whatever the structure.\<close>

definition empty_rule :: "esf_cfg \<Rightarrow> nat \<Rightarrow> u8 list option \<Rightarrow> nat \<Rightarrow> u8 list option \<times> int" where
  "empty_rule cfg n pin sz =
     (if pin = None \<and> sz = 0 then (Some (cfg_fresh cfg n), int SIZEOF_ATTACHED_DEVICE)
      else (pin, int sz))"

definition store_result :: "(int \<times> esf) option \<Rightarrow> (bool \<times> esf) option" where
  "store_result x = map_option (\<lambda>(r, s). (r = 0, s\<lparr>esf_result := r\<rparr>)) x"

lemma store_result_None [simp]: "store_result None = None"
  by (simp add: store_result_def)

definition applyPolicy :: "esf_cfg \<Rightarrow> u32 \<Rightarrow> u8 list option \<Rightarrow> nat \<Rightarrow> esf \<Rightarrow> (bool \<times> esf) option" where
  "applyPolicy cfg cmd pin sz s =
     (if \<not> isActive (cfg_ps cfg) then Some (False, s)
      else if cmd = cmd_SetDrivePolicy
      then (case empty_rule cfg SIZEOF_ATTACHED_DEVICE_EX pin sz of (b, n) \<Rightarrow>
              store_result (fnSetDrivePolicy cfg b n s))
      else if cmd = cmd_SetPermitProcessName
      then (case empty_rule cfg SIZEOF_ALLOWPROCESSNAME pin sz of (b, n) \<Rightarrow>
              store_result (fnSetPermitProcessName cfg b n s))
      else if cmd = cmd_SetPermitFolderName
      then (case empty_rule cfg SIZEOF_ALLOWFOLDERNAME pin sz of (b, n) \<Rightarrow>
              store_result (fnSetPermitFolderName cfg b n s))
      else if cmd = cmd_SetPermitFileExtName
      then (case empty_rule cfg SIZEOF_ALLOWFILEEXTNAME pin sz of (b, n) \<Rightarrow>
              store_result (fnSetPermitFileExtName cfg b n s))
      else if cmd = cmd_SetExceptDrivePolicy
      then (case empty_rule cfg SIZEOF_ATTACHED_DEVICE pin sz of (b, n) \<Rightarrow>
              store_result (fnSetExceptDrivePolicy cfg b n s))
      else if cmd = cmd_SetQuarantinePathExt then store_result (fnSetQuarantinePathExt cfg pin s)
      else if cmd = cmd_SetQuarantineLimit
      then (case pin of None \<Rightarrow> None
            | Some b \<Rightarrow> if length b < 4 then None
                        else store_result (fnSetQuarantineLimit cfg (of_le (take 4 b)) s))
      else if cmd = cmd_SetPrintPrevent
      then (case empty_rule cfg SIZEOF_PRINT_POLICY pin sz of (b, n) \<Rightarrow>
              store_result (fnSetPrintPrevent cfg b n s))
      else if cmd = cmd_SetSelfProtect \<or> cmd = cmd_SetSelfProtectOnlyPermit
      then (case pin of None \<Rightarrow> None
            | Some b \<Rightarrow> if length b < 4 then None
                        else store_result (fnSetSelfProtect_Commit ((of_le (take 4 b) :: u32) \<noteq> 0) cmd s))
      else if cmd = cmd_SetUploadPrevent
      then (case empty_rule cfg SIZEOF_UPLOAD_POLICY pin sz of (b, n) \<Rightarrow>
              store_result (fnSetUploadPrevent cfg b n s))
      else Some (esf_result s = 0, s))"

text \<open>These three return the result of the exchange itself, converted to \<open>bool\<close>.\<close>

definition applyPolicyAirDrop :: "esf_cfg \<Rightarrow> bool \<Rightarrow> bool \<Rightarrow> esf \<Rightarrow> (bool \<times> esf) option" where
  "applyPolicyAirDrop cfg block lg s =
     (if \<not> isActive (cfg_ps cfg) then Some (False, s)
      else map_option (\<lambda>(r, s'). (r \<noteq> 0, s')) (fnSetControlAirDrop cfg block lg s))"

definition applyPolicyRndis :: "esf_cfg \<Rightarrow> bool \<Rightarrow> bool \<Rightarrow> esf \<Rightarrow> (bool \<times> esf) option" where
  "applyPolicyRndis cfg ctrl lg s =
     (if \<not> isActive (cfg_ps cfg) then Some (False, s)
      else map_option (\<lambda>(r, s'). (r \<noteq> 0, s')) (fnSetControlRndis cfg ctrl lg s))"

definition applyPolicyCamera :: "esf_cfg \<Rightarrow> bool \<Rightarrow> bool \<Rightarrow> esf \<Rightarrow> (bool \<times> esf) option" where
  "applyPolicyCamera cfg ctrl lg s =
     (if \<not> isActive (cfg_ps cfg) then Some (False, s)
      else map_option (\<lambda>(r, s'). (r \<noteq> 0, s')) (fnSetControlCamera cfg ctrl lg s))"

definition mtp_policy :: "bool \<Rightarrow> bool \<Rightarrow> mb_policy" where
  "mtp_policy control lg = \<lparr>bMtpLog = of_cbool lg, bMtpBlock = of_cbool control, bPtpLog = of_cbool lg,
     bPtpBlock = of_cbool control, bAndroidLog = 0, bAndroidBlock = 0, bAppleLog = 0, bAppleBlock = 0\<rparr>"

definition set_result :: "(int \<times> esf) option \<Rightarrow> esf option" where
  "set_result x = map_option (\<lambda>(r, s). s\<lparr>esf_result := r\<rparr>) x"

fun node_loop :: "esf_cfg \<Rightarrow> usb_mobile list \<Rightarrow> esf \<Rightarrow> esf option" where
  "node_loop cfg [] s = Some s"
| "node_loop cfg (u # us) s = do {
     s1 \<leftarrow> (if um_type u = ''Mtp''
           then set_result (fnMobileNodeInsert_SetMtp cfg (Some (um_basePath u)) (Some (um_keyword u)) s)
           else if um_type u = ''Ptp''
           then set_result (fnMobileNodeInsert_SetPtp cfg (Some (um_basePath u)) (Some (um_keyword u)) s)
           else Some s);
     node_loop cfg us s1
   }"

text \<open>The part \<open>applyPolicyUSBMobile\<close> and \<open>applyPolicySelectedBluetooth\<close> share.\<close>

definition apply_mobile :: "esf_cfg \<Rightarrow> bool \<Rightarrow> bool \<Rightarrow> usb_mobile list option \<Rightarrow> esf \<Rightarrow> (bool \<times> esf) option" where
  "apply_mobile cfg control lg param s = do {
     s1 \<leftarrow> set_result (fnSetCtrlMobile cfg (Some (mtp_policy control lg)) s);
     s2 \<leftarrow> set_result (fnMobileNodeRemoveAll cfg s1);
     (case param of None \<Rightarrow> Some (esf_result s2 = 0, s2)
      | Some l \<Rightarrow>
          if \<not> control then Some (esf_result s2 = 0, s2)
          else if length l = 0 then Some (esf_result s2 = 0, s2)
          else do { s3 \<leftarrow> node_loop cfg l s2; Some (esf_result s3 = 0, s3) })
   }"

definition applyPolicyUSBMobile :: "esf_cfg \<Rightarrow> bool \<Rightarrow> bool \<Rightarrow> usb_mobile list option
    \<Rightarrow> mb_permit list option \<Rightarrow> esf \<Rightarrow> (bool \<times> esf) option" where
  "applyPolicyUSBMobile cfg control lg param pPermitList s =
     (if \<not> isActive (cfg_ps cfg) then Some (False, s)
      else do {
        s1 \<leftarrow> set_result (fnClrUSBMobilePermitList cfg s);
        s2 \<leftarrow> (case pPermitList of None \<Rightarrow> Some s1
              | Some l \<Rightarrow> set_result (fnSetUSBMobilePermitList cfg (Some l) s1));
        apply_mobile cfg control lg param s2
      })"

definition applyPolicySelectedBluetooth :: "esf_cfg \<Rightarrow> bool \<Rightarrow> bool \<Rightarrow> usb_mobile list option \<Rightarrow> esf
    \<Rightarrow> (bool \<times> esf) option" where
  "applyPolicySelectedBluetooth cfg control lg param s =
     (if \<not> isActive (cfg_ps cfg) then Some (False, s) else apply_mobile cfg control lg param s)"

definition applyPolicyProcess :: "esf_cfg \<Rightarrow> bool \<Rightarrow> bool \<Rightarrow> esf \<Rightarrow> (bool \<times> esf) option" where
  "applyPolicyProcess cfg control lg s =
     (if \<not> isActive (cfg_ps cfg) then Some (False, s)
      else store_result (fnSetProcessAccessCheck cfg (of_cbool control) (of_cbool lg) s))"

subsection \<open>A delivered command\<close>

lemma wire_little: "\<not> bigEndian (psupport p) \<Longrightarrow> wire p = wire (p\<lparr>psupport := support_clear\<rparr>)"
proof -
  assume "\<not> bigEndian (psupport p)"
  moreover from this have "copy_size (psupport p) = copy_size support_clear"
    by (simp add: copy_size_def fun_eq_iff hton_def support_clear_def)
  ultimately show ?thesis by (simp add: wire_def Let_def hton_def support_clear_def packet_len_def)
qed

lemma esf_exchange_ok:
  assumes "0 \<le> l_socket l" and "l_connect l" and "ipString comm \<noteq> []"
    and "listSend comm = []" and "listRecv comm = []" and "remainedRecvBufSize comm = 0"
    and "packet_ok p" and "l_writes l = [int (packet_len p)]"
    and "l_reads l = [ReadData (wire q)]" and "sendable (csupport comm) q"
    and "packet_len q \<le> length (tcpRecvBuffer comm)"
  shows "\<exists>c. esf_exchange l comm p = Some (True, c, wire p) \<and> listRecv c = [received (csupport comm) q]"
proof -
  let ?c = "comm\<lparr>tcpFd := l_socket l, cstate := STATE_ACTIVE, tcpState := TCPSTATE_CONNECTED,
    listSend := []\<rparr>"
  have "send_loop [int (packet_len p)] [p] = Some (wire p, RESULT_OK, [])"
    using send_loop_complete [of "[p]" "[]"] assms(7) by simp
  then have s: "sendTCP [int (packet_len p)] (?c\<lparr>listSend := [p]\<rparr>) = Some (wire p, RESULT_OK, ?c)"
    by (simp del: send_loop.simps add: sendTCP_def Let_def)
  have r: "recvTCP [ReadData (wire q)] ?c = Some (RESULT_OK, ?c\<lparr>tcpRecvBuffer := put_at (tcpRecvBuffer ?c) 0 (wire q),
      listRecv := [received (csupport comm) q]\<rparr>)"
    using recvTCP_packets [of "[q]" ?c "[]"] assms by simp
  show ?thesis
    using assms(1-5,8,9) s r
    by (simp add: esf_exchange_def initializeTCPClient_def connectTCP_def Let_def)
qed

lemma reply_sendable: "\<not> bigEndian s \<Longrightarrow> sendable s (reply cmd code)"
  using reply_ok [of cmd code] by (simp add: sendable_def) (simp add: reply_def support_clear_def)

lemma reply_get_int: "get_int 0 (received s (reply cmd code)) = Some (word_of_int code)" if "\<not> bigEndian s"
  using that by (intro get_int_at) (auto simp: received_def as_sent_def reply_def recv_support_def hton_def)

text \<open>A connection on which the peer answers the command \<open>cmd\<close> of \<open>n\<close> bytes of data with \<open>code\<close>.\<close>

definition answered :: "link \<Rightarrow> u32 \<Rightarrow> nat \<Rightarrow> int \<Rightarrow> bool" where
  "answered l cmd n code \<longleftrightarrow> 0 \<le> l_socket l \<and> l_connect l \<and> l_writes l = [int (n + 32)] \<and>
     l_reads l = [ReadData (wire (reply cmd code))] \<and> 28 \<le> length (l_mem l)"

lemma message_request: "length d + 8 < 2 ^ 30 \<Longrightarrow> request_ok (cmd, message_bytes cmd d)"
  by (simp add: request_ok_def)

lemma request_len: "packet_len (request r) = 24 + length (snd r)"
  by (simp add: packet_len_def request_def)

lemma SendCommand_answered:
  assumes "answered l cmd (length d) code" and "esf_links s = l # ls" and "\<not> bigEndian (cfg_support cfg)"
    and "length d + 8 < 2 ^ 30"
  shows "SendCommand_ESFCtl cfg (Some (message_bytes cmd d)) s =
    Some (1, s\<lparr>esf_links := ls, esf_wire := esf_wire s @ [wire (request (cmd, message_bytes cmd d))]\<rparr>)"
proof -
  let ?m = "message_bytes cmd d" and ?q = "reply cmd code"
  let ?p = "(request (cmd, ?m))\<lparr>psupport := cfg_support cfg\<rparr>"
  let ?c = "(new_comm (l_mem l))\<lparr>csupport := support_clear\<lparr>bigEndian := bigEndian (cfg_support cfg)\<rparr>,
    ipString := ''127.0.0.1'', tcpPort := PIESF_PORT\<rparr>"
  have ok: "packet_ok (request (cmd, ?m))"
    using request_sendable [OF message_request [OF assms(4)], of support_clear cmd]
    by (simp add: sendable_def support_clear_def)
  have v: "vsize (hd (vectorValue (request (cmd, ?m)))) = of_nat (length d + 8)"
    by (simp add: request_def add.commute)
  have "addBinary (Some ?m) (of_nat (length ?m)) (setCommand cmd (CPIPacket\<lparr>psupport := cfg_support cfg\<rparr>)) = Some (0, ?p)"
    using assms(4) unat_count [of "length ?m"]
    by (simp add: addBinary_ok setCommand_def CPIPacket_def request_def value_ok_iff)
  moreover have "of_le (take 4 ?m) = (of_nat (length ?m) :: u32)" "of_le (take 4 (drop 4 ?m)) = cmd"
    by (simp_all add: message_bytes_def pkt)
  moreover have "\<exists>c. esf_exchange l ?c ?p = Some (True, c, wire ?p) \<and> listRecv c = [received (csupport ?c) ?q]"
  proof (rule esf_exchange_ok)
    show "packet_ok ?p" using ok by (simp add: packet_ok_def packet_len_def)
    show "l_writes l = [int (packet_len ?p)]"
      using assms(1) by (simp add: answered_def packet_len_def request_def)
    show "sendable (csupport ?c) ?q" using assms(3) by (simp add: reply_sendable)
    show "packet_len ?q \<le> length (tcpRecvBuffer ?c)" using assms(1) by (simp add: answered_def reply_len)
  qed (use assms(1) in \<open>simp_all add: answered_def\<close>)
  moreover have "wire ?p = wire (request (cmd, ?m))"
    using assms(3) wire_little [of ?p] by (simp add: request_def CPIPacket_def)
  ultimately show ?thesis
    using assms(2,3) reply_get_int [of "csupport ?c" cmd code]
    by (auto simp: SendCommand_ESFCtl_def sendToPIESF_def Let_def)
qed

text \<open>Without a connection nothing is written and the result is 0.\<close>

lemma SendCommand_refused:
  assumes "\<not> l_connect l" and "0 \<le> l_socket l" and "esf_links s = l # ls" and "length d + 8 < 2 ^ 30"
  shows "SendCommand_ESFCtl cfg (Some (message_bytes cmd d)) s =
    Some (0, s\<lparr>esf_links := ls, esf_wire := esf_wire s @ [[]]\<rparr>)"
proof -
  let ?m = "message_bytes cmd d"
  have "\<exists>x. addBinary (Some ?m) (of_nat (length ?m)) (setCommand cmd (CPIPacket\<lparr>psupport := cfg_support cfg\<rparr>)) = Some x"
    using assms(4) unat_count [of "length ?m"] by (simp add: addBinary_ok value_ok_iff)
  moreover have "of_le (take 4 ?m) = (of_nat (length ?m) :: u32)" "of_le (take 4 (drop 4 ?m)) = cmd"
    by (simp_all add: message_bytes_def pkt)
  ultimately show ?thesis
    using assms(1-3)
    by (auto simp: SendCommand_ESFCtl_def sendToPIESF_def Let_def esf_exchange_def initializeTCPClient_def
        connectTCP_def)
qed

subsection \<open>Properties\<close>

lemma fn_msg_sent: "cfg_mem cfg \<Longrightarrow> 0 < m_nESFCtlId s \<Longrightarrow>
    fn_msg cfg cmd d s = SendCommand_ESFCtl cfg (Some (message_bytes cmd d)) s"
  by (simp add: fn_msg_def)

lemma command_delivered:
  assumes "cfg_mem cfg" and "0 < m_nESFCtlId s" and "\<not> bigEndian (cfg_support cfg)"
    and "length d + 8 < 2 ^ 30"
    and "SmartCmd_Parser_CM mem (Some \<lparr>Size = of_nat (8 + length d), Command = cmd, Data = payload_of cmd d\<rparr>) k =
      Some (code, k')"
    and "\<not> bigEndian (csupport c)" and "tcpState c \<noteq> TCPSTATE_NOTCONNECTED" and "listSend c = []"
    and "listRecv c = []" and "remainedRecvBufSize c = 0" and "length d + 32 \<le> length (tcpRecvBuffer c)"
    and "0 \<le> l_socket l" and "l_connect l" and "l_writes l = [int (length d + 32)]" and "28 \<le> length (l_mem l)"
  shows "\<exists>out rep c'.
    serve_client mem \<lparr>io_select = 1, io_reads = [ReadData out], io_writes = [[28]]\<rparr> c k = Some (rep, Some c', k') \<and>
    fn_msg cfg cmd d (s\<lparr>esf_links := l\<lparr>l_reads := [ReadData rep]\<rparr> # ls\<rparr>) =
      Some (1, s\<lparr>esf_links := ls, esf_wire := esf_wire s @ [out]\<rparr>)"
proof -
  let ?r = "(cmd, message_bytes cmd d)" and ?l = "l\<lparr>l_reads := [ReadData (wire (reply cmd code))]\<rparr>"
  have "run_messages mem (map snd [?r]) k = Some ([code], k')"
    using assms(5) by (simp add: as_message_bytes)
  then obtain c' where c': "serve_client mem \<lparr>io_select = 1, io_reads = [ReadData (wire (request ?r))],
      io_writes = [[28]]\<rparr> c k = Some (wire (reply cmd code), Some c', k')"
    using serve_client_requests [of "[?r]" c mem k "[code]" k'] assms(4,6-11) message_request [OF assms(4)]
    by (auto simp: request_len)
  have "answered ?l cmd (length d) code" using assms(12-15) by (simp add: answered_def)
  then have "fn_msg cfg cmd d (s\<lparr>esf_links := ?l # ls\<rparr>) =
      Some (1, s\<lparr>esf_links := ls, esf_wire := esf_wire s @ [wire (request ?r)]\<rparr>)"
    using SendCommand_answered [of ?l cmd d code "s\<lparr>esf_links := ?l # ls\<rparr>" ls cfg] assms(1-4)
    by (simp add: fn_msg_sent)
  with c' show ?thesis by blast
qed

text \<open>A command the supervisor sends reaches the agent: what it writes on its connection makes
  the server run the command's handler on the structures the data holds, and when it reads what
  the server then writes, the call reports 1 and the message is on the wire.\<close>

theorem policy_delivered:
  assumes "cfg_mem cfg" and "0 < m_nESFCtlId s" and "\<not> bigEndian (cfg_support cfg)"
    and "length d + 8 < 2 ^ 30"
    and "SmartCmd_Parser_CM mem (Some \<lparr>Size = of_nat (8 + length d), Command = cmd, Data = payload_of cmd d\<rparr>) k =
      Some (code, k')"
    and "\<not> bigEndian (csupport c)" and "tcpState c \<noteq> TCPSTATE_NOTCONNECTED" and "listSend c = []"
    and "listRecv c = []" and "remainedRecvBufSize c = 0" and "length d + 32 \<le> length (tcpRecvBuffer c)"
    and "0 \<le> l_socket l" and "l_connect l" and "l_writes l = [int (length d + 32)]" and "28 \<le> length (l_mem l)"
  shows "\<exists>out rep c'.
    serve_client mem \<lparr>io_select = 1, io_reads = [ReadData out], io_writes = [[28]]\<rparr> c k = Some (rep, Some c', k') \<and>
    fn_msg cfg cmd d (s\<lparr>esf_links := l\<lparr>l_reads := [ReadData rep]\<rparr> # ls\<rparr>) =
      Some (1, s\<lparr>esf_links := ls, esf_wire := esf_wire s @ [out]\<rparr>)"
  using assms by (rule command_delivered)

definition sample_cfg :: esf_cfg where
  "sample_cfg = \<lparr>cfg_support = support_clear, cfg_mem = True, cfg_errno = 12, cfg_fresh = (\<lambda>n. replicate n 0x41),
     cfg_ps = ''PIKern''\<rparr>"

definition sample_esf :: esf where
  "sample_esf = \<lparr>m_nESFCtlId = 1, esf_result = 0, esf_links = [], esf_wire = []\<rparr>"

definition sample_link :: "nat \<Rightarrow> link" where
  "sample_link n = \<lparr>l_socket = 3, l_connect = True, l_writes = [int (n + 32)], l_reads = [], l_mem = replicate 100 0\<rparr>"

lemmas sample_esf_defs = sample_cfg_def sample_esf_def sample_link_def support_clear_def sample_client_def

theorem policy_delivered_witness:
  "\<exists>out rep c'. serve_client True \<lparr>io_select = 1, io_reads = [ReadData out], io_writes = [[28]]\<rparr> sample_client kext_boot =
      Some (rep, Some c', USBMobilePermitList_RemoveAll kext_boot) \<and>
    fn_msg sample_cfg cmd_ClrMobilePermitList [] (sample_esf\<lparr>esf_links := [(sample_link 0)\<lparr>l_reads := [ReadData rep]\<rparr>]\<rparr>) =
      Some (1, sample_esf\<lparr>esf_links := [], esf_wire := [out]\<rparr>)"
  using policy_delivered [of sample_cfg sample_esf "[]" True cmd_ClrMobilePermitList kext_boot 0
      "USBMobilePermitList_RemoveAll kext_boot" sample_client "sample_link 0" "[]"]
  by (simp add: sample_esf_defs SmartCmd_Parser_CM_def SmartCmd_ClrMobilePermitList_def bad_message_def cmd_defs)

lemma applyPolicy_drive: "cfg_mem cfg \<Longrightarrow> isActive (cfg_ps cfg) \<Longrightarrow> b \<noteq> [] \<Longrightarrow>
    applyPolicy cfg cmd_SetDrivePolicy (Some b) (length b) s = store_result (fn_msg cfg cmd_SetDrivePolicy b s)"
  by (simp add: applyPolicy_def empty_rule_def fnSetDrivePolicy_def fn_buf_def)

text \<open>The stub reports the opposite of what happened to a drive policy, and the truth for the
  camera: the sending function returns 1 when the agent has answered and 0 when it could not be
  reached, and \<open>applyPolicy\<close> takes 0 for success. The other commands of \<open>applyPolicy\<close> go the same
  way.\<close>

theorem apply_result_inverted:
  assumes "cfg_mem cfg" and "0 < m_nESFCtlId s" and "isActive (cfg_ps cfg)"
    and "\<not> bigEndian (cfg_support cfg)" and "esf_links s = l # ls" and "0 \<le> l_socket l"
    and "b \<noteq> []" and "length b + 8 < 2 ^ 30"
  shows "(\<not> l_connect l \<longrightarrow>
      applyPolicy cfg cmd_SetDrivePolicy (Some b) (length b) s =
        Some (True, s\<lparr>esf_links := ls, esf_wire := esf_wire s @ [[]], esf_result := 0\<rparr>) \<and>
      applyPolicyCamera cfg x y s = Some (False, s\<lparr>esf_links := ls, esf_wire := esf_wire s @ [[]]\<rparr>)) \<and>
    (answered l cmd_SetDrivePolicy (length b) code \<longrightarrow>
      applyPolicy cfg cmd_SetDrivePolicy (Some b) (length b) s = Some (False, s\<lparr>esf_links := ls,
        esf_wire := esf_wire s @ [wire (request (cmd_SetDrivePolicy, message_bytes cmd_SetDrivePolicy b))],
        esf_result := 1\<rparr>)) \<and>
    (answered l cmd_SetControlCamera 20 code \<longrightarrow>
      (\<exists>s'. applyPolicyCamera cfg x y s = Some (True, s')))"
proof -
  have drive: "applyPolicy cfg cmd_SetDrivePolicy (Some b) (length b) s =
      store_result (SendCommand_ESFCtl cfg (Some (message_bytes cmd_SetDrivePolicy b)) s)"
    using assms(1-3,7) by (simp add: applyPolicy_drive fn_msg_def)
  define d where "d = enc_fields (camera_fields \<lparr>bCameraLog = of_cbool y, bCameraBlock = of_cbool x, cam_nReserved = 0\<rparr>)"
  have camera: "applyPolicyCamera cfg x y s =
      map_option (\<lambda>(r, s'). (r \<noteq> 0, s')) (SendCommand_ESFCtl cfg (Some (message_bytes cmd_SetControlCamera d)) s)"
    using assms(1-3) by (simp add: applyPolicyCamera_def fnSetControlCamera_def fn_msg_def d_def)
  have d: "length d = 20"
    by (simp add: d_def camera_fields_def enc_fields_def)
  show ?thesis
    using SendCommand_refused [OF _ assms(6,5), where cfg = cfg] SendCommand_answered [OF _ assms(5,4)] assms(8) d
    by (auto simp: drive camera store_result_def)
qed

lemma sample_active: "isActive ''PIKern''"
  by code_simp

theorem apply_result_inverted_witness:
  "\<exists>s'. applyPolicy sample_cfg cmd_SetDrivePolicy (Some [1]) 1
      (sample_esf\<lparr>esf_links := [(sample_link 0)\<lparr>l_connect := False\<rparr>]\<rparr>) = Some (True, s') \<and> esf_wire s' = [[]]"
  using apply_result_inverted [of sample_cfg "sample_esf\<lparr>esf_links := [(sample_link 0)\<lparr>l_connect := False\<rparr>]\<rparr>"
      "(sample_link 0)\<lparr>l_connect := False\<rparr>" "[]" "[1]"]
  by (simp add: sample_esf_defs sample_active)

text \<open>When there are no rules, the stub sends fresh memory. The agent finds no drive policy in
  it, as the size is that of the smaller structure; but it installs what the memory holds as an
  exception, and for names of processes, folders and extensions the stub reads past what it
  allocated.\<close>

theorem empty_rules_send_garbage:
  assumes "cfg_mem cfg" and "isActive (cfg_ps cfg)" and "\<forall>n. length (cfg_fresh cfg n) = n"
    and "0 < m_nESFCtlId s"
  shows "applyPolicy cfg cmd_SetDrivePolicy None 0 s =
      store_result (fn_msg cfg cmd_SetDrivePolicy (take 292 (cfg_fresh cfg 296)) s) \<and>
    payload_of cmd_SetDrivePolicy (take 292 (cfg_fresh cfg 296)) = DevicesEx [] \<and>
    applyPolicy cfg cmd_SetExceptDrivePolicy None 0 s =
      store_result (fn_msg cfg cmd_SetExceptDrivePolicy (cfg_fresh cfg 292) s) \<and>
    (\<exists>x. payload_of cmd_SetExceptDrivePolicy (cfg_fresh cfg 292) = Devices [x] \<and>
      DeviceNames x = c_array (drop 36 (cfg_fresh cfg 292))) \<and>
    (\<forall>cmd \<in> {cmd_SetPermitProcessName, cmd_SetPermitFolderName, cmd_SetPermitFileExtName}.
      applyPolicy cfg cmd None 0 s = None)"
proof -
  have "length (take 292 (cfg_fresh cfg 296)) div struct_size device_ex_layout = 0"
    using assms(3) by (simp add: struct_sizes sizeof_defs)
  then have "payload_of cmd_SetDrivePolicy (take 292 (cfg_fresh cfg 296)) = DevicesEx []"
    by (simp add: payload_of_def dec_array_def)
  moreover have "length (cfg_fresh cfg 292) div struct_size device_layout = 1"
    using assms(3) by (simp add: struct_sizes sizeof_defs)
  then have "\<exists>x. payload_of cmd_SetExceptDrivePolicy (cfg_fresh cfg 292) = Devices [x] \<and>
      DeviceNames x = c_array (drop 36 (cfg_fresh cfg 292))"
    using assms(3) by (auto simp: payload_of_def dec_array_def device_layout_def cmd_defs)
  ultimately show ?thesis
    using assms by (auto simp: applyPolicy_def empty_rule_def fn_buf_defs fn_buf_def cmd_defs sizeof_defs)
qed

theorem empty_rules_send_garbage_witness:
  "applyPolicy sample_cfg cmd_SetPermitFolderName None 0 sample_esf = None"
  using empty_rules_send_garbage [of sample_cfg sample_esf] by (simp add: sample_esf_defs sample_active)

end
