(* ===== verification/SecRule.thy ===== *)
theory SecRule
  imports DrvPolicy
begin

text \<open>
  \<open>CDeviceV6\<close> and \<open>CPISecRule\<close> of \<open>PISupervisor/common/src/DLPPolicy.cpp\<close>: one rule about a kind
  of device, named by its virtual type, and the record \<open>getData\<close> turns it into for the agent.
  Fields the constructor leaves uninitialised are arguments of \<open>CPISecRule\<close>.
\<close>

named_theorems vt "names of device kinds"

text \<open>Names with a backslash.\<close>

definition bsl :: "string \<Rightarrow> string \<Rightarrow> string" where
  "bsl a b = a @ CHR 0x5C # b"

lemma bsl_eq [simp]: "bsl a b = bsl a c \<longleftrightarrow> b = c" "bsl a b \<noteq> []" "[] \<noteq> bsl a b"
  by (simp_all add: bsl_def)

lemma bsl_neq [simp]:
  "bsl ''Drive'' b \<noteq> bsl ''Device'' c" "bsl ''Device'' b \<noteq> bsl ''Drive'' c"
  "bsl ''Drive'' b \<noteq> bsl ''NDIS'' c" "bsl ''NDIS'' b \<noteq> bsl ''Drive'' c"
  "bsl ''Drive'' b \<noteq> bsl ''Share'' c" "bsl ''Share'' b \<noteq> bsl ''Drive'' c"
  "bsl ''Device'' b \<noteq> bsl ''NDIS'' c" "bsl ''NDIS'' b \<noteq> bsl ''Device'' c"
  "bsl ''Device'' b \<noteq> bsl ''Share'' c" "bsl ''Share'' b \<noteq> bsl ''Device'' c"
  "bsl ''NDIS'' b \<noteq> bsl ''Share'' c" "bsl ''Share'' b \<noteq> bsl ''NDIS'' c"
  "bsl ''Drive'' b \<noteq> bsl ''Process'' c" "bsl ''Process'' b \<noteq> bsl ''Drive'' c"
  "bsl ''Drive'' b \<noteq> bsl ''Network'' c" "bsl ''Network'' b \<noteq> bsl ''Drive'' c"
  "bsl ''Drive'' b \<noteq> bsl ''Printer'' c" "bsl ''Printer'' b \<noteq> bsl ''Drive'' c"
  "bsl ''Device'' b \<noteq> bsl ''Process'' c" "bsl ''Process'' b \<noteq> bsl ''Device'' c"
  "bsl ''Device'' b \<noteq> bsl ''Network'' c" "bsl ''Network'' b \<noteq> bsl ''Device'' c"
  "bsl ''Device'' b \<noteq> bsl ''Printer'' c" "bsl ''Printer'' b \<noteq> bsl ''Device'' c"
  by (simp_all add: bsl_def)

subsection \<open>Device codes\<close>

datatype em_type = COPYPREVENT | CDDVD | FLOPPY | USB | NETDRIVE | SERIAL | PARALLEL | IEEE1394
  | MTP | PTP | ANDROID | APPLE | PRINTPREVENT | BLUETOOTH | PROCESS | CAMERA

fun v6_code :: "em_type \<Rightarrow> u32" where
  "v6_code COPYPREVENT = 0x0001"
| "v6_code CDDVD = 0x0002"
| "v6_code FLOPPY = 0x0004"
| "v6_code USB = 0x0008"
| "v6_code NETDRIVE = 0x0010"
| "v6_code SERIAL = 0x0020"
| "v6_code PARALLEL = 0x0040"
| "v6_code IEEE1394 = 0x0080"
| "v6_code MTP = 0x0100"
| "v6_code PTP = 0x0200"
| "v6_code ANDROID = 0x0400"
| "v6_code APPLE = 0x0800"
| "v6_code PRINTPREVENT = 0x1000"
| "v6_code BLUETOOTH = 0x4000"
| "v6_code PROCESS = 0x8000"
| "v6_code CAMERA = 0xA000"

fun v6_name :: "em_type \<Rightarrow> string" where
  "v6_name COPYPREVENT = bsl ''CopyPrevent'' ''Removable''"
| "v6_name CDDVD = bsl ''Media'' ''CDDVD''"
| "v6_name FLOPPY = bsl ''Media'' ''Floppy''"
| "v6_name USB = bsl ''Media'' ''Removable''"
| "v6_name NETDRIVE = bsl ''Media'' ''NetDrive''"
| "v6_name SERIAL = bsl ''Media'' ''Serial''"
| "v6_name PARALLEL = bsl ''Media'' ''Parallel''"
| "v6_name IEEE1394 = bsl ''Media'' ''1394''"
| "v6_name MTP = bsl ''Media'' ''MTP''"
| "v6_name PTP = bsl ''Media'' ''PTP''"
| "v6_name ANDROID = bsl ''Media'' ''Android''"
| "v6_name APPLE = bsl ''Media'' ''Apple''"
| "v6_name PRINTPREVENT = bsl ''PrintPrevent'' ''Print''"
| "v6_name BLUETOOTH = bsl ''Media'' ''Bluetooth''"
| "v6_name PROCESS = bsl ''Process'' ''Control''"
| "v6_name CAMERA = bsl ''Media'' ''Camera''"

text \<open>The virtual types of the rules.\<close>

definition Drive_Removable :: string where [vt]: "Drive_Removable = bsl ''Drive'' ''Removable''"
definition Drive_CDDVD :: string where [vt]: "Drive_CDDVD = bsl ''Drive'' ''CD/DVD''"
definition Drive_Floppy :: string where [vt]: "Drive_Floppy = bsl ''Drive'' ''Floppy''"
definition Drive_NetDrive :: string where [vt]: "Drive_NetDrive = bsl ''Drive'' ''NetDrive''"
definition Device_Serial :: string where [vt]: "Device_Serial = bsl ''Device'' ''Serial''"
definition Device_Parallel :: string where [vt]: "Device_Parallel = bsl ''Device'' ''Parallel''"
definition Device_Printer :: string where [vt]: "Device_Printer = bsl ''Device'' ''Printer''"
definition Device_IEEE1394 :: string where [vt]: "Device_IEEE1394 = bsl ''Device'' ''IEEE1394''"
definition Device_CDDVD :: string where [vt]: "Device_CDDVD = bsl ''Device'' ''CD/DVD''"
definition Device_Bluetooth :: string where [vt]: "Device_Bluetooth = bsl ''Device'' ''Bluetooth''"
definition Device_Infrared :: string where [vt]: "Device_Infrared = bsl ''Device'' ''Infrared''"
definition Device_USBMobile :: string where [vt]: "Device_USBMobile = bsl ''Device'' ''USBMobile''"
definition Device_Camera :: string where [vt]: "Device_Camera = bsl ''Device'' ''Camera''"
definition NDIS_WLAN :: string where [vt]: "NDIS_WLAN = bsl ''NDIS'' ''WLAN''"
definition NDIS_WWAN :: string where [vt]: "NDIS_WWAN = bsl ''NDIS'' ''WWAN''"
definition Share_FileSharing :: string where [vt]: "Share_FileSharing = bsl ''Share'' ''FileSharing''"
definition Share_RemoteManagement :: string where [vt]: "Share_RemoteManagement = bsl ''Share'' ''RemoteManagement''"
definition Share_AirDrop :: string where [vt]: "Share_AirDrop = bsl ''Share'' ''AirDrop''"

subsection \<open>Rules\<close>

record sec_rule =
  virtualType :: string
  disableAll :: bool
  disableRead :: bool
  disableWrite :: bool
  enableLog :: bool
  reserved1 :: int
  blockSelectedBluetooth :: bool
  deviceEx :: attached_device_ex
  vecWLanPermitList :: "string list"
  vecUSBMobilePermitList :: "mb_permit list"
  vecRemovableDrivePermitList :: "mb_permit list"
  nRemovableDrivePermitAllowControlType :: int

text \<open>\<open>ATTACHED_DEVICE\<close> and \<open>ATTACHED_DEVICE_EX\<close> as their constructors leave them.\<close>

definition new_device :: attached_device where
  "new_device = zero_device\<lparr>nReserved1 := -1\<rparr>"

definition new_device_ex :: attached_device_ex where
  "new_device_ex = \<lparr>cDevice = new_device, ulStorDevType = 0\<rparr>"

text \<open>\<open>clear\<close> leaves the Bluetooth flag, the device record and the list of permitted removable
  drives alone.\<close>

definition rule_clear :: "sec_rule \<Rightarrow> sec_rule" where
  "rule_clear r = r\<lparr>virtualType := [], disableAll := False, disableRead := False,
     disableWrite := False, enableLog := False, reserved1 := -1,
     vecWLanPermitList := [], vecUSBMobilePermitList := []\<rparr>"

definition CPISecRule :: "bool \<Rightarrow> int \<Rightarrow> sec_rule" where
  "CPISecRule bt permit = rule_clear \<lparr>virtualType = [], disableAll = False, disableRead = False,
     disableWrite = False, enableLog = False, reserved1 = -1, blockSelectedBluetooth = bt,
     deviceEx = new_device_ex, vecWLanPermitList = [], vecUSBMobilePermitList = [],
     vecRemovableDrivePermitList = [], nRemovableDrivePermitAllowControlType = permit\<rparr>"

text \<open>The setters of the permit lists ignore an empty list.\<close>

definition setWLanPermitList :: "string list \<Rightarrow> sec_rule \<Rightarrow> bool \<times> sec_rule" where
  "setWLanPermitList l r = (if 0 < length l then (True, r\<lparr>vecWLanPermitList := l\<rparr>) else (False, r))"

definition setUSBMobilePermitList :: "mb_permit list \<Rightarrow> sec_rule \<Rightarrow> bool \<times> sec_rule" where
  "setUSBMobilePermitList l r =
     (if length l \<le> 0 then (False, r) else (True, r\<lparr>vecUSBMobilePermitList := l\<rparr>))"

definition setRemovableDrivePermitList :: "mb_permit list \<Rightarrow> sec_rule \<Rightarrow> bool \<times> sec_rule" where
  "setRemovableDrivePermitList l r =
     (if length l \<le> 0 then (False, r) else (True, r\<lparr>vecRemovableDrivePermitList := l\<rparr>))"

lemmas permit_setters =
  setWLanPermitList_def setUSBMobilePermitList_def setRemovableDrivePermitList_def

text \<open>\<open>operator=\<close>: \<open>rule_assign new old\<close>.\<close>

definition rule_assign :: "sec_rule \<Rightarrow> sec_rule \<Rightarrow> sec_rule" where
  "rule_assign rule r =
     (let r1 = (rule_clear r)\<lparr>virtualType := virtualType rule, disableAll := disableAll rule,
            disableRead := disableRead rule, disableWrite := disableWrite rule,
            enableLog := enableLog rule, reserved1 := reserved1 rule,
            blockSelectedBluetooth := blockSelectedBluetooth rule\<rparr>;
          r2 = snd (setWLanPermitList (vecWLanPermitList rule) r1);
          r3 = snd (setUSBMobilePermitList (vecUSBMobilePermitList rule) r2);
          r4 = snd (setRemovableDrivePermitList (vecRemovableDrivePermitList rule) r3)
      in r4\<lparr>nRemovableDrivePermitAllowControlType := nRemovableDrivePermitAllowControlType rule\<rparr>)"

text \<open>What assignment copies: everything but the device record and an empty list of removable
  drives.\<close>

lemma rule_assign_eq:
  "rule_assign rule r = rule\<lparr>deviceEx := deviceEx r,
     vecRemovableDrivePermitList := (if vecRemovableDrivePermitList rule = []
       then vecRemovableDrivePermitList r else vecRemovableDrivePermitList rule)\<rparr>"
  by (cases rule; cases r) (auto simp: rule_assign_def rule_clear_def permit_setters Let_def)

lemma rule_clear_idem [simp]: "rule_clear (rule_clear r) = rule_clear r"
  by (simp add: rule_clear_def)

subsection \<open>The record for the agent\<close>

definition setDeviceRule :: "sec_rule \<Rightarrow> sec_rule" where
  "setDeviceRule r = r\<lparr>deviceEx := (deviceEx r)\<lparr>cDevice := (cDevice (deviceEx r))\<lparr>
     bLoggingOn := of_cbool (enableLog r), bDisableAll := of_cbool (disableAll r),
     bDisableRead := of_cbool (disableRead r), bDisableWrite := of_cbool (disableWrite r)\<rparr>\<rparr>\<rparr>"

definition set_kind :: "em_type \<Rightarrow> sec_rule \<Rightarrow> sec_rule" where
  "set_kind t r = r\<lparr>deviceEx := (deviceEx r)\<lparr>cDevice := (cDevice (deviceEx r))\<lparr>DeviceNames := v6_name t\<rparr>,
     ulStorDevType := v6_code t\<rparr>\<rparr>"

definition set_reserved :: "u32 \<Rightarrow> sec_rule \<Rightarrow> sec_rule" where
  "set_reserved n r = r\<lparr>deviceEx := (deviceEx r)\<lparr>cDevice := (cDevice (deviceEx r))\<lparr>nReserved1 := n\<rparr>\<rparr>\<rparr>"

definition getData :: "sec_rule \<Rightarrow> sec_rule" where
  "getData r0 =
     (let r = setDeviceRule r0 in
      if virtualType r = Drive_Removable then
        (if \<not> disableRead r \<and> reserved1 r \<noteq> 1 then set_kind COPYPREVENT r
         else if disableWrite r then set_reserved 1 (set_kind USB r) else set_kind USB r)
      else if virtualType r = Drive_CDDVD then
        set_kind CDDVD (if disableWrite r then set_reserved 1 r else r)
      else if virtualType r = Drive_Floppy then
        set_kind FLOPPY (if disableWrite r then set_reserved 1 r else r)
      else if virtualType r = Drive_NetDrive then
        (if (disableRead r \<or> reserved1 r = 1) \<and> disableWrite r
         then set_reserved 1 (set_kind NETDRIVE r) else set_kind NETDRIVE r)
      else if virtualType r = Device_Serial then set_kind SERIAL r
      else if virtualType r = Device_Parallel then set_kind PARALLEL r
      else if virtualType r = Device_IEEE1394 then set_kind IEEE1394 r
      else if virtualType r = Device_CDDVD then set_kind CDDVD r
      else if virtualType r = Device_Bluetooth then
        (if blockSelectedBluetooth r then set_reserved 1 (set_kind BLUETOOTH r)
         else set_reserved (-1) (set_kind BLUETOOTH r))
      else r)"

lemmas getData_defs = getData_def setDeviceRule_def set_kind_def set_reserved_def

lemma rule_parts [simp]:
  "virtualType (setDeviceRule r) = virtualType r" "virtualType (set_kind t r) = virtualType r"
  "virtualType (set_reserved n r) = virtualType r"
  "disableAll (setDeviceRule r) = disableAll r" "disableAll (set_kind t r) = disableAll r"
  "disableAll (set_reserved n r) = disableAll r"
  "disableRead (setDeviceRule r) = disableRead r" "disableRead (set_kind t r) = disableRead r"
  "disableRead (set_reserved n r) = disableRead r"
  "disableWrite (setDeviceRule r) = disableWrite r" "disableWrite (set_kind t r) = disableWrite r"
  "disableWrite (set_reserved n r) = disableWrite r"
  "enableLog (setDeviceRule r) = enableLog r" "enableLog (set_kind t r) = enableLog r"
  "enableLog (set_reserved n r) = enableLog r"
  "reserved1 (setDeviceRule r) = reserved1 r" "reserved1 (set_kind t r) = reserved1 r"
  "reserved1 (set_reserved n r) = reserved1 r"
  "blockSelectedBluetooth (setDeviceRule r) = blockSelectedBluetooth r"
  "blockSelectedBluetooth (set_kind t r) = blockSelectedBluetooth r"
  "blockSelectedBluetooth (set_reserved n r) = blockSelectedBluetooth r"
  "ulStorDevType (deviceEx (setDeviceRule r)) = ulStorDevType (deviceEx r)"
  "ulStorDevType (deviceEx (set_kind t r)) = v6_code t"
  "ulStorDevType (deviceEx (set_reserved n r)) = ulStorDevType (deviceEx r)"
  by (simp_all add: setDeviceRule_def set_kind_def set_reserved_def)

text \<open>A field that no branch of \<open>getData\<close> touches is read through it.\<close>

lemma getData_invariant:
  assumes "\<And>r t. f (set_kind t r) = f r" and "\<And>r n. f (set_reserved n r) = f r"
  shows "f (getData r) = f (setDeviceRule r)"
  unfolding getData_def Let_def by (simp only: if_distrib [of f] assms if_cancel)

lemma getData_keeps [simp]:
  "virtualType (getData r) = virtualType r" "disableAll (getData r) = disableAll r"
  "disableRead (getData r) = disableRead r" "disableWrite (getData r) = disableWrite r"
  "enableLog (getData r) = enableLog r" "reserved1 (getData r) = reserved1 r"
  "blockSelectedBluetooth (getData r) = blockSelectedBluetooth r"
  by (simp_all add: getData_invariant [of virtualType] getData_invariant [of disableAll]
      getData_invariant [of disableRead] getData_invariant [of disableWrite]
      getData_invariant [of enableLog] getData_invariant [of reserved1]
      getData_invariant [of blockSelectedBluetooth])

lemma getData_flags [simp]:
  "bLoggingOn (cDevice (deviceEx (getData r))) = of_cbool (enableLog r)"
  "bDisableAll (cDevice (deviceEx (getData r))) = of_cbool (disableAll r)"
  "bDisableRead (cDevice (deviceEx (getData r))) = of_cbool (disableRead r)"
  "bDisableWrite (cDevice (deviceEx (getData r))) = of_cbool (disableWrite r)"
  by (simp_all add: getData_invariant [of "\<lambda>r. bLoggingOn (cDevice (deviceEx r))"]
      getData_invariant [of "\<lambda>r. bDisableAll (cDevice (deviceEx r))"]
      getData_invariant [of "\<lambda>r. bDisableRead (cDevice (deviceEx r))"]
      getData_invariant [of "\<lambda>r. bDisableWrite (cDevice (deviceEx r))"]
      set_kind_def set_reserved_def setDeviceRule_def)

definition removable_kind :: "sec_rule \<Rightarrow> em_type" where
  "removable_kind r = (if \<not> disableRead r \<and> reserved1 r \<noteq> 1 then COPYPREVENT else USB)"

definition removable_reserved :: "sec_rule \<Rightarrow> u32" where
  "removable_reserved r = (if (disableRead r \<or> reserved1 r = 1) \<and> disableWrite r then 1 else -1)"

lemma getData_removable:
  assumes "virtualType r = Drive_Removable" and "deviceEx r = new_device_ex"
  shows "deviceEx (getData r) = \<lparr>cDevice = \<lparr>bLoggingOn = of_cbool (enableLog r),
      bDisableAll = of_cbool (disableAll r), bDisableRead = of_cbool (disableRead r),
      bDisableWrite = of_cbool (disableWrite r), nReserved1 = removable_reserved r,
      DeviceNames = v6_name (removable_kind r)\<rparr>, ulStorDevType = v6_code (removable_kind r)\<rparr>"
  using assms
  by (auto simp: getData_defs Let_def new_device_ex_def new_device_def zero_device_def
      removable_kind_def removable_reserved_def)

text \<open>The device code of a rule.\<close>

definition rule_code :: "sec_rule \<Rightarrow> u32" where
  "rule_code r =
    (if virtualType r = Drive_Removable then v6_code (removable_kind r)
     else if virtualType r = Drive_CDDVD then v6_code CDDVD
     else if virtualType r = Drive_Floppy then v6_code FLOPPY
     else if virtualType r = Drive_NetDrive then v6_code NETDRIVE
     else if virtualType r = Device_Serial then v6_code SERIAL
     else if virtualType r = Device_Parallel then v6_code PARALLEL
     else if virtualType r = Device_IEEE1394 then v6_code IEEE1394
     else if virtualType r = Device_CDDVD then v6_code CDDVD
     else if virtualType r = Device_Bluetooth then v6_code BLUETOOTH
     else ulStorDevType (deviceEx r))"

lemma getData_code: "ulStorDevType (deviceEx (getData r)) = rule_code r"
  unfolding getData_def Let_def removable_kind_def rule_code_def
  by (simp only: if_distrib [of deviceEx] if_distrib [of ulStorDevType] rule_parts if_cancel
      if_distrib [of v6_code])

end
