(* ===== verification/DlpApplication.thy ===== *)
theory DlpApplication
  imports Utility
begin

text \<open>
  \<open>CDLPApplication\<close> (\<open>PISupervisor/common/src/DLPApplication.cpp\<close>): the applications a policy
  names, matched by file name and by a byte pattern in the executable. The file is an argument:
  \<open>rd pos\<close> is what \<open>read\<close> returns at position \<open>pos\<close> for a buffer of \<open>BUFFER_SIZE\<close> bytes, \<open>None\<close>
  an error. A result is \<open>None\<close> where the code reads outside a buffer or overflows an \<open>int\<close>.
\<close>

definition typeCustom :: int where "typeCustom = 2"
definition controltypeNone :: int where "controltypeNone = -1"
definition controltypeExecControl :: int where "controltypeExecControl = 0"
definition controltypeFileOpenControl :: int where "controltypeFileOpenControl = 1"
definition fileopencontroltypeApplicationHooking :: int where "fileopencontroltypeApplicationHooking = 2"

record dlp_application =
  app_type :: int
  app_controlType :: int
  app_fileOpenControlType :: int
  app_guid :: string
  app_display :: string
  app_fileName :: string
  app_binData :: string
  app_lowerFileNameExt :: string
  app_lowerFileName :: string
  app_lowerFileExt :: string

definition CDLPApplication :: dlp_application where
  "CDLPApplication = \<lparr>app_type = typeCustom, app_controlType = controltypeNone,
     app_fileOpenControlType = fileopencontroltypeApplicationHooking, app_guid = [], app_display = [],
     app_fileName = [], app_binData = [], app_lowerFileNameExt = [], app_lowerFileName = [],
     app_lowerFileExt = []\<rparr>"

definition toLower :: "string \<Rightarrow> string" where
  "toLower = map tolower_c"

definition setFileName :: "string \<Rightarrow> dlp_application \<Rightarrow> dlp_application" where
  "setFileName nm a =
     (let a1 = a\<lparr>app_fileName := nm\<rparr> in
      if 0 < length nm
      then a1\<lparr>app_lowerFileNameExt := toLower nm, app_lowerFileName := getFileName (toLower nm),
              app_lowerFileExt := getFileExt (toLower nm)\<rparr>
      else a1)"

definition isSameProcessName :: "string \<Rightarrow> dlp_application \<Rightarrow> bool" where
  "isSameProcessName processName a \<longleftrightarrow>
     length processName \<noteq> 0 \<and> toLower processName = app_lowerFileName a"

definition isWindowsExecutable :: "dlp_application \<Rightarrow> bool" where
  "isWindowsExecutable a \<longleftrightarrow> length (app_lowerFileExt a) \<noteq> 0 \<and> ''exe'' = app_lowerFileExt a"

text \<open>A process is matched by its whole name against the file name up to its first dot.\<close>

lemma isSameProcessName_setFileName:
  "nm \<noteq> [] \<Longrightarrow> isSameProcessName p (setFileName nm a) \<longleftrightarrow>
     p \<noteq> [] \<and> toLower p = getFileName (toLower nm)"
  by (simp add: isSameProcessName_def setFileName_def Let_def)

subsection \<open>Patterns\<close>

definition x2c :: "u8 \<Rightarrow> u8" where
  "x2c c = (if 0x30 \<le> c \<and> c \<le> 0x39 then c - 0x30
            else if 0x61 \<le> c \<and> c \<le> 0x66 then c - 0x61 + 10
            else if 0x41 \<le> c \<and> c \<le> 0x46 then c - 0x41 + 10
            else 16)"

fun hex_pairs :: "u8 list \<Rightarrow> u8 list" where
  "hex_pairs (h1 # h2 # s) = or (push_bit 4 (x2c h1)) (x2c h2) # hex_pairs s"
| "hex_pairs s = []"

text \<open>The pattern, \<open>None\<close> for the buffer that stays invalid.\<close>

definition hexToBin :: "u8 list \<Rightarrow> u8 list option" where
  "hexToBin binHex = (if length binHex < 2 then None else Some (hex_pairs binHex))"

definition hex_digit :: "u8 \<Rightarrow> u8" where
  "hex_digit n = (if n < 10 then 0x30 + n else 0x41 + (n - 10))"

definition hex_of :: "u8 list \<Rightarrow> u8 list" where
  "hex_of bs = concat (map (\<lambda>b. [hex_digit (drop_bit 4 b), hex_digit (and b 15)]) bs)"

lemma nibble_cases:
  fixes n :: u8
  assumes "n < 16"
  shows "n \<in> {0, 1, 2, 3, 4, 5, 6, 7, 8, 9, 10, 11, 12, 13, 14, 15}"
proof -
  have "unat n < 16" using assms by (simp add: word_less_nat_alt)
  then have "unat n \<in> {0, 1, 2, 3, 4, 5, 6, 7, 8, 9, 10, 11, 12, 13, 14, 15}"
    unfolding insert_iff empty_iff by arith
  then show ?thesis
    unfolding insert_iff empty_iff word_unat_eq_iff by simp
qed

lemma x2c_hex_digit: "n < 16 \<Longrightarrow> x2c (hex_digit n) = n"
  by (drule nibble_cases, elim insertE) (simp_all add: x2c_def hex_digit_def)

lemma hexToBin_hex_of: "bs \<noteq> [] \<Longrightarrow> hexToBin (hex_of bs) = Some bs"
proof -
  have hi: "drop_bit 4 b < 16" for b :: u8
  proof -
    have "unat (drop_bit 4 b) = unat b div 16" by (simp add: unat_drop_bit_eq drop_bit_eq_div unat_div)
    moreover have "unat b < 256" using unsigned_less [of b] by simp
    ultimately show ?thesis by (simp add: word_less_nat_alt)
  qed
  have lo: "and b 15 < 16" for b :: u8
    using word_and_le1 [of b 15] by (simp add: word_le_nat_alt word_less_nat_alt)
  have join: "or (push_bit 4 (drop_bit 4 b)) (and b 15) = b" for b :: u8
  proof (rule bit_word_eqI)
    fix n assume "n < LENGTH(8)"
    have m: "(15 :: u8) = mask 4" by (simp add: mask_eq_decr_exp)
    show "bit (or (push_bit 4 (drop_bit 4 b)) (and b 15)) n = bit b n"
      using \<open>n < LENGTH(8)\<close> unfolding m by (auto simp: bit_simps)
  qed
  have "hex_pairs (hex_of bs) = bs"
    by (induction bs) (simp_all add: hex_of_def x2c_hex_digit hi lo join)
  then show "bs \<noteq> [] \<Longrightarrow> hexToBin (hex_of bs) = Some bs"
    by (cases bs) (auto simp: hexToBin_def hex_of_def)
qed

subsection \<open>Searching a buffer\<close>

text \<open>The inner loop: how many bytes of the pattern match at the front of the buffer.\<close>

fun match_len :: "u8 list \<Rightarrow> u8 list \<Rightarrow> nat" where
  "match_len (b # bs) (p # ps) = (if b = p then Suc (match_len bs ps) else 0)"
| "match_len _ _ = 0"

fun contain_buffer :: "u8 list \<Rightarrow> u8 list \<Rightarrow> bool" where
  "contain_buffer [] pattern = False"
| "contain_buffer (b # bs) pattern =
     (if match_len (b # bs) pattern = length pattern then True else contain_buffer bs pattern)"

lemma match_len_prefix: "match_len bs ps = length ps \<longleftrightarrow> prefix ps bs"
  by (induction bs ps rule: match_len.induct) auto

lemma contain_buffer_sublist: "pattern \<noteq> [] \<Longrightarrow> contain_buffer bs pattern \<longleftrightarrow> sublist pattern bs"
  by (induction bs) (auto simp: match_len_prefix sublist_Cons_right)

subsection \<open>Searching a file\<close>

definition BUFFER_SIZE :: nat where "BUFFER_SIZE = 8192"

text \<open>\<open>read\<close> returning -1 is a buffer length of \<open>SIZE_MAX\<close>.\<close>

function contain_loop :: "(nat \<Rightarrow> u8 list option) \<Rightarrow> nat \<Rightarrow> u8 list \<Rightarrow> nat \<Rightarrow> bool option" where
  "contain_loop rd fileLength pattern readSum =
     (case rd readSum of
        None \<Rightarrow> None
      | Some buf \<Rightarrow>
          if length buf = 0 then Some False
          else if 2 ^ 31 \<le> readSum + length buf then None
          else let result = contain_buffer buf pattern in
            if readSum + length buf < fileLength \<and> \<not> result
            then contain_loop rd fileLength pattern (readSum + length buf)
            else Some result)"
  by pat_completeness auto
termination by (relation "measure (\<lambda>(rd, fileLength, pattern, readSum). fileLength - readSum)") (auto intro!: diff_less_mono2)

declare contain_loop.simps [simp del]

definition containBinary :: "int \<Rightarrow> (nat \<Rightarrow> u8 list option) \<Rightarrow> nat \<Rightarrow> dlp_application \<Rightarrow> bool option" where
  "containBinary fd rd fileLength a =
     (if fd < 0 then Some False
      else case hexToBin (map of_char (app_binData a)) of
          None \<Rightarrow> Some False
        | Some pattern \<Rightarrow> contain_loop rd fileLength pattern 0)"

text \<open>A regular file: every \<open>read\<close> returns the next bytes, up to the size of the buffer.\<close>

definition file_read :: "u8 list \<Rightarrow> nat \<Rightarrow> u8 list option" where
  "file_read content pos = Some (take BUFFER_SIZE (drop pos content))"

text \<open>The code searches each buffer on its own: the pattern is found exactly when one of the
  blocks of the file holds it whole.\<close>

definition in_block :: "u8 list \<Rightarrow> u8 list \<Rightarrow> nat \<Rightarrow> bool" where
  "in_block pattern content k \<longleftrightarrow> sublist pattern (take BUFFER_SIZE (drop (k * BUFFER_SIZE) content))"

lemma contain_loop_blocks:
  assumes "pattern \<noteq> []" and "length content < 2 ^ 31"
  shows "contain_loop (file_read content) (length content) pattern (k * BUFFER_SIZE) =
    Some (\<exists>j \<ge> k. in_block pattern content j)"
proof (induction "length content - k * BUFFER_SIZE" arbitrary: k rule: less_induct)
  case less
  let ?buf = "take BUFFER_SIZE (drop (k * BUFFER_SIZE) content)"
  have B: "0 < BUFFER_SIZE" by (simp add: BUFFER_SIZE_def)
  have none: "\<not> in_block pattern content j" if "length content \<le> j * BUFFER_SIZE" for j
    using that assms(1) by (simp add: in_block_def)
  show ?case
  proof (cases "length content \<le> k * BUFFER_SIZE")
    case True
    have "\<not> (\<exists>j \<ge> k. in_block pattern content j)"
      using none True by (meson le_trans mult_le_mono1)
    with True show ?thesis by (subst contain_loop.simps) (simp add: file_read_def)
  next
    case False
    then have ne: "?buf \<noteq> []" and lt: "k * BUFFER_SIZE < length content" using B by auto
    have hit: "contain_buffer ?buf pattern \<longleftrightarrow> in_block pattern content k"
      by (simp add: contain_buffer_sublist [OF assms(1)] in_block_def)
    have sum: "k * BUFFER_SIZE + length ?buf = min (length content) (Suc k * BUFFER_SIZE)"
      using lt by auto
    show ?thesis
    proof (cases "Suc k * BUFFER_SIZE < length content \<and> \<not> in_block pattern content k")
      case True
      then have s: "k * BUFFER_SIZE + length ?buf = Suc k * BUFFER_SIZE" using sum by simp
      have "contain_loop (file_read content) (length content) pattern (Suc k * BUFFER_SIZE) =
          Some (\<exists>j \<ge> Suc k. in_block pattern content j)"
        by (rule less.hyps) (use lt B in \<open>simp add: diff_less_mono2\<close>)
      moreover have "(\<exists>j \<ge> k. in_block pattern content j) \<longleftrightarrow> (\<exists>j \<ge> Suc k. in_block pattern content j)"
        using True by (metis Suc_leD le_antisym not_less_eq_eq)
      ultimately show ?thesis
        using ne hit s True assms(2)
        by (subst contain_loop.simps) (simp only: file_read_def Let_def option.case length_0_conv if_False if_True not_False_eq_True simp_thms, simp)
    next
      case False
      have "(\<exists>j \<ge> k. in_block pattern content j) \<longleftrightarrow> in_block pattern content k"
      proof (cases "in_block pattern content k")
        case no: False
        with False have "length content \<le> Suc k * BUFFER_SIZE" by simp
        then have "\<not> in_block pattern content j" if "Suc k \<le> j" for j
          using none that by (meson le_trans mult_le_mono1)
        with no show ?thesis by (metis le_antisym not_less_eq_eq)
      qed auto
      then show ?thesis
        using ne hit False sum assms(2)
        by (subst contain_loop.simps) (auto simp: file_read_def Let_def add.commute)
    qed
  qed
qed

lemma hexToBin_nonempty: "hexToBin h = Some pattern \<Longrightarrow> pattern \<noteq> []"
  by (cases h rule: hex_pairs.cases) (auto simp: hexToBin_def split: if_splits)

lemma containBinary_blocks:
  assumes "0 \<le> fd" and "hexToBin (map of_char (app_binData a)) = Some pattern"
    and "length content < 2 ^ 31"
  shows "containBinary fd (file_read content) (length content) a = Some (\<exists>k. in_block pattern content k)"
  using contain_loop_blocks [OF hexToBin_nonempty [OF assms(2)] assms(3), of 0] assms(1,2)
  by (simp add: containBinary_def)

lemma in_block_sublist: "in_block pattern content k \<Longrightarrow> sublist pattern content"
  unfolding in_block_def by (meson sublist_drop sublist_order.order_trans sublist_take)

text \<open>C37: An application is recognised by its byte pattern exactly when one of the 8192-byte blocks
  of its file, counted from the start, holds the pattern whole; so what is recognised does hold the
  pattern, and a file of at most one block is recognised exactly when it holds it.\<close>

theorem pattern_found_iff_in_block:
  assumes "0 \<le> fd" and "hexToBin (map of_char (app_binData a)) = Some pattern"
    and "length content < 2 ^ 31"
  shows "containBinary fd (file_read content) (length content) a = Some (\<exists>k. in_block pattern content k) \<and>
    ((\<exists>k. in_block pattern content k) \<longrightarrow> sublist pattern content) \<and>
    (length content \<le> BUFFER_SIZE \<longrightarrow>
      (\<exists>k. in_block pattern content k) = sublist pattern content)"
proof -
  have "in_block pattern content 0" if "length content \<le> BUFFER_SIZE" "sublist pattern content"
    using that by (simp add: in_block_def)
  then show ?thesis
    using containBinary_blocks [OF assms] in_block_sublist by blast
qed

lemma pattern_found_iff_in_block_witness:
  "containBinary 3 (file_read [0, 0x4D, 0x5A]) 3 (CDLPApplication\<lparr>app_binData := ''4D5a''\<rparr>) = Some True"
  using pattern_found_iff_in_block [of 3 "CDLPApplication\<lparr>app_binData := ''4D5a''\<rparr>"
      "[0x4D, 0x5A]" "[0, 0x4D, 0x5A]"]
  by (simp add: hexToBin_def x2c_def BUFFER_SIZE_def sublist_Cons_right numeral_3_eq_3)

text \<open>A pattern that straddles a block boundary is in the file and is not found.\<close>

theorem straddling_pattern_missed:
  "sublist [0x4D, 0x5A] (replicate 8191 0 @ [0x4D, 0x5A :: u8]) \<and>
   containBinary 3 (file_read (replicate 8191 0 @ [0x4D, 0x5A])) 8193
     (CDLPApplication\<lparr>app_binData := ''4D5A''\<rparr>) = Some False"
proof -
  let ?c = "replicate 8191 0 @ [0x4D, 0x5A :: u8]"
  have "\<not> in_block [0x4D, 0x5A] ?c k" for k
  proof (cases k)
    case 0
    have "\<not> sublist [0x4D, 0x5A] (replicate n 0 @ [0x4D :: u8])" for n
      by (induction n) (auto simp: sublist_Cons_right)
    then show ?thesis using 0 by (simp add: in_block_def BUFFER_SIZE_def)
  next
    case (Suc j)
    then have "length (drop (k * BUFFER_SIZE) ?c) \<le> 1" by (simp add: BUFFER_SIZE_def)
    then have "length (take BUFFER_SIZE (drop (k * BUFFER_SIZE) ?c)) < length [0x4D, 0x5A :: u8]"
      by simp
    then show ?thesis unfolding in_block_def by (meson sublist_length_le not_less)
  qed
  then show ?thesis
    using containBinary_blocks [of 3 "CDLPApplication\<lparr>app_binData := ''4D5A''\<rparr>" "[0x4D, 0x5A]" ?c]
    by (simp add: hexToBin_def x2c_def)
qed

end
