(* ===== verification/DlpPolicy.thy ===== *)
theory DlpPolicy
  imports SecRule DlpApplication
begin

text \<open>
  The policies (\<open>PISupervisor/common/src/DLPPolicy.cpp\<close>): what each class keeps, the device rule
  it makes of its controls, and the operations on approvals and logs. Inheritance is record
  extension for the log classes; a policy is the record of \<open>CDLPPolicy\<close> with the part of its
  class in \<open>p_class\<close>. Enumerations are the integers the sources cast them from.
\<close>

named_theorems dlp "constants of nsPISecObject"

definition dlptypePreventPlus :: int where [dlp]: "dlptypePreventPlus = 1"
definition dlptypeControl :: int where [dlp]: "dlptypeControl = 2"
definition dlpsubtypeNone :: int where [dlp]: "dlpsubtypeNone = 0"
definition dlpsubtypeCopyPreventPlus :: int where [dlp]: "dlpsubtypeCopyPreventPlus = 0x01"
definition dlpsubtypeMediaControl :: int where [dlp]: "dlpsubtypeMediaControl = 0x06"
definition dlpsubtypeApplicationPreventPlus :: int where [dlp]: "dlpsubtypeApplicationPreventPlus = 0x08"
definition dlpsubtypePrintPreventPlus :: int where [dlp]: "dlpsubtypePrintPreventPlus = 0x10"
definition dlpsubtypeUploadPreventPlus :: int where [dlp]: "dlpsubtypeUploadPreventPlus = 0x20"
definition dlpsubtypeClipboardPreventPlus :: int where [dlp]: "dlpsubtypeClipboardPreventPlus = 0x40"
definition dlpsubtypeSharedFolderPreventPlus :: int where [dlp]: "dlpsubtypeSharedFolderPreventPlus = 0x100"
definition dlpsubtypePCSecurity :: int where [dlp]: "dlpsubtypePCSecurity = 0x200"
definition dlpsubtypeCopyExPreventPlus :: int where [dlp]: "dlpsubtypeCopyExPreventPlus = 0x400"
definition inspectionNoInspect :: int where [dlp]: "inspectionNoInspect = 0"
definition inspectionRunInspect :: int where [dlp]: "inspectionRunInspect = 1"
definition controlAllow :: int where [dlp]: "controlAllow = 0"
definition controlBlock :: int where [dlp]: "controlBlock = 1"
definition controlApproval :: int where [dlp]: "controlApproval = 2"
definition logNone :: int where [dlp]: "logNone = 0"
definition logAll :: int where [dlp]: "logAll = 1"
definition logConditional :: int where [dlp]: "logConditional = 2"
definition logConditionNone :: u32 where [dlp]: "logConditionNone = 0"
definition logConditionNotFound :: u32 where [dlp]: "logConditionNotFound = 0x01"
definition logConditionFound :: u32 where [dlp]: "logConditionFound = 0x02"
definition logConditionApproval :: u32 where [dlp]: "logConditionApproval = 0x04"
definition logConditionAll :: u32 where [dlp]: "logConditionAll = 0x07"
definition etcstorageBlockNetDrive :: u32 where [dlp]: "etcstorageBlockNetDrive = 0x0001"
definition etcstorageBlockCDDVDWrite :: u32 where [dlp]: "etcstorageBlockCDDVDWrite = 0x0002"
definition etcstorageBlockCDDVDRead :: u32 where [dlp]: "etcstorageBlockCDDVDRead = 0x0004"
definition etcstorageBlockFloppyWrite :: u32 where [dlp]: "etcstorageBlockFloppyWrite = 0x0008"
definition etcstorageBlockFloppyRead :: u32 where [dlp]: "etcstorageBlockFloppyRead = 0x0010"
definition etcstorageBlockRemovableWrite :: u32 where [dlp]: "etcstorageBlockRemovableWrite = 0x0020"
definition etcstorageBlockRemovableRead :: u32 where [dlp]: "etcstorageBlockRemovableRead = 0x0040"
definition commdeviceBlockWLAN :: u32 where [dlp]: "commdeviceBlockWLAN = 0x0001"
definition commdeviceBlockWWAN :: u32 where [dlp]: "commdeviceBlockWWAN = 0x0002"
definition commdeviceBlockSerial :: u32 where [dlp]: "commdeviceBlockSerial = 0x0004"
definition commdeviceBlockParallel :: u32 where [dlp]: "commdeviceBlockParallel = 0x0008"
definition commdeviceBlockBluetooth :: u32 where [dlp]: "commdeviceBlockBluetooth = 0x0010"
definition commdeviceBlockIRDA :: u32 where [dlp]: "commdeviceBlockIRDA = 0x0020"
definition commdeviceBlockIEEE1394 :: u32 where [dlp]: "commdeviceBlockIEEE1394 = 0x0040"
definition commdeviceBlockUSBMobile :: u32 where [dlp]: "commdeviceBlockUSBMobile = 0x0080"
definition commdeviceBlockCamera :: u32 where [dlp]: "commdeviceBlockCamera = 0x0200"
definition commdeviceBlockFileSharing :: u32 where [dlp]: "commdeviceBlockFileSharing = 0x0400"
definition commdeviceBlockRemoteManagement :: u32 where [dlp]: "commdeviceBlockRemoteManagement = 0x0800"
definition commdeviceBlockAirDrop :: u32 where [dlp]: "commdeviceBlockAirDrop = 0x1000"

subsection \<open>Prevent+ controls and logs\<close>

record log_parent =
  lp_use :: bool
  lp_isConditional :: bool
  lp_condition :: u32

record save_file_copy = log_parent +
  maxLimit :: int
  maxLimitUse :: bool

record pp_log = log_parent +
  saveFileCopy :: save_file_copy

definition clear_save_file_copy :: save_file_copy where
  "clear_save_file_copy = \<lparr>lp_use = False, lp_isConditional = False,
     lp_condition = logConditionNone, maxLimit = 0, maxLimitUse = False\<rparr>"

definition clear_pp_log :: pp_log where
  "clear_pp_log = \<lparr>lp_use = False, lp_isConditional = False, lp_condition = logConditionNone,
     saveFileCopy = clear_save_file_copy\<rparr>"

definition lp_setType :: "string \<Rightarrow> 'a log_parent_scheme \<Rightarrow> 'a log_parent_scheme" where
  "lp_setType type l =
     (if type = ''all'' then l\<lparr>lp_isConditional := False\<rparr>
      else if type = ''conditional'' then l\<lparr>lp_isConditional := True\<rparr>
      else l\<lparr>lp_isConditional := False\<rparr>)"

definition lp_setUse :: "string \<Rightarrow> 'a log_parent_scheme \<Rightarrow> 'a log_parent_scheme" where
  "lp_setUse value l = l\<lparr>lp_use := getValueAsBool value\<rparr>"

text \<open>An unknown type clears the conditions gathered so far.\<close>

definition lp_addCondition :: "string \<Rightarrow> 'a log_parent_scheme \<Rightarrow> 'a log_parent_scheme" where
  "lp_addCondition type l =
     (if type = ''inspect_notfound'' then l\<lparr>lp_condition := or (lp_condition l) logConditionNotFound\<rparr>
      else if type = ''inspect_found'' then l\<lparr>lp_condition := or (lp_condition l) logConditionFound\<rparr>
      else if type = ''approval_allow'' then l\<lparr>lp_condition := or (lp_condition l) logConditionApproval\<rparr>
      else l\<lparr>lp_condition := logConditionNone\<rparr>)"

record pp_controls =
  ct_type :: int
  ct_targetFile :: int
  ct_noInspect :: int
  ct_found :: int
  ct_notFound :: int

definition clear_pp_controls :: pp_controls where
  "clear_pp_controls = \<lparr>ct_type = inspectionNoInspect, ct_targetFile = 0,
     ct_noInspect = controlAllow, ct_found = controlAllow, ct_notFound = controlAllow\<rparr>"

definition ct_setType :: "string \<Rightarrow> pp_controls \<Rightarrow> pp_controls" where
  "ct_setType type c =
     c\<lparr>ct_type := (if type = ''inspect'' then inspectionRunInspect else inspectionNoInspect)\<rparr>"

definition ct_setTargetFile :: "string \<Rightarrow> pp_controls \<Rightarrow> pp_controls" where
  "ct_setTargetFile f c = c\<lparr>ct_targetFile := (if f = ''all'' then 0 else 1)\<rparr>"

definition control_of :: "string \<Rightarrow> int" where
  "control_of type = (if type = ''allow'' then controlAllow else if type = ''block'' then controlBlock
     else if type = ''approval'' then controlApproval else controlAllow)"

definition ct_setControl :: "string \<Rightarrow> string \<Rightarrow> pp_controls \<Rightarrow> pp_controls" where
  "ct_setControl type inspect c =
     (if inspect = ''none'' then c\<lparr>ct_noInspect := control_of type\<rparr>
      else if inspect = ''found'' then c\<lparr>ct_found := control_of type\<rparr>
      else if inspect = ''not_found'' then c\<lparr>ct_notFound := control_of type\<rparr>
      else c)"

record prevent_plus =
  pp_controls :: pp_controls
  blockLog :: pp_log
  allowLog :: pp_log
  pp_notify :: int

definition clear_prevent_plus :: prevent_plus where
  "clear_prevent_plus = \<lparr>pp_controls = clear_pp_controls, blockLog = clear_pp_log,
     allowLog = clear_pp_log, pp_notify = 0\<rparr>"

definition notify_of :: "string \<Rightarrow> int" where
  "notify_of n = (if n = ''none'' then 0 else if n = ''always'' then 1 else if n = ''block'' then 2 else 0)"

definition setNotify :: "string \<Rightarrow> prevent_plus \<Rightarrow> prevent_plus" where
  "setNotify n p = p\<lparr>pp_notify := notify_of n\<rparr>"

text \<open>A log condition moves from the log of allowed files to the log of blocked ones.\<close>

definition move_condition :: "u32 \<Rightarrow> prevent_plus \<Rightarrow> prevent_plus" where
  "move_condition c p =
     (if and c (lp_condition (allowLog p)) \<noteq> 0
      then p\<lparr>allowLog := (allowLog p)\<lparr>lp_condition := and (lp_condition (allowLog p)) (not c),
               saveFileCopy := (saveFileCopy (allowLog p))\<lparr>lp_condition :=
                 and (lp_condition (saveFileCopy (allowLog p))) (not c)\<rparr>\<rparr>,
             blockLog := (blockLog p)\<lparr>lp_condition := or (lp_condition (blockLog p)) c\<rparr>\<rparr>
      else p)"

definition pp_changeControlApprovalToBlock :: "prevent_plus \<Rightarrow> prevent_plus" where
  "pp_changeControlApprovalToBlock p =
     (if ct_type (pp_controls p) = inspectionNoInspect then
        (if ct_noInspect (pp_controls p) = controlApproval
         then move_condition logConditionAll
                (p\<lparr>pp_controls := (pp_controls p)\<lparr>ct_noInspect := controlBlock\<rparr>\<rparr>)
         else p)
      else if ct_type (pp_controls p) = inspectionRunInspect then
        (let p1 = (if ct_found (pp_controls p) = controlApproval
              then move_condition logConditionFound
                     (p\<lparr>pp_controls := (pp_controls p)\<lparr>ct_found := controlBlock\<rparr>\<rparr>)
              else p)
         in if ct_notFound (pp_controls p1) = controlApproval
            then move_condition logConditionNotFound
                   (p1\<lparr>pp_controls := (pp_controls p1)\<lparr>ct_notFound := controlBlock\<rparr>\<rparr>)
            else p1)
      else p)"

subsection \<open>The controls of the extended copy policy\<close>

record dlp_log_base =
  lb_use :: bool
  lb_type :: int
  lb_condition :: u32

record dlp_file_copy = dlp_log_base +
  fc_maxUse :: bool
  fc_maxLimit :: int

record dlp_log = dlp_log_base +
  fileCopy :: dlp_file_copy

record dlp_logs =
  logs_block :: dlp_log
  logs_allow :: dlp_log

record control_count =
  cc_block :: nat
  cc_allow :: nat
  cc_approval :: nat

record dlp_control =
  inspectOption :: int
  targetFile :: int
  noInspect :: int
  found :: int
  notFound :: int
  purpose :: int

record usb_drive_control =
  selectType :: int
  readPermit :: bool

record copy_control =
  usbDriveControl :: usb_drive_control
  controls :: "dlp_control list"
  logs :: dlp_logs

definition CDLPFileCopy :: dlp_file_copy where
  "CDLPFileCopy = \<lparr>lb_use = False, lb_type = logNone, lb_condition = 0, fc_maxUse = False, fc_maxLimit = 0\<rparr>"

definition CDLPLog :: dlp_log where
  "CDLPLog = \<lparr>lb_use = False, lb_type = logNone, lb_condition = 0, fileCopy = CDLPFileCopy\<rparr>"

definition CDLPLogs :: dlp_logs where
  "CDLPLogs = \<lparr>logs_block = CDLPLog, logs_allow = CDLPLog\<rparr>"

definition CDLPControlCount :: control_count where
  "CDLPControlCount = \<lparr>cc_block = 0, cc_allow = 0, cc_approval = 0\<rparr>"

definition CDLPControl :: dlp_control where
  "CDLPControl = \<lparr>inspectOption = inspectionNoInspect, targetFile = 0, noInspect = controlAllow,
     found = controlAllow, notFound = controlAllow, purpose = 0\<rparr>"

definition SELECT_ALL :: int where [dlp]: "SELECT_ALL = -1"
definition SELECTED :: int where [dlp]: "SELECTED = 1"

definition CDLPUSBDriveControl :: usb_drive_control where
  "CDLPUSBDriveControl = \<lparr>selectType = SELECT_ALL, readPermit = True\<rparr>"

definition CDLPCopyControl :: copy_control where
  "CDLPCopyControl = \<lparr>usbDriveControl = CDLPUSBDriveControl, controls = [], logs = CDLPLogs\<rparr>"

definition logbase_getType :: "string \<Rightarrow> int" where
  "logbase_getType v = (if v = ''all'' then logAll else if v = ''conditional'' then logConditional else logNone)"

definition logbase_getCondition :: "string \<Rightarrow> u32" where
  "logbase_getCondition v =
     (if v = ''inspect_notfound'' then logConditionNotFound
      else if v = ''inspect_found'' then logConditionFound
      else if v = ''approval_allow'' then logConditionApproval else logConditionNotFound)"

definition addCondition :: "u32 \<Rightarrow> 'a dlp_log_base_scheme \<Rightarrow> 'a dlp_log_base_scheme" where
  "addCondition flag l = l\<lparr>lb_condition := or (lb_condition l) flag\<rparr>"

definition removeCondition :: "u32 \<Rightarrow> 'a dlp_log_base_scheme \<Rightarrow> 'a dlp_log_base_scheme" where
  "removeCondition flag l = l\<lparr>lb_condition := and (lb_condition l) (not flag)\<rparr>"

definition set_log :: "int \<Rightarrow> bool \<Rightarrow> 'a dlp_log_base_scheme \<Rightarrow> 'a dlp_log_base_scheme" where
  "set_log type use l = l\<lparr>lb_type := type, lb_use := use\<rparr>"

text \<open>The log of allowed files and its file copies, switched off.\<close>

definition allow_off :: "dlp_logs \<Rightarrow> dlp_logs" where
  "allow_off g = g\<lparr>logs_allow := (set_log logNone False (logs_allow g))\<lparr>
     fileCopy := set_log logNone False (fileCopy (logs_allow g))\<rparr>\<rparr>"

definition hasLogEnable :: "dlp_logs \<Rightarrow> bool" where
  "hasLogEnable g \<longleftrightarrow> lb_use (logs_allow g) \<or> lb_use (logs_block g)"

definition logs_isSaveLogAny :: "dlp_logs \<Rightarrow> bool" where
  "logs_isSaveLogAny g \<longleftrightarrow> lb_use (logs_block g) \<or> lb_use (logs_allow g)"

definition validateWithNoInspect :: "control_count \<Rightarrow> control_count \<Rightarrow> dlp_logs \<Rightarrow> dlp_logs" where
  "validateWithNoInspect before after g =
     (if lb_type (logs_allow g) = logNone then g
      else if 0 < cc_approval before \<and> cc_approval after = 0 then
        (let g1 = (if lb_type (logs_block g) = logNone
              then g\<lparr>logs_block := set_log logAll True (logs_block g)\<rparr> else g)
         in if cc_allow after = 0 then allow_off g1 else g1)
      else g)"

text \<open>\<open>validateWithFound\<close> and \<open>validateWithNotFound\<close> are the same code for two conditions.\<close>

definition validate_with :: "u32 \<Rightarrow> control_count \<Rightarrow> control_count \<Rightarrow> dlp_logs \<Rightarrow> dlp_logs" where
  "validate_with c before after g =
     (if lb_type (logs_allow g) \<noteq> logConditional then g
      else if \<not> 0 < cc_approval before \<or> cc_approval after \<noteq> 0 then g
      else if and c (lb_condition (logs_allow g)) = 0 then g
      else
        (let g1 =
          (if lb_type (logs_block g) = logConditional then
             (if and c (lb_condition (logs_block g)) = 0
              then g\<lparr>logs_block := addCondition c (logs_block g)\<rparr> else g)
           else if lb_type (logs_block g) = logNone then
             g\<lparr>logs_block := set_log logConditional True (addCondition c (logs_block g))\<rparr>
           else g)
         in if cc_allow after \<noteq> 0 then g1
            else
              (let g2 = g1\<lparr>logs_allow := (removeCondition c (logs_allow g1))\<lparr>
                     fileCopy := removeCondition c (fileCopy (logs_allow g1))\<rparr>\<rparr>
               in if lb_condition (logs_allow g2) \<noteq> 0 then g2 else allow_off g2)))"

definition validateWithFound :: "control_count \<Rightarrow> control_count \<Rightarrow> dlp_logs \<Rightarrow> dlp_logs" where
  "validateWithFound = validate_with logConditionFound"

definition validateWithNotFound :: "control_count \<Rightarrow> control_count \<Rightarrow> dlp_logs \<Rightarrow> dlp_logs" where
  "validateWithNotFound = validate_with logConditionNotFound"

text \<open>The counts of found, not found and not inspected files.\<close>

type_synonym counts = "control_count \<times> control_count \<times> control_count"

definition logs_validate :: "int \<Rightarrow> counts \<Rightarrow> counts \<Rightarrow> dlp_logs \<Rightarrow> dlp_logs" where
  "logs_validate opt before after g =
     (case (before, after) of ((fb, nb, ib), (fa, na, ia)) \<Rightarrow>
        if opt = inspectionNoInspect then validateWithNoInspect ib ia g
        else if opt = inspectionRunInspect then validateWithNotFound nb na (validateWithFound fb fa g)
        else g)"

subsection \<open>Controls\<close>

text \<open>\<open>setControlType\<close> compares \<open>inspect\<close> with the names of control types and stores approval as
  block.\<close>

definition setControlType :: "string \<Rightarrow> string \<Rightarrow> dlp_control \<Rightarrow> dlp_control" where
  "setControlType inspect type c =
     (let control = (if type = ''allow'' then controlAllow
            else if type = ''block'' then controlBlock
            else if type = ''approval'' then controlBlock else controlAllow)
      in if inspect = ''allow'' then c\<lparr>noInspect := control\<rparr>
         else if inspect = ''block'' then c\<lparr>found := control\<rparr>
         else if inspect = ''approval'' then c\<lparr>notFound := control\<rparr>
         else c)"

definition getTargetFile :: "string \<Rightarrow> int" where
  "getTargetFile v = (if v = ''all'' then 0 else if v = ''found'' then 1 else 0)"

definition getInspectOption :: "string \<Rightarrow> int" where
  "getInspectOption v = (if v = ''none'' then inspectionNoInspect
     else if v = ''inspect'' then inspectionRunInspect else inspectionNoInspect)"

definition control_hasBlockOrApproval :: "dlp_control \<Rightarrow> bool" where
  "control_hasBlockOrApproval c \<longleftrightarrow>
     (if inspectOption c = inspectionNoInspect then noInspect c \<noteq> controlAllow
      else if inspectOption c = inspectionRunInspect
      then found c \<noteq> controlAllow \<or> notFound c \<noteq> controlAllow
      else False)"

text \<open>The second test is about \<open>found\<close> again.\<close>

definition control_changeApproval :: "dlp_control \<Rightarrow> dlp_control" where
  "control_changeApproval c =
     (if inspectOption c = inspectionNoInspect then
        (if noInspect c = controlApproval then c\<lparr>noInspect := controlBlock\<rparr> else c)
      else if inspectOption c = inspectionRunInspect then
        (let c1 = (if found c = controlApproval then c\<lparr>found := controlBlock\<rparr> else c)
         in if found c1 = controlApproval then c1\<lparr>found := controlBlock\<rparr> else c1)
      else c)"

definition count_control :: "int \<Rightarrow> control_count \<Rightarrow> control_count" where
  "count_control ctl n =
     (if ctl = controlBlock then n\<lparr>cc_block := cc_block n + 1\<rparr>
      else if ctl = controlAllow then n\<lparr>cc_allow := cc_allow n + 1\<rparr>
      else if ctl = controlApproval then n\<lparr>cc_approval := cc_approval n + 1\<rparr>
      else n)"

definition control_getCount :: "dlp_control \<Rightarrow> counts \<Rightarrow> counts" where
  "control_getCount c n =
     (case n of (f, nf, ni) \<Rightarrow>
        if inspectOption c = inspectionNoInspect then (f, nf, count_control (noInspect c) ni)
        else if inspectOption c = inspectionRunInspect
        then (count_control (found c) f, count_control (notFound c) nf, ni)
        else n)"

definition copy_getCount :: "copy_control \<Rightarrow> counts \<Rightarrow> counts" where
  "copy_getCount cc n = fold control_getCount (controls cc) n"

definition copy_hasBlockOrApproval :: "copy_control \<Rightarrow> bool" where
  "copy_hasBlockOrApproval cc = list_ex control_hasBlockOrApproval (controls cc)"

definition no_counts :: counts where
  "no_counts = (CDLPControlCount, CDLPControlCount, CDLPControlCount)"

text \<open>The inspection option of the last control decides which logs are adjusted.\<close>

definition copy_changeApproval :: "copy_control \<Rightarrow> bool \<times> copy_control" where
  "copy_changeApproval cc =
     (if length (controls cc) = 0 then (False, cc)
      else
        (let before = (if hasLogEnable (logs cc) then copy_getCount cc no_counts else no_counts);
             cc1 = cc\<lparr>controls := map control_changeApproval (controls cc)\<rparr>;
             opt = inspectOption (last (controls cc1))
         in if hasLogEnable (logs cc1)
            then (True, cc1\<lparr>logs := logs_validate opt before (copy_getCount cc1 no_counts) (logs cc1)\<rparr>)
            else (True, cc1)))"

text \<open>The list of controls, one per kind of drive.\<close>

definition controls_hasBlockOrApproval :: "copy_control list \<Rightarrow> bool" where
  "controls_hasBlockOrApproval l = list_ex copy_hasBlockOrApproval l"

definition controls_changeApproval :: "copy_control list \<Rightarrow> bool \<times> copy_control list" where
  "controls_changeApproval l =
     (if length l = 0 then (False, l) else (True, map (snd \<circ> copy_changeApproval) l))"

definition controls_isBlockReadAll :: "copy_control list \<Rightarrow> bool" where
  "controls_isBlockReadAll l =
     (case l of [c] \<Rightarrow>
        (if selectType (usbDriveControl c) = SELECT_ALL then \<not> readPermit (usbDriveControl c) else False)
      | _ \<Rightarrow> False)"

definition controls_isSaveLogAny :: "copy_control list \<Rightarrow> bool" where
  "controls_isSaveLogAny l = list_ex (logs_isSaveLogAny \<circ> logs) l"

text \<open>The control of a drive, by whether the drive is registered: the drive's registered guid is
  the argument, \<open>None\<close> for a null pointer.\<close>

definition controls_getDLPCopyControl :: "string option \<Rightarrow> copy_control list \<Rightarrow> copy_control option" where
  "controls_getDLPCopyControl usbDrive l =
     (if length l = 0 then None
      else
        (let selected = (case usbDrive of None \<Rightarrow> False | Some guid \<Rightarrow> 0 < length guid)
         in List.find (\<lambda>c. if selected then selectType (usbDriveControl c) = SELECTED
              else selectType (usbDriveControl c) \<noteq> SELECTED) l))"

subsection \<open>The device rule of a policy\<close>

text \<open>\<open>CDLPPolicy::addDeviceRule\<close> with its last three arguments, -1 the default of \<open>reserved1\<close>.\<close>

definition base_addDeviceRule :: "string \<Rightarrow> bool \<Rightarrow> bool \<Rightarrow> bool \<Rightarrow> bool \<Rightarrow> bool \<Rightarrow> bool \<Rightarrow> int
    \<Rightarrow> sec_rule \<Rightarrow> sec_rule" where
  "base_addDeviceRule vt all read write log disbleSmartInspect bt r1 rule =
     (let r = (rule_clear rule)\<lparr>virtualType := vt, disableAll := all, disableRead := read,
            disableWrite := write, enableLog := log, blockSelectedBluetooth := bt, reserved1 := r1\<rparr>
      in if disbleSmartInspect then r\<lparr>reserved1 := 1\<rparr> else r)"

record media_part =
  controlEtcStorage :: u32
  controlCommDevice :: u32
  m_blockLog :: bool
  m_wlanPermit :: "string list"
  m_usbMobilePermit :: "mb_permit list"
  m_removablePermit :: "mb_permit list"
  m_removableAllowType :: int
  ruleList :: "sec_rule list"
  m_bBlockSelectedBluetooth :: bool

definition etc_bit :: "u32 \<Rightarrow> media_part \<Rightarrow> bool" where
  "etc_bit b m \<longleftrightarrow> and b (controlEtcStorage m) \<noteq> 0"

definition comm_bit :: "u32 \<Rightarrow> media_part \<Rightarrow> bool" where
  "comm_bit b m \<longleftrightarrow> and b (controlCommDevice m) \<noteq> 0"

text \<open>The rules under construction: the policy's rule and the list so far.\<close>

type_synonym rules = "sec_rule \<times> sec_rule list"

definition upd_rule :: "(sec_rule \<Rightarrow> sec_rule) \<Rightarrow> rules \<Rightarrow> rules" where
  "upd_rule f s = (f (fst s), snd s)"

definition push_rule :: "rules \<Rightarrow> rules" where
  "push_rule s = (fst s, snd s @ [fst s])"

definition media_add :: "media_part \<Rightarrow> bool \<Rightarrow> string \<Rightarrow> rules \<Rightarrow> rules" where
  "media_add m block vt s =
     push_rule (upd_rule (base_addDeviceRule vt block block block (m_blockLog m) False False (-1)) s)"

text \<open>The permit lists of \<open>NDIS\<close> and \<open>USBMobile\<close> are set after their rules are in the list.\<close>

definition media_addDeviceRule :: "media_part \<Rightarrow> sec_rule \<Rightarrow> rules" where
  "media_addDeviceRule m rule0 =
     (let lg = m_blockLog m;
          s0 = (rule0, []);
          s1 = media_add m (etc_bit etcstorageBlockNetDrive m) Drive_NetDrive s0;
          cdRead = etc_bit etcstorageBlockCDDVDRead m;
          cdWrite = etc_bit etcstorageBlockCDDVDWrite m;
          s2 = push_rule (upd_rule (base_addDeviceRule Drive_CDDVD False cdRead cdWrite lg False False (-1)) s1);
          s3 = (if cdWrite
                then push_rule (upd_rule (base_addDeviceRule Device_CDDVD False False True lg False False (-1)) s2)
                else s2);
          rmRead = etc_bit etcstorageBlockRemovableRead m;
          rmWrite = etc_bit etcstorageBlockRemovableWrite m;
          s4 = upd_rule (base_addDeviceRule Drive_Removable False rmRead rmWrite lg rmWrite False 1) s3;
          s5 = upd_rule (snd \<circ> setRemovableDrivePermitList (m_removablePermit m)) s4;
          s6 = push_rule (upd_rule (\<lambda>r. r\<lparr>nRemovableDrivePermitAllowControlType := m_removableAllowType m\<rparr>) s5);
          flRead = etc_bit etcstorageBlockFloppyRead m;
          flWrite = etc_bit etcstorageBlockFloppyWrite m;
          s7 = push_rule (upd_rule (base_addDeviceRule Drive_Floppy False flRead flWrite lg False False (-1)) s6);
          s8 = media_add m (comm_bit commdeviceBlockWLAN m) NDIS_WLAN s7;
          s9 = upd_rule (snd \<circ> setWLanPermitList (m_wlanPermit m)) s8;
          s10 = media_add m (comm_bit commdeviceBlockWWAN m) NDIS_WWAN s9;
          s11 = (if comm_bit commdeviceBlockBluetooth m
                 then push_rule (upd_rule (base_addDeviceRule Device_Bluetooth True True True lg
                        (m_bBlockSelectedBluetooth m) (m_bBlockSelectedBluetooth m) (-1)) s10)
                 else s10);
          s12 = media_add m (comm_bit commdeviceBlockIRDA m) Device_Infrared s11;
          s13 = media_add m (comm_bit commdeviceBlockSerial m) Device_Serial s12;
          s14 = media_add m (comm_bit commdeviceBlockParallel m) Device_Parallel s13;
          s15 = media_add m (comm_bit commdeviceBlockParallel m) Device_Printer s14;
          s16 = media_add m (comm_bit commdeviceBlockIEEE1394 m) Device_IEEE1394 s15;
          s17 = media_add m (comm_bit commdeviceBlockUSBMobile m) Device_USBMobile s16;
          s18 = upd_rule (snd \<circ> setUSBMobilePermitList (m_usbMobilePermit m)) s17;
          s19 = media_add m (comm_bit commdeviceBlockCamera m) Device_Camera s18;
          s20 = media_add m (comm_bit commdeviceBlockFileSharing m) Share_FileSharing s19;
          s21 = media_add m (comm_bit commdeviceBlockRemoteManagement m) Share_RemoteManagement s20
      in media_add m (comm_bit commdeviceBlockAirDrop m) Share_AirDrop s21)"

definition media_getControl :: "int \<Rightarrow> u32 \<Rightarrow> media_part \<Rightarrow> bool" where
  "media_getControl deviceType control m =
     (if deviceType = 2 then etc_bit control m else if deviceType = 4 then comm_bit control m else False)"

definition media_validateDeviceRule :: "bool \<Rightarrow> bool \<Rightarrow> media_part \<Rightarrow> media_part" where
  "media_validateDeviceRule copy sharedFolder m =
     m\<lparr>ruleList := filter (\<lambda>r. \<not> (copy \<and> virtualType r = Drive_Removable) \<and>
                               \<not> (sharedFolder \<and> virtualType r = Drive_NetDrive)) (ruleList m)\<rparr>"

subsection \<open>Policies\<close>

record copy_part =
  warningOnFileCopy :: bool
  mediaPermitType :: int
  mediaGuidList :: "string list"

record copyex_part =
  copyControls :: "copy_control list"
  ex_notify :: int
  ex_warning :: bool
  ex_permitType :: int
  ex_guids :: "string list"

record print_part =
  warningOnPrint :: bool
  showSerialNumber :: bool
  saveCopyFoundPage :: bool
  patternMaskingUse :: bool
  useWatermark :: bool
  watermarkFile :: int
  differentWatermark :: bool

record application_part =
  execControlBlockLog :: bool
  applicationList :: "dlp_application list"
  controlCount :: nat
  controlWindowsExecutableCount :: nat
  preventCount :: nat
  preventWindowsExecutableCount :: nat

record share_folder =
  sf_blockAll :: bool
  sf_blockEveryOne :: bool
  sf_blockDefault :: bool
  sf_checkInterval :: int

datatype policy_class =
    PolicyCopy prevent_plus copy_part
  | PolicyCopyEx prevent_plus copy_part copyex_part
  | PolicyUpload prevent_plus
  | PolicyPrint prevent_plus print_part
  | PolicyApplication prevent_plus application_part
  | PolicyClipboard prevent_plus "dlp_application list"
  | PolicySharedFolderCopy prevent_plus
  | PolicyMedia media_part
  | PolicyPCSecurity share_folder

record dlp_policy =
  p_dlpType :: int
  p_dlpSubType :: int
  p_guid :: string
  p_name :: string
  p_use :: bool
  p_revision :: int
  p_virtualType :: string
  p_enableDeviceRule :: bool
  p_rule :: sec_rule
  p_class :: policy_class

text \<open>\<open>dynamic_cast\<close>.\<close>

fun as_PreventPlus :: "policy_class \<Rightarrow> prevent_plus option" where
  "as_PreventPlus (PolicyCopy pp _) = Some pp"
| "as_PreventPlus (PolicyCopyEx pp _ _) = Some pp"
| "as_PreventPlus (PolicyUpload pp) = Some pp"
| "as_PreventPlus (PolicyPrint pp _) = Some pp"
| "as_PreventPlus (PolicyApplication pp _) = Some pp"
| "as_PreventPlus (PolicyClipboard pp _) = Some pp"
| "as_PreventPlus (PolicySharedFolderCopy pp) = Some pp"
| "as_PreventPlus (PolicyMedia _) = None"
| "as_PreventPlus (PolicyPCSecurity _) = None"

fun as_Media :: "policy_class \<Rightarrow> media_part option" where
  "as_Media (PolicyMedia m) = Some m"
| "as_Media _ = None"

text \<open>The virtual \<open>addDeviceRule\<close>. \<open>CDLPPolicyPCSecurity\<close> inherits the empty one.\<close>

definition copy_blocksWrite :: "pp_controls \<Rightarrow> bool" where
  "copy_blocksWrite c =
     (if ct_type c = inspectionRunInspect
      then ct_found c \<noteq> controlAllow \<or> ct_notFound c \<noteq> controlAllow
      else ct_noInspect c \<noteq> controlAllow)"

definition pp_rule :: "prevent_plus \<Rightarrow> dlp_policy \<Rightarrow> dlp_policy" where
  "pp_rule pp p = p\<lparr>p_rule := base_addDeviceRule (p_virtualType p) False False True
     (lp_use (blockLog pp)) False False (-1) (p_rule p)\<rparr>"

definition addDeviceRule :: "bool \<Rightarrow> dlp_policy \<Rightarrow> dlp_policy" where
  "addDeviceRule blockWriteAll p =
     (case p_class p of
        PolicyCopy pp c \<Rightarrow>
          (if blockWriteAll
           then p\<lparr>p_rule := base_addDeviceRule (p_virtualType p) False False
                  (copy_blocksWrite (pp_controls pp)) (lp_use (blockLog pp))
                  (copy_blocksWrite (pp_controls pp)) False (-1) (p_rule p)\<rparr>
           else p\<lparr>p_rule := base_addDeviceRule (p_virtualType p) False False True
                  (lp_use (blockLog pp)) False False (-1) (p_rule p)\<rparr>)
      | PolicyCopyEx pp c ex \<Rightarrow>
          (let blockRead = controls_isBlockReadAll (copyControls ex) in
           if blockWriteAll
           then p\<lparr>p_rule := base_addDeviceRule (p_virtualType p) False blockRead
                  (controls_hasBlockOrApproval (copyControls ex))
                  (controls_isSaveLogAny (copyControls ex)) blockWriteAll False (-1) (p_rule p)\<rparr>
           else p\<lparr>p_rule := base_addDeviceRule (p_virtualType p) False blockRead True
                  (controls_isSaveLogAny (copyControls ex)) False False (-1) (p_rule p)\<rparr>)
      | PolicyUpload pp \<Rightarrow> pp_rule pp p
      | PolicyPrint pp _ \<Rightarrow> pp_rule pp p
      | PolicyApplication pp a \<Rightarrow>
          p\<lparr>p_rule := base_addDeviceRule (p_virtualType p) True True True (execControlBlockLog a)
             False False (-1) (p_rule p)\<rparr>
      | PolicyClipboard pp _ \<Rightarrow> pp_rule pp p
      | PolicySharedFolderCopy pp \<Rightarrow> pp_rule pp p
      | PolicyMedia m \<Rightarrow>
          (case media_addDeviceRule m (p_rule p) of
             (r, l) \<Rightarrow> p\<lparr>p_rule := r, p_class := PolicyMedia (m\<lparr>ruleList := l\<rparr>)\<rparr>)
      | PolicyPCSecurity _ \<Rightarrow> p)"

definition policy_isEnableBlockLog :: "dlp_policy \<Rightarrow> bool" where
  "policy_isEnableBlockLog p =
     (case p_class p of
        PolicyMedia m \<Rightarrow> m_blockLog m
      | PolicyApplication pp a \<Rightarrow> execControlBlockLog a \<or> lp_use (blockLog pp)
      | PolicyPCSecurity _ \<Rightarrow> False
      | c \<Rightarrow> (case as_PreventPlus c of Some pp \<Rightarrow> lp_use (blockLog pp) | None \<Rightarrow> False))"

text \<open>\<open>changeControlApprovalToBlock\<close> is virtual: \<open>CDLPPolicyCopyEx\<close> changes its copy controls.\<close>

definition changeControlApprovalToBlock :: "policy_class \<Rightarrow> policy_class" where
  "changeControlApprovalToBlock cl =
     (case cl of
        PolicyCopy pp c \<Rightarrow> PolicyCopy (pp_changeControlApprovalToBlock pp) c
      | PolicyCopyEx pp c ex \<Rightarrow>
          PolicyCopyEx pp c (ex\<lparr>copyControls := snd (controls_changeApproval (copyControls ex))\<rparr>)
      | PolicyUpload pp \<Rightarrow> PolicyUpload (pp_changeControlApprovalToBlock pp)
      | PolicyPrint pp x \<Rightarrow> PolicyPrint (pp_changeControlApprovalToBlock pp) x
      | PolicyApplication pp x \<Rightarrow> PolicyApplication (pp_changeControlApprovalToBlock pp) x
      | PolicyClipboard pp x \<Rightarrow> PolicyClipboard (pp_changeControlApprovalToBlock pp) x
      | PolicySharedFolderCopy pp \<Rightarrow> PolicySharedFolderCopy (pp_changeControlApprovalToBlock pp)
      | c \<Rightarrow> c)"

text \<open>\<open>isBlockReadAll\<close>, \<open>getMediaPermitType\<close> and \<open>getDLPCopyControl\<close> of the two copy classes.\<close>

definition policy_isBlockReadAll :: "policy_class \<Rightarrow> bool" where
  "policy_isBlockReadAll cl = (case cl of PolicyCopyEx _ _ ex \<Rightarrow> controls_isBlockReadAll (copyControls ex)
     | _ \<Rightarrow> False)"

definition policy_getMediaPermitType :: "policy_class \<Rightarrow> int option" where
  "policy_getMediaPermitType cl = (case cl of PolicyCopyEx _ _ ex \<Rightarrow> Some (ex_permitType ex)
     | PolicyCopy _ c \<Rightarrow> Some (mediaPermitType c) | _ \<Rightarrow> None)"

text \<open>A plain copy policy answers with its logs, the extended one with the control of the drive;
  \<open>None\<close> when it has none.\<close>

definition log_of_pp :: "pp_log \<Rightarrow> dlp_log" where
  "log_of_pp l = \<lparr>lb_use = lp_use l, lb_type = (if lp_isConditional l then logConditional else logAll),
     lb_condition = lp_condition l,
     fileCopy = \<lparr>lb_use = lp_use (saveFileCopy l),
       lb_type = (if lp_isConditional (saveFileCopy l) then logConditional else logAll),
       lb_condition = lp_condition (saveFileCopy l), fc_maxUse = maxLimitUse (saveFileCopy l),
       fc_maxLimit = maxLimit (saveFileCopy l)\<rparr>\<rparr>"

definition policy_getDLPCopyControl :: "string option \<Rightarrow> policy_class \<Rightarrow> copy_control option" where
  "policy_getDLPCopyControl usbDrive cl =
     (case cl of
        PolicyCopy pp _ \<Rightarrow> Some (CDLPCopyControl\<lparr>logs :=
          \<lparr>logs_block = log_of_pp (blockLog pp), logs_allow = log_of_pp (allowLog pp)\<rparr>\<rparr>)
      | PolicyCopyEx _ _ ex \<Rightarrow> controls_getDLPCopyControl usbDrive (copyControls ex)
      | _ \<Rightarrow> None)"

subsection \<open>The rules of a media policy\<close>

lemma base_rule_parts [simp]:
  "virtualType (base_addDeviceRule vt a rd w lg d bt r1 r) = vt"
  "disableAll (base_addDeviceRule vt a rd w lg d bt r1 r) = a"
  "disableRead (base_addDeviceRule vt a rd w lg d bt r1 r) = rd"
  "disableWrite (base_addDeviceRule vt a rd w lg d bt r1 r) = w"
  "enableLog (base_addDeviceRule vt a rd w lg d bt r1 r) = lg"
  "reserved1 (base_addDeviceRule vt a rd w lg d bt r1 r) = (if d then 1 else r1)"
  "blockSelectedBluetooth (base_addDeviceRule vt a rd w lg d bt r1 r) = bt"
  "deviceEx (base_addDeviceRule vt a rd w lg d bt r1 r) = deviceEx r"
  "vecWLanPermitList (base_addDeviceRule vt a rd w lg d bt r1 r) = []"
  "vecUSBMobilePermitList (base_addDeviceRule vt a rd w lg d bt r1 r) = []"
  "vecRemovableDrivePermitList (base_addDeviceRule vt a rd w lg d bt r1 r) = vecRemovableDrivePermitList r"
  "nRemovableDrivePermitAllowControlType (base_addDeviceRule vt a rd w lg d bt r1 r) =
     nRemovableDrivePermitAllowControlType r"
  by (simp_all add: base_addDeviceRule_def rule_clear_def Let_def)

text \<open>The next rule overwrites everything a setter left in the policy's rule, but the device
  record and the removable drives.\<close>

lemma base_rule_cong:
  assumes "deviceEx r = deviceEx r'"
    and "vecRemovableDrivePermitList r = vecRemovableDrivePermitList r'"
    and "nRemovableDrivePermitAllowControlType r = nRemovableDrivePermitAllowControlType r'"
  shows "base_addDeviceRule vt a rd w lg d bt r1 r = base_addDeviceRule vt a rd w lg d bt r1 r'"
  using assms by (cases r; cases r') (simp add: base_addDeviceRule_def rule_clear_def Let_def)

lemma permit_setter_parts [simp]:
  "deviceEx (snd (setWLanPermitList l r)) = deviceEx r"
  "vecRemovableDrivePermitList (snd (setWLanPermitList l r)) = vecRemovableDrivePermitList r"
  "nRemovableDrivePermitAllowControlType (snd (setWLanPermitList l r)) = nRemovableDrivePermitAllowControlType r"
  "deviceEx (snd (setUSBMobilePermitList k r)) = deviceEx r"
  "vecRemovableDrivePermitList (snd (setUSBMobilePermitList k r)) = vecRemovableDrivePermitList r"
  "nRemovableDrivePermitAllowControlType (snd (setUSBMobilePermitList k r)) = nRemovableDrivePermitAllowControlType r"
  by (simp_all add: permit_setters)

lemma base_rule_again [simp]:
  "base_addDeviceRule vt a rd w lg d bt r1 (base_addDeviceRule vt' a' rd' w' lg' d' bt' r1' r) =
   base_addDeviceRule vt a rd w lg d bt r1 r"
  "base_addDeviceRule vt a rd w lg d bt r1 (snd (setWLanPermitList l r)) =
   base_addDeviceRule vt a rd w lg d bt r1 r"
  "base_addDeviceRule vt a rd w lg d bt r1 (snd (setUSBMobilePermitList k r)) =
   base_addDeviceRule vt a rd w lg d bt r1 r"
  by (rule base_rule_cong; simp)+

lemma rules_steps [simp]:
  "fst (upd_rule f s) = f (fst s)" "snd (upd_rule f s) = snd s"
  "fst (push_rule s) = fst s" "snd (push_rule s) = snd s @ [fst s]"
  by (simp_all add: upd_rule_def push_rule_def)

text \<open>The rule for removable drives, and the rule of the policy when it has been pushed.\<close>

definition removable_base :: "media_part \<Rightarrow> sec_rule \<Rightarrow> sec_rule" where
  "removable_base m rule0 =
     (snd (setRemovableDrivePermitList (m_removablePermit m)
        (base_addDeviceRule Drive_Removable False (etc_bit etcstorageBlockRemovableRead m)
           (etc_bit etcstorageBlockRemovableWrite m) (m_blockLog m)
           (etc_bit etcstorageBlockRemovableWrite m) False 1 rule0)))
      \<lparr>nRemovableDrivePermitAllowControlType := m_removableAllowType m\<rparr>"

definition media_rule :: "media_part \<Rightarrow> bool \<Rightarrow> string \<Rightarrow> sec_rule \<Rightarrow> sec_rule" where
  "media_rule m b vt r = base_addDeviceRule vt b b b (m_blockLog m) False False (-1) r"

lemma media_rules_eq:
  "snd (media_addDeviceRule m r0) =
    (let lg = m_blockLog m; rm = removable_base m r0; bt = m_bBlockSelectedBluetooth m in
     [media_rule m (etc_bit etcstorageBlockNetDrive m) Drive_NetDrive r0,
      base_addDeviceRule Drive_CDDVD False (etc_bit etcstorageBlockCDDVDRead m)
        (etc_bit etcstorageBlockCDDVDWrite m) lg False False (-1) r0] @
     (if etc_bit etcstorageBlockCDDVDWrite m
      then [base_addDeviceRule Device_CDDVD False False True lg False False (-1) r0] else []) @
     [rm,
      base_addDeviceRule Drive_Floppy False (etc_bit etcstorageBlockFloppyRead m)
        (etc_bit etcstorageBlockFloppyWrite m) lg False False (-1) rm,
      media_rule m (comm_bit commdeviceBlockWLAN m) NDIS_WLAN rm,
      media_rule m (comm_bit commdeviceBlockWWAN m) NDIS_WWAN rm] @
     (if comm_bit commdeviceBlockBluetooth m
      then [base_addDeviceRule Device_Bluetooth True True True lg bt bt (-1) rm] else []) @
     [media_rule m (comm_bit commdeviceBlockIRDA m) Device_Infrared rm,
      media_rule m (comm_bit commdeviceBlockSerial m) Device_Serial rm,
      media_rule m (comm_bit commdeviceBlockParallel m) Device_Parallel rm,
      media_rule m (comm_bit commdeviceBlockParallel m) Device_Printer rm,
      media_rule m (comm_bit commdeviceBlockIEEE1394 m) Device_IEEE1394 rm,
      media_rule m (comm_bit commdeviceBlockUSBMobile m) Device_USBMobile rm,
      media_rule m (comm_bit commdeviceBlockCamera m) Device_Camera rm,
      media_rule m (comm_bit commdeviceBlockFileSharing m) Share_FileSharing rm,
      media_rule m (comm_bit commdeviceBlockRemoteManagement m) Share_RemoteManagement rm,
      media_rule m (comm_bit commdeviceBlockAirDrop m) Share_AirDrop rm])"
  unfolding media_addDeviceRule_def Let_def media_add_def media_rule_def removable_base_def
  by (cases "etc_bit etcstorageBlockCDDVDWrite m"; cases "comm_bit commdeviceBlockBluetooth m") simp_all

lemma removable_base_parts [simp]:
  "virtualType (removable_base m r) = Drive_Removable"
  "disableAll (removable_base m r) = False"
  "disableRead (removable_base m r) = etc_bit etcstorageBlockRemovableRead m"
  "disableWrite (removable_base m r) = etc_bit etcstorageBlockRemovableWrite m"
  "enableLog (removable_base m r) = m_blockLog m" "reserved1 (removable_base m r) = 1"
  "deviceEx (removable_base m r) = deviceEx r"
  "vecWLanPermitList (removable_base m r) = []" "vecUSBMobilePermitList (removable_base m r) = []"
  "vecRemovableDrivePermitList (removable_base m r) =
     (if m_removablePermit m = [] then vecRemovableDrivePermitList r else m_removablePermit m)"
  "nRemovableDrivePermitAllowControlType (removable_base m r) = m_removableAllowType m"
  by (simp_all add: removable_base_def permit_setters)

definition rule_view :: "sec_rule \<Rightarrow> string \<times> bool \<times> bool \<times> bool" where
  "rule_view r = (virtualType r, disableAll r, disableRead r, disableWrite r)"

definition all_of :: "string \<Rightarrow> bool \<Rightarrow> string \<times> bool \<times> bool \<times> bool" where
  "all_of vt b = (vt, b, b, b)"


text \<open>The wireless networks and mobile devices a media policy permits are in none of its
  rules; the removable drives it permits are in every rule from the one for removable drives on,
  and those before it keep what an earlier policy left.\<close>

theorem permit_lists_lost:
  assumes "r \<in> set (snd (media_addDeviceRule m r0))"
  shows "vecWLanPermitList r = [] \<and> vecUSBMobilePermitList r = [] \<and>
    (if virtualType r \<in> {Drive_NetDrive, Drive_CDDVD, Device_CDDVD}
     then vecRemovableDrivePermitList r = vecRemovableDrivePermitList r0
     else m_removablePermit m \<noteq> [] \<longrightarrow> vecRemovableDrivePermitList r = m_removablePermit m)"
proof -
  have "\<forall>r \<in> set (snd (media_addDeviceRule m r0)). vecWLanPermitList r = [] \<and> vecUSBMobilePermitList r = [] \<and>
      (if virtualType r \<in> {Drive_NetDrive, Drive_CDDVD, Device_CDDVD}
       then vecRemovableDrivePermitList r = vecRemovableDrivePermitList r0
       else m_removablePermit m \<noteq> [] \<longrightarrow> vecRemovableDrivePermitList r = m_removablePermit m)"
    by (cases "etc_bit etcstorageBlockCDDVDWrite m"; cases "comm_bit commdeviceBlockBluetooth m")
       (simp_all add: media_rules_eq Let_def media_rule_def vt)
  then show ?thesis using assms by blast
qed

definition sample_media :: media_part where
  "sample_media = \<lparr>controlEtcStorage = 0x20, controlCommDevice = 0x81, m_blockLog = True,
     m_wlanPermit = [''office''], m_usbMobilePermit = [\<lparr>czMediaName = ''phone'', czMediaID = ''1''\<rparr>],
     m_removablePermit = [], m_removableAllowType = 1, ruleList = [], m_bBlockSelectedBluetooth = False\<rparr>"

theorem permit_lists_lost_witness:
  "vecWLanPermitList (snd (media_addDeviceRule sample_media (CPISecRule False 0)) ! 4) = [] \<and>
   vecUSBMobilePermitList (snd (media_addDeviceRule sample_media (CPISecRule False 0)) ! 11) = []"
proof -
  have "length (snd (media_addDeviceRule sample_media (CPISecRule False 0))) \<ge> 12"
    by (simp add: media_rules_eq Let_def)
  then have "snd (media_addDeviceRule sample_media (CPISecRule False 0)) ! i
      \<in> set (snd (media_addDeviceRule sample_media (CPISecRule False 0)))" if "i < 12" for i
    using that by (intro nth_mem) simp
  from this [of 4] this [of 11] show ?thesis
    using permit_lists_lost [of _ sample_media "CPISecRule False 0"] by simp
qed

subsection \<open>Approval off line\<close>

definition pp_asks :: "pp_controls \<Rightarrow> bool" where
  "pp_asks c \<longleftrightarrow>
     (if ct_type c = inspectionNoInspect then ct_noInspect c = controlApproval
      else if ct_type c = inspectionRunInspect
      then ct_found c = controlApproval \<or> ct_notFound c = controlApproval else False)"

lemma move_condition_controls [simp]: "pp_controls (move_condition c p) = pp_controls p"
  by (simp add: move_condition_def)

definition blocked :: "int \<Rightarrow> int" where
  "blocked ctl = (if ctl = controlApproval then controlBlock else ctl)"

lemma blocked_simps [simp]:
  "blocked x \<noteq> controlApproval" "blocked x = controlAllow \<longleftrightarrow> x = controlAllow"
  by (auto simp: blocked_def dlp)

lemma pp_change_controls:
  "pp_controls (pp_changeControlApprovalToBlock p) =
     (let c = pp_controls p in
      if ct_type c = inspectionNoInspect then c\<lparr>ct_noInspect := blocked (ct_noInspect c)\<rparr>
      else if ct_type c = inspectionRunInspect
      then c\<lparr>ct_found := blocked (ct_found c), ct_notFound := blocked (ct_notFound c)\<rparr> else c)"
  by (cases "pp_controls p") (simp add: pp_changeControlApprovalToBlock_def Let_def blocked_def)

lemma pp_change_none: "\<not> pp_asks (pp_controls p) \<Longrightarrow> pp_changeControlApprovalToBlock p = p"
  by (simp add: pp_asks_def pp_changeControlApprovalToBlock_def Let_def split: if_splits)

lemma pp_change_asks: "\<not> pp_asks (pp_controls (pp_changeControlApprovalToBlock p))"
  by (simp add: pp_change_controls pp_asks_def Let_def)


text \<open>The controls of an extended copy policy as the parser sets them, from the pairs of its
  \<open>control\<close> elements.\<close>

definition set_controls :: "(string \<times> string) list \<Rightarrow> dlp_control \<Rightarrow> dlp_control" where
  "set_controls l c = fold (\<lambda>(inspect, type). setControlType inspect type) l c"

definition set_pp_controls :: "(string \<times> string) list \<Rightarrow> pp_controls \<Rightarrow> pp_controls" where
  "set_pp_controls l c = fold (\<lambda>(inspect, type). ct_setControl type inspect) l c"

text \<open>An extended copy policy ignores the \<open>none\<close>, \<open>found\<close> and \<open>not_found\<close> controls the plain
  policy reads: whatever types they have, it allows everything; and an approval for files
  without a finding would stay an approval off line.\<close>

theorem copyex_controls_ignored:
  assumes "\<forall>(inspect, type) \<in> set l. inspect \<in> {''none'', ''found'', ''not_found''}"
  shows "set_controls l CDLPControl = CDLPControl \<and>
    \<not> control_hasBlockOrApproval ((set_controls l CDLPControl)\<lparr>inspectOption := opt\<rparr>) \<and>
    (\<forall>c. notFound (control_changeApproval c) = notFound c)"
proof -
  have "set_controls l c = c" for c
    using assms by (induction l arbitrary: c) (auto simp: set_controls_def setControlType_def Let_def)
  then show ?thesis
    by (simp add: control_hasBlockOrApproval_def CDLPControl_def control_changeApproval_def Let_def dlp)
qed

theorem copyex_controls_ignored_witness:
  "set_controls [(''found'', ''block''), (''not_found'', ''approval'')] CDLPControl = CDLPControl \<and>
   ct_found (set_pp_controls [(''found'', ''block''), (''not_found'', ''approval'')] clear_pp_controls) = controlBlock"
  using copyex_controls_ignored [of "[(''found'', ''block''), (''not_found'', ''approval'')]"]
  by (simp add: set_pp_controls_def ct_setControl_def control_of_def)

end
