(* ===== verification/PolicyMan.thy ===== *)
theory PolicyMan
  imports DlpPolicy
begin

text \<open>
  \<open>CPIPolicyMan\<close> (\<open>PISupervisor/src/PIPolicyMan.cpp\<close>): the loaded policies, on line and off line,
  the device rules made of them and the rules that are current. The drives the media list
  registers are an association list; \<open>ConfigMan\<close> is an argument.
\<close>

record media_data =
  md_serialNumber :: string
  md_expireDate :: string
  md_purpose :: int
  md_type :: int
  md_guid :: string

record policy_man =
  onlinePolicyList :: "dlp_policy list"
  offlinePolicyList :: "dlp_policy list"
  commonPolicyList :: "dlp_policy list"
  isOnline :: bool
  enableMediaControlBlockLog :: bool
  mediaList :: "(string \<times> media_data) list"

subsection \<open>Loading\<close>

definition null_guid :: string where
  "null_guid = ''00000000-0000-0000-0000-000000000000''"

definition isNullPolicy :: "string \<Rightarrow> bool" where
  "isNullPolicy guid \<longleftrightarrow> guid = null_guid \<or> guid = ''{'' @ null_guid @ ''}''"

definition new_copy_part :: copy_part where
  "new_copy_part = \<lparr>warningOnFileCopy = False, mediaPermitType = 1, mediaGuidList = []\<rparr>"

definition new_copyex_part :: copyex_part where
  "new_copyex_part = \<lparr>copyControls = [], ex_notify = 0, ex_warning = False, ex_permitType = 0, ex_guids = []\<rparr>"

definition new_print_part :: print_part where
  "new_print_part = \<lparr>warningOnPrint = False, showSerialNumber = False, saveCopyFoundPage = False,
     patternMaskingUse = False, useWatermark = False, watermarkFile = -1, differentWatermark = False\<rparr>"

definition new_application_part :: application_part where
  "new_application_part = \<lparr>execControlBlockLog = False, applicationList = [], controlCount = 0,
     controlWindowsExecutableCount = 0, preventCount = 0, preventWindowsExecutableCount = 0\<rparr>"

definition new_media_part :: "int \<Rightarrow> media_part" where
  "new_media_part n = \<lparr>controlEtcStorage = 0, controlCommDevice = 0, m_blockLog = False, m_wlanPermit = [],
     m_usbMobilePermit = [], m_removablePermit = [], m_removableAllowType = n, ruleList = [],
     m_bBlockSelectedBluetooth = False\<rparr>"

definition new_share_folder :: share_folder where
  "new_share_folder = \<lparr>sf_blockAll = False, sf_blockEveryOne = False, sf_blockDefault = False,
     sf_checkInterval = 60\<rparr>"

text \<open>The class of a subtype and the virtual type its \<open>initialize\<close> sets.\<close>

definition class_of_subtype :: "int \<Rightarrow> int \<Rightarrow> (policy_class \<times> string) option" where
  "class_of_subtype n sub =
     (if sub = dlpsubtypeCopyPreventPlus then Some (PolicyCopy clear_prevent_plus new_copy_part, Drive_Removable)
      else if sub = dlpsubtypeUploadPreventPlus then Some (PolicyUpload clear_prevent_plus, bsl ''Network'' ''Control'')
      else if sub = dlpsubtypePrintPreventPlus
      then Some (PolicyPrint clear_prevent_plus new_print_part, bsl ''Printer'' ''Control'')
      else if sub = dlpsubtypeApplicationPreventPlus
      then Some (PolicyApplication clear_prevent_plus new_application_part, bsl ''Process'' ''Control'')
      else if sub = dlpsubtypeClipboardPreventPlus
      then Some (PolicyClipboard clear_prevent_plus [], bsl ''Process'' ''PasteControl'')
      else if sub = dlpsubtypeMediaControl then Some (PolicyMedia (new_media_part n), [])
      else if sub = dlpsubtypePCSecurity then Some (PolicyPCSecurity new_share_folder, [])
      else if sub = dlpsubtypeSharedFolderPreventPlus
      then Some (PolicySharedFolderCopy clear_prevent_plus, Drive_NetDrive)
      else if sub = dlpsubtypeCopyExPreventPlus
      then Some (PolicyCopyEx clear_prevent_plus new_copy_part new_copyex_part, Drive_Removable)
      else None)"

text \<open>\<open>addDLPPolicy\<close>: the new policy, before it is parsed. \<open>enabled\<close> is the configuration's
  \<open>isEnableWithSubType\<close>; \<open>bt\<close> and \<open>n\<close> are what the uninitialised fields hold.\<close>

definition addDLPPolicy :: "(int \<Rightarrow> bool) \<Rightarrow> bool \<Rightarrow> int \<Rightarrow> int \<Rightarrow> int \<Rightarrow> dlp_policy option" where
  "addDLPPolicy enabled bt n dlpType dlpSubType =
     (if \<not> enabled dlpSubType then None
      else if dlpType = dlptypePreventPlus \<or> dlpType = dlptypeControl then
        map_option (\<lambda>(cl, vt). \<lparr>p_dlpType = (if dlpSubType = dlpsubtypeMediaControl \<or> dlpSubType = dlpsubtypePCSecurity
              then dlptypeControl else if dlpSubType = dlpsubtypeCopyExPreventPlus then 0 else dlptypePreventPlus),
            p_dlpSubType = dlpSubType, p_guid = [], p_name = [], p_use = True, p_revision = 0,
            p_virtualType = vt, p_enableDeviceRule = True, p_rule = CPISecRule bt n, p_class = cl\<rparr>)
          (class_of_subtype n dlpSubType)
      else None)"

text \<open>Where \<open>addDLPPolicy\<close> puts the policy.\<close>

definition push_policy :: "string \<Rightarrow> dlp_policy \<Rightarrow> policy_man \<Rightarrow> policy_man" where
  "push_policy type p pm =
     (if type = ''online'' then pm\<lparr>onlinePolicyList := onlinePolicyList pm @ [p]\<rparr>
      else if type = ''offline'' then pm\<lparr>offlinePolicyList := offlinePolicyList pm @ [p]\<rparr>
      else pm\<lparr>commonPolicyList := commonPolicyList pm @ [p]\<rparr>)"

definition validateDLPPolicyXml :: "policy_man \<Rightarrow> policy_man" where
  "validateDLPPolicyXml pm = pm\<lparr>offlinePolicyList := map (\<lambda>p.
     case as_PreventPlus (p_class p) of None \<Rightarrow> p
     | Some _ \<Rightarrow> p\<lparr>p_class := changeControlApprovalToBlock (p_class p)\<rparr>) (offlinePolicyList pm)\<rparr>"

definition current_list :: "policy_man \<Rightarrow> dlp_policy list" where
  "current_list pm = (if isOnline pm then onlinePolicyList pm else offlinePolicyList pm)"

definition isEnableBlockLog :: "policy_man \<Rightarrow> bool" where
  "isEnableBlockLog pm = list_ex (\<lambda>p. p_use p \<and> p_dlpSubType p = dlpsubtypeMediaControl \<and>
     policy_isEnableBlockLog p) (current_list pm)"

subsection \<open>Making the rules\<close>

definition makeDeviceRule_list :: "bool \<Rightarrow> dlp_policy list \<Rightarrow> dlp_policy list" where
  "makeDeviceRule_list blockWriteAll l =
     map (\<lambda>p. if p_use p then addDeviceRule blockWriteAll p else p) l"

text \<open>The first media policy in use.\<close>

definition used_media :: "dlp_policy \<Rightarrow> bool" where
  "used_media p \<longleftrightarrow> p_use p \<and> p_dlpSubType p = dlpsubtypeMediaControl \<and> as_Media (p_class p) \<noteq> None"

definition media_found :: "int \<Rightarrow> u32 \<Rightarrow> dlp_policy list \<Rightarrow> bool" where
  "media_found deviceType control l =
     (case List.find used_media l of None \<Rightarrow> False
      | Some p \<Rightarrow> (case as_Media (p_class p) of None \<Rightarrow> False
                   | Some m \<Rightarrow> media_getControl deviceType control m))"

definition is_copy :: "int \<Rightarrow> bool" where
  "is_copy sub \<longleftrightarrow> sub = dlpsubtypeCopyPreventPlus \<or> sub = dlpsubtypeCopyExPreventPlus"

definition setEnableDeviceRule :: "int \<Rightarrow> dlp_policy \<Rightarrow> dlp_policy" where
  "setEnableDeviceRule sub p =
     (if is_copy sub then (if is_copy (p_dlpSubType p) then p\<lparr>p_enableDeviceRule := False\<rparr> else p)
      else if sub = p_dlpSubType p then p\<lparr>p_enableDeviceRule := False\<rparr> else p)"

fun disable_loop :: "int \<Rightarrow> dlp_policy list \<Rightarrow> dlp_policy list" where
  "disable_loop sub [] = []"
| "disable_loop sub (p # ps) =
     (if \<not> p_use p then p # disable_loop sub ps
      else if \<not> is_copy sub \<and> sub = p_dlpSubType p then setEnableDeviceRule sub p # ps
      else setEnableDeviceRule sub p # disable_loop sub ps)"

definition disableDeviceRuleByMediaControl :: "int \<Rightarrow> int \<Rightarrow> u32 \<Rightarrow> dlp_policy list \<Rightarrow> dlp_policy list" where
  "disableDeviceRuleByMediaControl sub deviceType control l =
     (if \<not> media_found deviceType control l then l else disable_loop sub l)"

text \<open>The scan for Prevent+ policies stops at the first copy policy: a shared folder policy behind
  it is not seen.\<close>

fun prevent_scan :: "dlp_policy list \<Rightarrow> bool \<times> bool \<Rightarrow> bool \<times> bool" where
  "prevent_scan [] st = st"
| "prevent_scan (p # ps) (copyFound, sharedFound) =
     (if copyFound then (copyFound, sharedFound)
      else if \<not> p_use p then prevent_scan ps (copyFound, sharedFound)
      else if is_copy (p_dlpSubType p) then prevent_scan ps (True, sharedFound)
      else if p_dlpSubType p = dlpsubtypeSharedFolderPreventPlus then prevent_scan ps (copyFound, True)
      else prevent_scan ps (copyFound, sharedFound))"

fun update_first :: "('a \<Rightarrow> bool) \<Rightarrow> ('a \<Rightarrow> 'a) \<Rightarrow> 'a list \<Rightarrow> 'a list" where
  "update_first P f [] = []"
| "update_first P f (x # xs) = (if P x then f x # xs else x # update_first P f xs)"

definition prevent_media :: "bool \<Rightarrow> bool \<Rightarrow> dlp_policy \<Rightarrow> dlp_policy" where
  "prevent_media copyFound sharedFound p =
     (case as_Media (p_class p) of None \<Rightarrow> p
      | Some m \<Rightarrow>
          if \<not> media_getControl 2 etcstorageBlockRemovableRead m \<and>
             \<not> media_getControl 2 etcstorageBlockRemovableWrite m
          then p\<lparr>p_class := PolicyMedia (media_validateDeviceRule copyFound sharedFound m)\<rparr> else p)"

definition disableDeviceRuleByPreventPlus :: "dlp_policy list \<Rightarrow> dlp_policy list" where
  "disableDeviceRuleByPreventPlus l =
     (case prevent_scan l (False, False) of (copyFound, sharedFound) \<Rightarrow>
        if \<not> copyFound \<and> \<not> sharedFound then l
        else update_first used_media (prevent_media copyFound sharedFound) l)"

definition validateDeviceRule :: "dlp_policy list \<Rightarrow> dlp_policy list" where
  "validateDeviceRule l =
     (let l1 = disableDeviceRuleByMediaControl dlpsubtypeSharedFolderPreventPlus 2 etcstorageBlockNetDrive l;
          l2 = disableDeviceRuleByMediaControl dlpsubtypeCopyPreventPlus 2 etcstorageBlockRemovableRead l1;
          l3 = disableDeviceRuleByMediaControl dlpsubtypeCopyPreventPlus 2 etcstorageBlockRemovableWrite l2
      in disableDeviceRuleByPreventPlus l3)"

definition makeDeviceRule :: "bool \<Rightarrow> policy_man \<Rightarrow> policy_man" where
  "makeDeviceRule blockWriteAll pm =
     pm\<lparr>offlinePolicyList := validateDeviceRule (makeDeviceRule_list blockWriteAll (offlinePolicyList pm)),
        onlinePolicyList := validateDeviceRule (makeDeviceRule_list blockWriteAll (onlinePolicyList pm))\<rparr>"

subsection \<open>The current rules\<close>

definition rule_active :: "dlp_policy \<Rightarrow> bool" where
  "rule_active p \<longleftrightarrow> p_use p \<and> p_enableDeviceRule p"

definition is_copyex_rule :: "dlp_policy \<Rightarrow> bool" where
  "is_copyex_rule p \<longleftrightarrow> p_dlpType p = dlptypePreventPlus \<and> p_dlpSubType p = dlpsubtypeCopyExPreventPlus"

definition policy_rules :: "bool \<Rightarrow> dlp_policy \<Rightarrow> sec_rule list" where
  "policy_rules copyPreventFound p =
     (if \<not> rule_active p then []
      else if p_dlpType p = dlptypeControl \<and> p_dlpSubType p = dlpsubtypeMediaControl then
        (case as_Media (p_class p) of None \<Rightarrow> [] | Some m \<Rightarrow> ruleList m)
      else if is_copyex_rule p then []
      else if p_dlpType p = dlptypePreventPlus \<and> p_dlpSubType p = dlpsubtypeCopyPreventPlus then
        (if copyPreventFound then [] else [p_rule p])
      else [p_rule p])"

definition getCurrentRule :: "policy_man \<Rightarrow> bool \<times> sec_rule list" where
  "getCurrentRule pm =
     (let l = current_list pm;
          first = List.find (\<lambda>p. rule_active p \<and> is_copyex_rule p) l;
          rules = (case first of None \<Rightarrow> [] | Some p \<Rightarrow> [p_rule p]) @
                  concat (map (policy_rules (first \<noteq> None)) l)
      in (rules \<noteq> [], rules))"

definition mdPermitAll :: int where [dlp]: "mdPermitAll = -1"

definition getDLPPolicy :: "int \<Rightarrow> int \<Rightarrow> dlp_policy list \<Rightarrow> dlp_policy option" where
  "getDLPPolicy dlpType sub l = List.find (\<lambda>p. p_use p \<and> p_dlpType p = dlpType \<and> p_dlpSubType p = sub) l"

definition getCurrentDLPPolicy :: "int \<Rightarrow> int \<Rightarrow> policy_man \<Rightarrow> dlp_policy option" where
  "getCurrentDLPPolicy dlpType sub pm =
     (if is_copy sub then
        (case getDLPPolicy dlpType dlpsubtypeCopyExPreventPlus (current_list pm) of
           None \<Rightarrow> getDLPPolicy dlpType dlpsubtypeCopyPreventPlus (current_list pm)
         | Some p \<Rightarrow> Some p)
      else getDLPPolicy dlpType sub (current_list pm))"

definition getProcessControl :: "policy_man \<Rightarrow> bool \<times> bool \<times> nat option" where
  "getProcessControl pm =
     (case getCurrentDLPPolicy dlptypePreventPlus dlpsubtypeApplicationPreventPlus pm of
        Some p \<Rightarrow> (case p_class p of
            PolicyApplication pp a \<Rightarrow> (True, execControlBlockLog a, Some (length (applicationList a)))
          | _ \<Rightarrow> (False, False, None))
      | None \<Rightarrow> (False, False, None))"

subsection \<open>Registered drives\<close>

definition isRegisteredUSB :: "string \<Rightarrow> policy_man \<Rightarrow> bool" where
  "isRegisteredUSB serial pm \<longleftrightarrow>
     length serial \<noteq> 0 \<and> mediaList pm \<noteq> [] \<and> map_of (mediaList pm) serial \<noteq> None"

text \<open>The guid of a drive, empty when it is not registered.\<close>

definition getDLPUSBDrive :: "string \<Rightarrow> policy_man \<Rightarrow> string" where
  "getDLPUSBDrive serial pm =
     (if mediaList pm = [] then []
      else case map_of (mediaList pm) serial of None \<Rightarrow> [] | Some d \<Rightarrow> md_guid d)"

subsection \<open>Consistent policies\<close>

text \<open>The type, subtype and virtual type that go with each class.\<close>

fun class_kind :: "policy_class \<Rightarrow> int \<times> int \<times> string" where
  "class_kind (PolicyCopy _ _) = (dlptypePreventPlus, dlpsubtypeCopyPreventPlus, Drive_Removable)"
| "class_kind (PolicyCopyEx _ _ _) = (dlptypePreventPlus, dlpsubtypeCopyExPreventPlus, Drive_Removable)"
| "class_kind (PolicyUpload _) = (dlptypePreventPlus, dlpsubtypeUploadPreventPlus, bsl ''Network'' ''Control'')"
| "class_kind (PolicyPrint _ _) = (dlptypePreventPlus, dlpsubtypePrintPreventPlus, bsl ''Printer'' ''Control'')"
| "class_kind (PolicyApplication _ _) = (dlptypePreventPlus, dlpsubtypeApplicationPreventPlus, bsl ''Process'' ''Control'')"
| "class_kind (PolicyClipboard _ _) = (dlptypePreventPlus, dlpsubtypeClipboardPreventPlus, bsl ''Process'' ''PasteControl'')"
| "class_kind (PolicySharedFolderCopy _) = (dlptypePreventPlus, dlpsubtypeSharedFolderPreventPlus, Drive_NetDrive)"
| "class_kind (PolicyMedia _) = (dlptypeControl, dlpsubtypeMediaControl, [])"
| "class_kind (PolicyPCSecurity _) = (dlptypeControl, dlpsubtypePCSecurity, [])"

definition policy_ok :: "dlp_policy \<Rightarrow> bool" where
  "policy_ok p \<longleftrightarrow> (p_dlpType p, p_dlpSubType p, p_virtualType p) = class_kind (p_class p) \<and>
     ((\<exists>s. p_class p = PolicyPCSecurity s) \<longrightarrow> virtualType (p_rule p) = [])"

text \<open>A policy \<open>addDLPPolicy\<close> creates for a subtype is of the class, the type and the virtual
  type that go together, once the parser has given it the type its file says; and making its rule
  keeps it so.\<close>

theorem new_policy_consistent:
  assumes "addDLPPolicy enabled bt n type sub = Some p"
    and "type = fst (class_kind (p_class p))"
  shows "policy_ok (p\<lparr>p_dlpType := type\<rparr>) \<and> policy_ok (addDeviceRule bw (p\<lparr>p_dlpType := type\<rparr>)) \<and>
    enabled sub \<and> p_dlpSubType p = sub \<and> p_enableDeviceRule p"
proof -
  obtain cl vt where cl: "class_of_subtype n sub = Some (cl, vt)" "p_class p = cl" "p_virtualType p = vt"
      "p_dlpSubType p = sub" "p_rule p = CPISecRule bt n" "enabled sub" "p_enableDeviceRule p"
    using assms(1) by (auto simp: addDLPPolicy_def split: if_splits)
  have kind: "class_kind cl = (fst (class_kind cl), sub, vt)"
    using cl(1) by (auto simp: class_of_subtype_def split: if_splits)
  have "policy_ok (p\<lparr>p_dlpType := type\<rparr>)"
    using cl kind assms(2) by (simp add: policy_ok_def CPISecRule_def rule_clear_def)
  moreover have "policy_ok q \<Longrightarrow> policy_ok (addDeviceRule bw q)" for q
    by (cases "p_class q") (auto simp: policy_ok_def addDeviceRule_def pp_rule_def Let_def split: prod.split)
  ultimately show ?thesis using cl by blast
qed

theorem new_policy_consistent_witness:
  "\<exists>p. addDLPPolicy (\<lambda>_. True) False 0 dlptypePreventPlus dlpsubtypeCopyExPreventPlus = Some p \<and>
     policy_ok (p\<lparr>p_dlpType := dlptypePreventPlus\<rparr>)"
proof -
  obtain p where p: "addDLPPolicy (\<lambda>_. True) False 0 dlptypePreventPlus dlpsubtypeCopyExPreventPlus = Some p"
      "p_class p = PolicyCopyEx clear_prevent_plus new_copy_part new_copyex_part"
    by (auto simp: addDLPPolicy_def class_of_subtype_def dlp)
  then show ?thesis
    using new_policy_consistent [OF p(1), of True] by (auto simp: dlp)
qed

lemma policy_ok_made: "policy_ok p \<Longrightarrow> policy_ok (addDeviceRule bw p)"
  by (cases "p_class p") (auto simp: policy_ok_def addDeviceRule_def pp_rule_def Let_def split: prod.split)

lemma addDeviceRule_core [simp]:
  "p_use (addDeviceRule bw p) = p_use p" "p_dlpType (addDeviceRule bw p) = p_dlpType p"
  "p_dlpSubType (addDeviceRule bw p) = p_dlpSubType p"
  "p_enableDeviceRule (addDeviceRule bw p) = p_enableDeviceRule p"
  "p_virtualType (addDeviceRule bw p) = p_virtualType p"
  by (simp_all add: addDeviceRule_def pp_rule_def Let_def split: policy_class.split prod.split)

subsection \<open>Which rule is current for removable drives\<close>

text \<open>Switching rules off changes the switches only.\<close>

definition switched :: "(dlp_policy \<Rightarrow> bool \<Rightarrow> bool) \<Rightarrow> dlp_policy \<Rightarrow> dlp_policy \<Rightarrow> bool" where
  "switched R p q \<longleftrightarrow> (\<exists>b. q = p\<lparr>p_enableDeviceRule := b\<rparr> \<and> R p b)"

definition copy_used :: "dlp_policy \<Rightarrow> bool" where
  "copy_used p \<longleftrightarrow> p_use p \<and> is_copy (p_dlpSubType p)"

text \<open>The switch after a media control: copy policies in use go off with \<open>on\<close>, media policies keep
  theirs.\<close>

definition sw :: "bool \<Rightarrow> dlp_policy \<Rightarrow> bool \<Rightarrow> bool" where
  "sw on p b \<longleftrightarrow> (copy_used p \<longrightarrow> b = (p_enableDeviceRule p \<and> \<not> on)) \<and>
     (p_dlpSubType p = dlpsubtypeMediaControl \<longrightarrow> b = p_enableDeviceRule p)"

lemma switched_self: "R p (p_enableDeviceRule p) \<Longrightarrow> switched R p p"
  by (auto simp: switched_def intro!: exI [of _ "p_enableDeviceRule p"])

lemma switched_off: "R p False \<Longrightarrow> switched R p (p\<lparr>p_enableDeviceRule := False\<rparr>)"
  by (auto simp: switched_def)

lemma switched_refl: "list_all2 (switched (sw False)) l l"
  by (rule list.rel_refl) (auto simp: sw_def intro!: switched_self)

lemma switched_trans:
  assumes "list_all2 (switched (sw a)) l l'" and "list_all2 (switched (sw b)) l' l''"
  shows "list_all2 (switched (sw (a \<or> b))) l l''"
proof (rule list_all2_trans [OF _ assms])
  fix p q r
  assume "switched (sw a) p q" and "switched (sw b) q r"
  then obtain x y where x: "q = p\<lparr>p_enableDeviceRule := x\<rparr>" "sw a p x"
      and y: "r = p\<lparr>p_enableDeviceRule := y\<rparr>" "sw b q y"
    unfolding switched_def by auto
  have "sw (a \<or> b) p y"
    using x(2) y(2) unfolding x(1) by (simp add: sw_def copy_used_def)
  then show "switched (sw (a \<or> b)) p r" unfolding switched_def using y(1) by blast
qed

lemma is_copy_facts [simp]:
  "is_copy dlpsubtypeCopyPreventPlus" "is_copy dlpsubtypeCopyExPreventPlus"
  "\<not> is_copy dlpsubtypeSharedFolderPreventPlus" "\<not> is_copy dlpsubtypeMediaControl"
  by (simp_all add: is_copy_def dlp)

lemma sw_unused: "\<not> p_use p \<Longrightarrow> switched (sw on) p p"
  by (rule switched_self) (simp add: sw_def copy_used_def)

lemma sw_copy: "p_use p \<Longrightarrow> switched (sw True) p (setEnableDeviceRule dlpsubtypeCopyPreventPlus p)"
proof (cases "is_copy (p_dlpSubType p)")
  case True
  then have "p_dlpSubType p \<noteq> dlpsubtypeMediaControl" by auto
  with True show ?thesis
    by (simp add: setEnableDeviceRule_def) (rule switched_off, simp add: sw_def)
next
  case False
  then show ?thesis
    by (simp add: setEnableDeviceRule_def) (rule switched_self, simp add: sw_def copy_used_def)
qed

lemma sw_shared: "switched (sw False) p (setEnableDeviceRule dlpsubtypeSharedFolderPreventPlus p)"
proof (cases "dlpsubtypeSharedFolderPreventPlus = p_dlpSubType p")
  case True
  then have "p_dlpSubType p \<noteq> dlpsubtypeMediaControl" "\<not> is_copy (p_dlpSubType p)"
    by (auto simp: dlp is_copy_def)
  with True show ?thesis
    by (simp add: setEnableDeviceRule_def) (rule switched_off, simp add: sw_def copy_used_def)
next
  case False
  then show ?thesis
    by (simp add: setEnableDeviceRule_def) (rule switched_self, simp add: sw_def)
qed

lemma disable_loop_copy:
  "list_all2 (switched (sw True)) l (disable_loop dlpsubtypeCopyPreventPlus l)"
  by (induction l) (simp_all add: sw_unused sw_copy)

lemma disable_loop_shared:
  "list_all2 (switched (sw False)) l (disable_loop dlpsubtypeSharedFolderPreventPlus l)"
  by (induction l) (simp_all add: sw_unused sw_shared switched_refl)

text \<open>What only depends on the classes and subtypes does not see the switches.\<close>

lemma used_media_switched: "switched R p q \<Longrightarrow> used_media q = used_media p"
  by (auto simp: switched_def used_media_def)

lemma find_switched:
  assumes "list_all2 (switched R) l l'"
  shows "map_option p_class (List.find used_media l') = map_option p_class (List.find used_media l)"
  using assms by (induction rule: list_all2_induct) (auto simp: used_media_switched switched_def used_media_def)

definition class_control :: "int \<Rightarrow> u32 \<Rightarrow> policy_class option \<Rightarrow> bool" where
  "class_control d c o' = (case o' of None \<Rightarrow> False | Some cl \<Rightarrow>
     (case as_Media cl of None \<Rightarrow> False | Some m \<Rightarrow> media_getControl d c m))"

lemma media_found_class: "media_found d c l = class_control d c (map_option p_class (List.find used_media l))"
  by (simp add: media_found_def class_control_def split: option.split)

lemma media_found_switched: "list_all2 (switched R) l l' \<Longrightarrow> media_found d c l' = media_found d c l"
  by (simp add: media_found_class find_switched)

lemma disable_control_copy:
  "list_all2 (switched (sw (media_found d c l))) l (disableDeviceRuleByMediaControl dlpsubtypeCopyPreventPlus d c l)"
  by (cases "media_found d c l")
     (simp_all add: disableDeviceRuleByMediaControl_def disable_loop_copy switched_refl)

lemma disable_control_shared:
  "list_all2 (switched (sw False)) l (disableDeviceRuleByMediaControl dlpsubtypeSharedFolderPreventPlus d c l)"
  by (cases "media_found d c l")
     (simp_all add: disableDeviceRuleByMediaControl_def disable_loop_shared switched_refl)

definition removable_blocked :: "dlp_policy list \<Rightarrow> bool" where
  "removable_blocked l \<longleftrightarrow> media_found 2 etcstorageBlockRemovableRead l \<or> media_found 2 etcstorageBlockRemovableWrite l"

lemma validate_switched:
  "\<exists>l3. list_all2 (switched (sw (removable_blocked l))) l l3 \<and>
     validateDeviceRule l = disableDeviceRuleByPreventPlus l3"
proof -
  define l1 where "l1 = disableDeviceRuleByMediaControl dlpsubtypeSharedFolderPreventPlus 2 etcstorageBlockNetDrive l"
  define l2 where "l2 = disableDeviceRuleByMediaControl dlpsubtypeCopyPreventPlus 2 etcstorageBlockRemovableRead l1"
  define l3 where "l3 = disableDeviceRuleByMediaControl dlpsubtypeCopyPreventPlus 2 etcstorageBlockRemovableWrite l2"
  have 1: "list_all2 (switched (sw False)) l l1"
    unfolding l1_def by (rule disable_control_shared)
  have 2: "list_all2 (switched (sw (media_found 2 etcstorageBlockRemovableRead l))) l1 l2"
    using disable_control_copy [of 2 etcstorageBlockRemovableRead l1]
    by (simp add: l2_def media_found_switched [OF 1])
  have 3: "list_all2 (switched (sw (media_found 2 etcstorageBlockRemovableWrite l))) l2 l3"
    using disable_control_copy [of 2 etcstorageBlockRemovableWrite l2]
    by (simp add: l3_def media_found_switched [OF 1] media_found_switched [OF 2])
  have "list_all2 (switched (sw (removable_blocked l))) l l3"
    using switched_trans [OF switched_trans [OF 1 2] 3] by (simp add: removable_blocked_def)
  then show ?thesis
    by (auto simp: validateDeviceRule_def Let_def l1_def l2_def l3_def)
qed

lemma fst_prevent_scan: "fst (prevent_scan l (c, s)) \<longleftrightarrow> c \<or> (\<exists>p \<in> set l. copy_used p)"
  by (induction l "(c, s)" arbitrary: c s rule: prevent_scan.induct) (auto simp: copy_used_def)

lemma update_first_map:
  "length (filter P xs) \<le> 1 \<Longrightarrow> update_first P f xs = map (\<lambda>x. if P x then f x else x) xs"
proof (induction xs)
  case (Cons x xs)
  show ?case
  proof (cases "P x")
    case True
    with Cons.prems have "filter P xs = []" by simp
    then have "\<forall>y \<in> set xs. \<not> P y" by (simp add: filter_empty_conv)
    then have "map (\<lambda>x. if P x then f x else x) xs = xs" by (intro map_idI) simp
    with True show ?thesis by simp
  next
    case False
    with Cons show ?thesis by simp
  qed
qed simp

definition is_removable :: "sec_rule \<Rightarrow> bool" where
  "is_removable r \<longleftrightarrow> virtualType r = Drive_Removable"

lemma is_removable_base [simp]:
  "is_removable (base_addDeviceRule vt a rd w lg d bt r1 r) \<longleftrightarrow> vt = Drive_Removable"
  "is_removable (removable_base m r)"
  by (simp_all add: is_removable_def)

lemma not_removable:
  "Drive_NetDrive \<noteq> Drive_Removable" "Drive_CDDVD \<noteq> Drive_Removable" "Drive_Floppy \<noteq> Drive_Removable"
  "Device_CDDVD \<noteq> Drive_Removable" "Device_Bluetooth \<noteq> Drive_Removable" "NDIS_WLAN \<noteq> Drive_Removable"
  "NDIS_WWAN \<noteq> Drive_Removable" "Device_Infrared \<noteq> Drive_Removable" "Device_Serial \<noteq> Drive_Removable"
  "Device_Parallel \<noteq> Drive_Removable" "Device_Printer \<noteq> Drive_Removable" "Device_IEEE1394 \<noteq> Drive_Removable"
  "Device_USBMobile \<noteq> Drive_Removable" "Device_Camera \<noteq> Drive_Removable" "Share_FileSharing \<noteq> Drive_Removable"
  "Share_RemoteManagement \<noteq> Drive_Removable" "Share_AirDrop \<noteq> Drive_Removable"
  by (simp_all add: vt)

lemma media_rules_removable:
  "filter is_removable (snd (media_addDeviceRule m r0)) = [removable_base m r0]"
  by (simp add: media_rules_eq Let_def media_rule_def not_removable)

lemma validated_removable:
  "filter is_removable (ruleList (media_validateDeviceRule c s m)) =
     (if c then [] else filter is_removable (ruleList m))"
proof -
  define Q where "Q r \<longleftrightarrow> \<not> (c \<and> virtualType r = Drive_Removable) \<and>
      \<not> (s \<and> virtualType r = Drive_NetDrive)" for r :: sec_rule
  have *: "(Q r \<and> is_removable r) = (\<not> c \<and> is_removable r)" for r
    unfolding Q_def is_removable_def using not_removable(1) by metis
  have "ruleList (media_validateDeviceRule c s m) = filter Q (ruleList m)"
    by (simp add: media_validateDeviceRule_def Q_def cong: filter_cong)
  then show ?thesis by (simp add: *)
qed

definition made :: "bool \<Rightarrow> dlp_policy \<Rightarrow> dlp_policy" where
  "made bw p = (if p_use p then addDeviceRule bw p else p)"

lemma made_core [simp]:
  "p_use (made bw p) = p_use p" "p_dlpType (made bw p) = p_dlpType p"
  "p_dlpSubType (made bw p) = p_dlpSubType p" "p_enableDeviceRule (made bw p) = p_enableDeviceRule p"
  "p_virtualType (made bw p) = p_virtualType p"
  by (simp_all add: made_def)

lemma media_bits_ruleList [simp]:
  "media_getControl d c (m\<lparr>ruleList := l\<rparr>) = media_getControl d c m"
  by (simp add: media_getControl_def etc_bit_def comm_bit_def)

text \<open>What a policy in use contributes before the media and Prevent+ policies are weighed.\<close>

lemma made_media:
  "p_use p \<Longrightarrow> p_class p = PolicyMedia m \<Longrightarrow>
     p_class (made bw p) = PolicyMedia (m\<lparr>ruleList := snd (media_addDeviceRule m (p_rule p))\<rparr>)"
  by (simp add: made_def addDeviceRule_def split: prod.split)

lemma made_class: "as_Media (p_class p) = None \<Longrightarrow> p_class (made bw p) = p_class p"
  by (cases "p_class p") (simp_all add: made_def addDeviceRule_def pp_rule_def Let_def)

lemma made_rule_kind:
  "policy_ok p \<Longrightarrow> p_use p \<Longrightarrow> as_Media (p_class p) = None \<Longrightarrow>
     is_removable (p_rule (made bw p)) \<longleftrightarrow> is_copy (p_dlpSubType p)"
  by (cases "p_class p")
     (auto simp: policy_ok_def made_def addDeviceRule_def pp_rule_def Let_def is_removable_def is_copy_def dlp vt)

lemma used_media_made [simp]: "used_media (made bw p) = used_media p"
  by (cases "p_class p"; cases "p_use p")
     (auto simp: used_media_def made_def addDeviceRule_def pp_rule_def Let_def split: prod.split)

text \<open>The rules for removable drives one policy contributes in the end. \<open>blk\<close>: the media policy
  blocks removable drives; \<open>cf\<close>: a copy policy is in use; \<open>cx\<close>: an extended one is current.\<close>

definition removable_part :: "bool \<Rightarrow> bool \<Rightarrow> bool \<Rightarrow> bool \<Rightarrow> dlp_policy \<Rightarrow> sec_rule list" where
  "removable_part bw blk cf cx p =
     (case p_class p of
        PolicyMedia m \<Rightarrow> if p_use p \<and> \<not> (cf \<and> \<not> blk) then [removable_base m (p_rule p)] else []
      | PolicyCopy _ _ \<Rightarrow> if p_use p \<and> \<not> blk \<and> \<not> cx then [p_rule (addDeviceRule bw p)] else []
      | _ \<Rightarrow> [])"

definition media_blocks :: "media_part \<Rightarrow> bool" where
  "media_blocks m \<longleftrightarrow> etc_bit etcstorageBlockRemovableRead m \<or> etc_bit etcstorageBlockRemovableWrite m"

definition weighed :: "bool \<Rightarrow> bool \<Rightarrow> dlp_policy \<Rightarrow> dlp_policy" where
  "weighed cf sf q = (if used_media q \<and> (cf \<or> sf) then prevent_media cf sf q else q)"

lemma weighed_media:
  assumes "p_class q = PolicyMedia m"
  shows "\<exists>m'. p_class (weighed cf sf q) = PolicyMedia m' \<and> filter is_removable (ruleList m') =
     (if used_media q \<and> cf \<and> \<not> media_blocks m then [] else filter is_removable (ruleList m))"
  using assms
  by (auto simp: weighed_def prevent_media_def validated_removable media_blocks_def media_getControl_def)

lemma weighed_core [simp]:
  "p_use (weighed cf sf q) = p_use q" "p_dlpType (weighed cf sf q) = p_dlpType q"
  "p_dlpSubType (weighed cf sf q) = p_dlpSubType q" "p_rule (weighed cf sf q) = p_rule q"
  "p_enableDeviceRule (weighed cf sf q) = p_enableDeviceRule q"
  by (simp_all add: weighed_def prevent_media_def split: option.split)

lemma switched_core:
  "switched R p q \<Longrightarrow> p_use q = p_use p \<and> p_dlpType q = p_dlpType p \<and> p_dlpSubType q = p_dlpSubType p \<and>
     p_rule q = p_rule p \<and> p_class q = p_class p \<and> R p (p_enableDeviceRule q)"
  by (auto simp: switched_def)

lemma final_part:
  assumes ok: "policy_ok p" and en: "p_enableDeviceRule p"
    and blk: "\<And>m. p_use p \<Longrightarrow> p_class p = PolicyMedia m \<Longrightarrow> blk = media_blocks m"
    and sw: "switched (sw blk) (made bw p) q"
  shows "filter is_removable (policy_rules cx (weighed cf sf q)) = removable_part bw blk cf cx p"
proof (cases "p_use p")
  case False
  then show ?thesis
    using switched_core [OF sw]
    by (simp add: policy_rules_def rule_active_def removable_part_def split: policy_class.split)
next
  case use: True
  have made: "made bw p = addDeviceRule bw p" using use by (simp add: made_def)
  note q = switched_core [OF sw, unfolded made, simplified]
  show ?thesis
  proof (cases "as_Media (p_class p)")
    case (Some m)
    then have cl: "p_class p = PolicyMedia m" by (cases "p_class p") auto
    then have kind: "p_dlpSubType p = dlpsubtypeMediaControl" "p_dlpType p = dlptypeControl"
      using ok by (auto simp: policy_ok_def)
    let ?m = "m\<lparr>ruleList := snd (media_addDeviceRule m (p_rule p))\<rparr>"
    have qc: "p_class q = PolicyMedia ?m" using q made_media [OF use cl, of bw] made by simp
    have um: "used_media q" using qc q use kind by (simp add: used_media_def)
    have bits: "media_blocks ?m = blk"
      using blk [OF use cl] by (simp add: media_blocks_def etc_bit_def)
    obtain m' where m': "p_class (weighed cf sf q) = PolicyMedia m'"
        "filter is_removable (ruleList m') = (if cf \<and> \<not> blk then [] else [removable_base m (p_rule p)])"
      using weighed_media [OF qc, of cf sf] um bits by (auto simp: media_rules_removable)
    have "p_enableDeviceRule q" using q en kind by (simp add: sw_def)
    then show ?thesis
      using m' q use kind cl
      by (simp add: policy_rules_def rule_active_def removable_part_def)
  next
    case None
    then have nm: "\<not> used_media q" "weighed cf sf q = q"
      using q made_class [OF None, of bw] made by (auto simp: used_media_def weighed_def)
    have rk: "is_removable (p_rule q) \<longleftrightarrow> is_copy (p_dlpSubType p)"
      using made_rule_kind [OF ok use None, of bw] q made by simp
    have "copy_used p \<longleftrightarrow> is_copy (p_dlpSubType p)" using use by (simp add: copy_used_def)
    then have en': "is_copy (p_dlpSubType p) \<Longrightarrow> p_enableDeviceRule q = (\<not> blk)"
      using q en by (simp add: sw_def copy_used_def)
    show ?thesis
      using ok None use nm rk en' q
      by (cases "p_class p")
         (auto simp: policy_ok_def policy_rules_def rule_active_def removable_part_def
           is_copyex_rule_def is_copy_def dlp)
  qed
qed

text \<open>The whole list: each policy after \<open>makeDeviceRule\<close> is the weighed image of a switched one.\<close>

lemma find_made: "List.find used_media (makeDeviceRule_list bw l) = map_option (made bw) (List.find used_media l)"
proof (induction l)
  case (Cons p l)
  have "makeDeviceRule_list bw (p # l) = made bw p # makeDeviceRule_list bw l"
    by (simp add: makeDeviceRule_list_def made_def)
  with Cons show ?case by simp
qed (simp add: makeDeviceRule_list_def)

lemma list_all2_mem: "list_all2 P xs ys \<Longrightarrow> y \<in> set ys \<Longrightarrow> \<exists>x \<in> set xs. P x y"
  by (induction rule: list_all2_induct) auto

lemma filter_used_switched:
  "list_all2 (switched R) l l' \<Longrightarrow> length (filter used_media l') = length (filter used_media l)"
  by (induction rule: list_all2_induct) (auto simp: used_media_switched)

lemma ex_copy_switched:
  assumes "list_all2 (switched R) (map (made bw) l) l'"
  shows "(\<exists>q \<in> set l'. copy_used q) \<longleftrightarrow> (\<exists>p \<in> set l. copy_used p)"
  using assms
proof (induction l arbitrary: l')
  case (Cons p l)
  then obtain q qs where "l' = q # qs" "switched R (made bw p) q" "list_all2 (switched R) (map (made bw) l) qs"
    by (auto simp: list_all2_Cons1)
  with Cons.IH switched_core show ?case by (fastforce simp: copy_used_def)
qed simp

lemma final_list:
  fixes bw :: bool and l :: "dlp_policy list"
  assumes one: "length (filter used_media l) \<le> 1"
  defines "blk \<equiv> removable_blocked (makeDeviceRule_list bw l)"
  defines "cf \<equiv> \<exists>p \<in> set l. copy_used p"
  shows "\<exists>sf l3. list_all2 (switched (sw blk)) (map (made bw) l) l3 \<and>
     validateDeviceRule (makeDeviceRule_list bw l) = map (weighed cf sf) l3"
proof -
  have L: "makeDeviceRule_list bw l = map (made bw) l"
    by (simp add: makeDeviceRule_list_def made_def cong: if_cong)
  obtain l3 where l3: "list_all2 (switched (sw blk)) (map (made bw) l) l3"
      "validateDeviceRule (makeDeviceRule_list bw l) = disableDeviceRuleByPreventPlus l3"
    using validate_switched [of "map (made bw) l"] unfolding blk_def L by blast
  obtain cf' sf where scan: "prevent_scan l3 (False, False) = (cf', sf)" by (metis surj_pair)
  have "cf' = cf"
    using fst_prevent_scan [of l3 False False] ex_copy_switched [OF l3(1)] scan by (simp add: cf_def)
  have "length (filter used_media l3) \<le> 1"
    using filter_used_switched [OF l3(1)] one by (simp add: filter_map o_def)
  then have "disableDeviceRuleByPreventPlus l3 = map (weighed cf sf) l3"
    using scan \<open>cf' = cf\<close>
    by (auto simp: disableDeviceRuleByPreventPlus_def update_first_map weighed_def map_idI)
  with l3 show ?thesis by auto
qed

lemma final_parts:
  assumes "list_all2 (switched (sw blk)) (map (made bw) l) l3"
    and "\<forall>p \<in> set l. policy_ok p \<and> p_enableDeviceRule p \<and>
          (\<forall>m. p_use p \<longrightarrow> p_class p = PolicyMedia m \<longrightarrow> blk = media_blocks m)"
  shows "filter is_removable (concat (map (policy_rules cx) (map (weighed cf sf) l3))) =
     concat (map (removable_part bw blk cf cx) l)"
  using assms
proof (induction l arbitrary: l3)
  case (Cons p l)
  then obtain q qs where "l3 = q # qs" "switched (sw blk) (made bw p) q"
      "list_all2 (switched (sw blk)) (map (made bw) l) qs"
    by (auto simp: list_all2_Cons1)
  with Cons final_part [of p blk bw q cx cf sf] show ?case by simp
qed simp

definition used_ex :: "dlp_policy \<Rightarrow> bool" where
  "used_ex p \<longleftrightarrow> p_use p \<and> p_dlpSubType p = dlpsubtypeCopyExPreventPlus"

lemma policy_ok_ex: "policy_ok p \<Longrightarrow> is_copyex_rule p \<longleftrightarrow> p_dlpSubType p = dlpsubtypeCopyExPreventPlus"
  by (cases "p_class p") (auto simp: policy_ok_def is_copyex_rule_def dlp)

lemma final_first:
  assumes "list_all2 (switched (sw blk)) (map (made bw) l) l3"
    and "\<forall>p \<in> set l. policy_ok p \<and> p_enableDeviceRule p"
  shows "map_option p_rule (List.find (\<lambda>p. rule_active p \<and> is_copyex_rule p) (map (weighed cf sf) l3)) =
     (if blk then None else map_option (\<lambda>p. p_rule (addDeviceRule bw p)) (List.find used_ex l))"
  using assms
proof (induction l arbitrary: l3)
  case (Cons p l)
  then obtain q qs where q: "l3 = q # qs" "switched (sw blk) (made bw p) q"
      "list_all2 (switched (sw blk)) (map (made bw) l) qs"
    by (auto simp: list_all2_Cons1)
  have c: "is_copyex_rule p \<longleftrightarrow> p_dlpSubType p = dlpsubtypeCopyExPreventPlus"
    using Cons.prems by (intro policy_ok_ex) simp
  have "rule_active (weighed cf sf q) \<and> is_copyex_rule (weighed cf sf q) \<longleftrightarrow> used_ex p \<and> \<not> blk"
    using switched_core [OF q(2)] c Cons.prems
    by (auto simp: rule_active_def is_copyex_rule_def used_ex_def sw_def copy_used_def)
  moreover have "used_ex p \<Longrightarrow> p_rule q = p_rule (addDeviceRule bw p)"
    using switched_core [OF q(2)] by (simp add: used_ex_def made_def)
  moreover have "map_option p_rule (List.find (\<lambda>p. rule_active p \<and> is_copyex_rule p) (map (weighed cf sf) qs)) =
      (if blk then None else map_option (\<lambda>p. p_rule (addDeviceRule bw p)) (List.find used_ex l))"
    using Cons.IH [OF q(3)] Cons.prems by simp
  ultimately show ?case
    unfolding q(1) by (cases blk) auto
qed simp

text \<open>Which policies speak for removable drives.\<close>

definition used_copy :: "dlp_policy \<Rightarrow> bool" where
  "used_copy p \<longleftrightarrow> p_use p \<and> p_dlpSubType p = dlpsubtypeCopyPreventPlus"

definition removable_verdict :: "bool \<Rightarrow> dlp_policy list \<Rightarrow> dlp_policy \<Rightarrow> media_part \<Rightarrow> sec_rule list" where
  "removable_verdict bw l mp m =
     (if media_blocks m then [removable_base m (p_rule mp)]
      else case List.find used_ex l of
          Some p \<Rightarrow> [p_rule (addDeviceRule bw p)]
        | None \<Rightarrow>
            if filter used_copy l = [] then [removable_base m (p_rule mp)]
            else map (\<lambda>p. p_rule (addDeviceRule bw p)) (filter used_copy l))"

lemma concat_parts:
  assumes ok: "\<forall>p \<in> set l. policy_ok p"
    and one: "filter used_media l = [mp]" and m: "p_class mp = PolicyMedia m"
    and ex: "cx \<longleftrightarrow> \<not> blk \<and> List.find used_ex l \<noteq> None"
    and cf: "cf \<longleftrightarrow> (\<exists>p \<in> set l. copy_used p)"
  shows "concat (map (removable_part bw blk cf cx) l) =
    (if blk \<or> \<not> cf then [removable_base m (p_rule mp)]
     else if cx then [] else map (\<lambda>p. p_rule (addDeviceRule bw p)) (filter used_copy l))"
proof -
  have med: "concat (map (\<lambda>p. case p_class p of PolicyMedia m \<Rightarrow>
        if p_use p then [removable_base m (p_rule p)] else [] | _ \<Rightarrow> []) l') =
      map (\<lambda>p. case p_class p of PolicyMedia m \<Rightarrow> removable_base m (p_rule p) | _ \<Rightarrow> p_rule p) (filter used_media l')"
    if "\<forall>p \<in> set l'. policy_ok p" for l'
    using that
    by (induction l') (auto simp: used_media_def policy_ok_def split: policy_class.splits)
  have cop: "concat (map (\<lambda>p. case p_class p of PolicyCopy _ _ \<Rightarrow>
        if p_use p then [p_rule (addDeviceRule bw p)] else [] | _ \<Rightarrow> []) l') =
      map (\<lambda>p. p_rule (addDeviceRule bw p)) (filter used_copy l')"
    if "\<forall>p \<in> set l'. policy_ok p" for l'
    using that
    by (induction l') (auto simp: used_copy_def policy_ok_def dlp split: policy_class.splits)
  have nocopy: "removable_part bw blk cf cx p = (case p_class p of PolicyMedia m \<Rightarrow>
        if p_use p then [removable_base m (p_rule p)] else [] | _ \<Rightarrow> [])"
    if "p \<in> set l" "blk \<or> \<not> cf" for p
  proof -
    have "policy_ok p" "\<not> cf \<Longrightarrow> p_use p \<Longrightarrow> \<not> is_copy (p_dlpSubType p)"
      using that ok cf by (auto simp: copy_used_def)
    then show ?thesis
      using that(2) by (cases "p_class p") (auto simp: removable_part_def policy_ok_def)
  qed
  have copy: "removable_part bw blk cf cx p = (if cx then [] else (case p_class p of PolicyCopy _ _ \<Rightarrow>
        if p_use p then [p_rule (addDeviceRule bw p)] else [] | _ \<Rightarrow> []))"
    if "p \<in> set l" "\<not> (blk \<or> \<not> cf)" for p
    using that by (auto simp: removable_part_def split: policy_class.split)
  show ?thesis
  proof (cases "blk \<or> \<not> cf")
    case True
    then show ?thesis using med [OF ok] one m by (simp add: nocopy cong: map_cong)
  next
    case False
    let ?c = "\<lambda>p. case p_class p of PolicyCopy _ _ \<Rightarrow>
        if p_use p then [p_rule (addDeviceRule bw p)] else [] | _ \<Rightarrow> []"
    have "concat (map (removable_part bw blk cf cx) l) = concat (map (\<lambda>p. if cx then [] else ?c p) l)"
      by (rule arg_cong [of _ _ concat], rule map_cong [OF refl]) (rule copy [OF _ False])
    also have "\<dots> = (if cx then [] else map (\<lambda>p. p_rule (addDeviceRule bw p)) (filter used_copy l))"
      using cop [OF ok] by (cases cx) simp_all
    finally show ?thesis using False by simp
  qed
qed

lemma find_filter: "List.find P xs = (case filter P xs of [] \<Rightarrow> None | x # _ \<Rightarrow> Some x)"
  by (induction xs) auto

lemma current_list_made:
  "current_list (makeDeviceRule bw pm) = validateDeviceRule (makeDeviceRule_list bw (current_list pm))"
  by (simp add: current_list_def makeDeviceRule_def)

lemma copy_used_cases: "copy_used p \<longleftrightarrow> used_ex p \<or> used_copy p"
  by (auto simp: copy_used_def used_ex_def used_copy_def is_copy_def)

lemma blocked_iff:
  assumes "filter used_media l = [mp]" and "p_class mp = PolicyMedia m"
  shows "removable_blocked (makeDeviceRule_list bw l) = media_blocks m"
proof -
  have "used_media mp" using assms(1) by (metis (no_types, lifting) filter_eq_ConsD)
  then have "p_class (made bw mp) = PolicyMedia (m\<lparr>ruleList := snd (media_addDeviceRule m (p_rule mp))\<rparr>)"
    using assms(2) by (intro made_media) (simp add: used_media_def)
  then show ?thesis
    using assms(1)
    by (simp add: removable_blocked_def media_found_class class_control_def find_made
        find_filter [of used_media l] media_blocks_def media_getControl_def etc_bit_def)
qed

lemma removable_rules:
  assumes ok: "\<forall>p \<in> set (current_list pm). policy_ok p \<and> p_enableDeviceRule p"
    and one: "filter used_media (current_list pm) = [mp]" and m: "p_class mp = PolicyMedia m"
  shows "filter is_removable (snd (getCurrentRule (makeDeviceRule bw pm))) =
    removable_verdict bw (current_list pm) mp m"
proof -
  let ?l = "current_list pm"
  define blk where "blk = media_blocks m"
  define cf where "cf \<longleftrightarrow> (\<exists>p \<in> set ?l. copy_used p)"
  define cx where "cx \<longleftrightarrow> \<not> blk \<and> List.find used_ex ?l \<noteq> None"
  obtain sf l3 where l3: "list_all2 (switched (sw blk)) (map (made bw) ?l) l3"
      "current_list (makeDeviceRule bw pm) = map (weighed cf sf) l3"
    using final_list [of ?l bw] one blocked_iff [OF one m] by (auto simp: current_list_made blk_def cf_def)
  let ?first = "List.find (\<lambda>p. rule_active p \<and> is_copyex_rule p) (map (weighed cf sf) l3)"
  have first: "map_option p_rule ?first =
      (if blk then None else map_option (\<lambda>p. p_rule (addDeviceRule bw p)) (List.find used_ex ?l))"
    using final_first [OF l3(1)] ok by blast
  then have cx: "(?first \<noteq> None) = cx"
    by (cases ?first; cases "List.find used_ex ?l") (auto simp: cx_def split: if_splits)
  have media: "p \<in> set ?l \<Longrightarrow> p_use p \<Longrightarrow> p_class p = PolicyMedia m' \<Longrightarrow> blk = media_blocks m'" for p m'
  proof -
    assume "p \<in> set ?l" "p_use p" "p_class p = PolicyMedia m'"
    then have "p \<in> set (filter used_media ?l)"
      using ok by (auto simp: used_media_def policy_ok_def)
    with one m \<open>p_class p = PolicyMedia m'\<close> show ?thesis by (simp add: blk_def)
  qed
  have parts: "filter is_removable (concat (map (policy_rules cx) (map (weighed cf sf) l3))) =
      (if blk \<or> \<not> cf then [removable_base m (p_rule mp)]
       else if cx then [] else map (\<lambda>p. p_rule (addDeviceRule bw p)) (filter used_copy ?l))"
    using final_parts [OF l3(1), of cx cf sf] concat_parts [OF _ one m cx_def cf_def, of bw] ok media
    by (simp add: cf_def cx_def)
  have rem: "is_removable (p_rule (addDeviceRule bw p))" if "List.find used_ex ?l = Some p" for p
  proof -
    have "p \<in> set ?l" "used_ex p" using that by (auto simp: find_Some_iff)
    then have p: "policy_ok p" "p_use p" "p_dlpSubType p = dlpsubtypeCopyExPreventPlus"
      using ok by (auto simp: used_ex_def)
    then have "as_Media (p_class p) = None"
      by (cases "p_class p") (auto simp: policy_ok_def dlp)
    with p made_rule_kind [of p bw] show ?thesis by (simp add: made_def)
  qed
  have "filter is_removable (snd (getCurrentRule (makeDeviceRule bw pm))) =
      filter is_removable (case map_option p_rule ?first of None \<Rightarrow> [] | Some r \<Rightarrow> [r]) @
      filter is_removable (concat (map (policy_rules cx) (map (weighed cf sf) l3)))"
    unfolding getCurrentRule_def Let_def l3(2) snd_conv cx filter_append by (cases ?first) simp_all
  also have "\<dots> = removable_verdict bw ?l mp m"
  proof (cases "List.find used_ex ?l")
    case None
    then have "\<And>p. p \<in> set ?l \<Longrightarrow> \<not> used_ex p" by (auto simp: find_None_iff)
    then have "cf \<longleftrightarrow> filter used_copy ?l \<noteq> []"
      by (auto simp: cf_def copy_used_cases filter_empty_conv)
    then show ?thesis
      using None unfolding parts first by (auto simp: removable_verdict_def blk_def cx_def)
  next
    case (Some p)
    then have "cf" by (auto simp: cf_def copy_used_cases find_Some_iff)
    then show ?thesis
      using Some rem [OF Some] unfolding parts first by (auto simp: removable_verdict_def blk_def cx_def)
  qed
  finally show ?thesis .
qed

text \<open>With one media policy in use, the current rules for removable drives are decided by a
  fixed precedence: the media policy's rule if it blocks reading or writing; otherwise the rule
  of the first extended copy policy; otherwise those of the plain copy policies; and the media
  policy's rule again when no copy policy is in use.\<close>

theorem removable_rule_precedence:
  assumes ok: "\<forall>p \<in> set (current_list pm). policy_ok p \<and> p_enableDeviceRule p"
    and one: "filter used_media (current_list pm) = [mp]" and m: "p_class mp = PolicyMedia m"
  shows "filter is_removable (snd (getCurrentRule (makeDeviceRule bw pm))) =
    removable_verdict bw (current_list pm) mp m"
  using assms by (rule removable_rules)

definition policy_of :: "policy_class \<Rightarrow> dlp_policy" where
  "policy_of cl = \<lparr>p_dlpType = fst (class_kind cl), p_dlpSubType = fst (snd (class_kind cl)), p_guid = [],
     p_name = [], p_use = True, p_revision = 0, p_virtualType = snd (snd (class_kind cl)),
     p_enableDeviceRule = True, p_rule = CPISecRule False 0, p_class = cl\<rparr>"

lemma policy_of_ok: "policy_ok (policy_of cl) \<and> p_enableDeviceRule (policy_of cl) \<and> p_use (policy_of cl) \<and> p_class (policy_of cl) = cl"
  by (simp add: policy_ok_def policy_of_def CPISecRule_def rule_clear_def)

definition online_man :: "dlp_policy list \<Rightarrow> policy_man" where
  "online_man l = \<lparr>onlinePolicyList = l, offlinePolicyList = [], commonPolicyList = [], isOnline = True,
     enableMediaControlBlockLog = False, mediaList = []\<rparr>"

lemma current_online_man [simp]: "current_list (online_man l) = l"
  by (simp add: current_list_def online_man_def)

definition open_media :: media_part where
  "open_media = sample_media\<lparr>controlEtcStorage := 0, controlCommDevice := 0\<rparr>"

theorem removable_rule_precedence_witness:
  "filter is_removable (snd (getCurrentRule (makeDeviceRule False
      (online_man [policy_of (PolicyMedia open_media), policy_of (PolicyCopy clear_prevent_plus new_copy_part)])))) =
     [p_rule (addDeviceRule False (policy_of (PolicyCopy clear_prevent_plus new_copy_part)))] \<and>
   filter is_removable (snd (getCurrentRule (makeDeviceRule False
      (online_man [policy_of (PolicyCopy clear_prevent_plus new_copy_part), policy_of (PolicyMedia sample_media)])))) =
     [removable_base sample_media (CPISecRule False 0)]"
proof -
  have 1: "used_media (policy_of (PolicyMedia m))" "\<not> used_media (policy_of (PolicyCopy pp c))"
    "\<not> used_ex (policy_of (PolicyMedia m))" "\<not> used_ex (policy_of (PolicyCopy pp c))"
    "\<not> used_copy (policy_of (PolicyMedia m))" "used_copy (policy_of (PolicyCopy pp c))" for m pp c
    by (simp_all add: used_media_def used_ex_def used_copy_def policy_of_def dlp)
  have 2: "\<not> media_blocks open_media" "media_blocks sample_media"
    by (simp_all add: media_blocks_def etc_bit_def open_media_def sample_media_def dlp)
  show ?thesis
    using removable_rule_precedence [of "online_man [policy_of (PolicyMedia open_media), policy_of (PolicyCopy clear_prevent_plus new_copy_part)]"
        "policy_of (PolicyMedia open_media)" open_media False]
      removable_rule_precedence [of "online_man [policy_of (PolicyCopy clear_prevent_plus new_copy_part), policy_of (PolicyMedia sample_media)]"
        "policy_of (PolicyMedia sample_media)" sample_media False]
    by (simp add: policy_of_ok 1 2 removable_verdict_def) (simp add: policy_of_def)
qed

definition is_netdrive :: "sec_rule \<Rightarrow> bool" where
  "is_netdrive r \<longleftrightarrow> virtualType r = Drive_NetDrive"

lemma is_netdrive_base [simp]:
  "is_netdrive (base_addDeviceRule vt a rd w lg d bt r1 r) \<longleftrightarrow> vt = Drive_NetDrive"
  "\<not> is_netdrive (removable_base m r)"
  using not_removable(1) by (auto simp: is_netdrive_def)

lemma not_netdrive:
  "Drive_Removable \<noteq> Drive_NetDrive" "Drive_CDDVD \<noteq> Drive_NetDrive" "Drive_Floppy \<noteq> Drive_NetDrive"
  "Device_CDDVD \<noteq> Drive_NetDrive" "Device_Bluetooth \<noteq> Drive_NetDrive" "NDIS_WLAN \<noteq> Drive_NetDrive"
  "NDIS_WWAN \<noteq> Drive_NetDrive" "Device_Infrared \<noteq> Drive_NetDrive" "Device_Serial \<noteq> Drive_NetDrive"
  "Device_Parallel \<noteq> Drive_NetDrive" "Device_Printer \<noteq> Drive_NetDrive" "Device_IEEE1394 \<noteq> Drive_NetDrive"
  "Device_USBMobile \<noteq> Drive_NetDrive" "Device_Camera \<noteq> Drive_NetDrive" "Share_FileSharing \<noteq> Drive_NetDrive"
  "Share_RemoteManagement \<noteq> Drive_NetDrive" "Share_AirDrop \<noteq> Drive_NetDrive"
  by (simp_all add: vt)

lemma media_rules_netdrive:
  "length (filter is_netdrive (snd (media_addDeviceRule m r0))) = 1"
  by (simp add: media_rules_eq Let_def media_rule_def not_netdrive)

lemma validated_netdrive:
  "length (filter is_netdrive (ruleList (media_validateDeviceRule True s m))) =
     (if s then 0 else length (filter is_netdrive (ruleList m)))"
proof -
  have "filter is_netdrive (filter (\<lambda>r. virtualType r \<noteq> Drive_Removable) l) = filter is_netdrive l"
    and "filter is_netdrive (filter (\<lambda>r. virtualType r \<noteq> Drive_Removable \<and> virtualType r \<noteq> Drive_NetDrive) l) = []" for l
    unfolding filter_filter using not_netdrive(1)
    by (auto simp: is_netdrive_def filter_empty_conv intro!: filter_cong)
  then show ?thesis by (cases s) (simp_all add: media_validateDeviceRule_def)
qed

text \<open>The three policies once their rules are made, and what is current of them.\<close>

lemma made_three:
  "addDeviceRule bw (policy_of (PolicySharedFolderCopy sp)) = (policy_of (PolicySharedFolderCopy sp))
     \<lparr>p_rule := base_addDeviceRule Drive_NetDrive False False True (lp_use (blockLog sp)) False False (-1) (CPISecRule False 0)\<rparr>"
  "\<exists>w d. addDeviceRule bw (policy_of (PolicyCopy pp cp)) = (policy_of (PolicyCopy pp cp))
     \<lparr>p_rule := base_addDeviceRule Drive_Removable False False w (lp_use (blockLog pp)) d False (-1) (CPISecRule False 0)\<rparr>"
  "\<exists>r. addDeviceRule bw (policy_of (PolicyMedia open_media)) = (policy_of (PolicyMedia
     (open_media\<lparr>ruleList := snd (media_addDeviceRule open_media (CPISecRule False 0))\<rparr>)))\<lparr>p_rule := r\<rparr>"
  by (auto simp: addDeviceRule_def policy_of_def pp_rule_def split: prod.split)

text \<open>A shared folder policy replaces the media policy's rule for network drives only if no copy
  policy stands before it: the scan stops there, and both rules for network drives are current.\<close>

theorem shared_folder_behind_copy:
  "let c = policy_of (PolicyCopy pp cp); s = policy_of (PolicySharedFolderCopy sp);
       m = policy_of (PolicyMedia open_media)
   in length (filter is_netdrive (snd (getCurrentRule (makeDeviceRule bw (online_man [c, s, m]))))) = 2 \<and>
      length (filter is_netdrive (snd (getCurrentRule (makeDeviceRule bw (online_man [s, c, m]))))) = 1"
proof -
  obtain w d where c: "addDeviceRule bw (policy_of (PolicyCopy pp cp)) = (policy_of (PolicyCopy pp cp))
     \<lparr>p_rule := base_addDeviceRule Drive_Removable False False w (lp_use (blockLog pp)) d False (-1) (CPISecRule False 0)\<rparr>"
    using made_three(2) by blast
  obtain r where m: "addDeviceRule bw (policy_of (PolicyMedia open_media)) = (policy_of (PolicyMedia
     (open_media\<lparr>ruleList := snd (media_addDeviceRule open_media (CPISecRule False 0))\<rparr>)))\<lparr>p_rule := r\<rparr>"
    using made_three(3) by blast
  let ?c = "(policy_of (PolicyCopy pp cp))\<lparr>p_rule := base_addDeviceRule Drive_Removable False False w
     (lp_use (blockLog pp)) d False (-1) (CPISecRule False 0)\<rparr>"
  let ?s = "(policy_of (PolicySharedFolderCopy sp))\<lparr>p_rule := base_addDeviceRule Drive_NetDrive False False True
     (lp_use (blockLog sp)) False False (-1) (CPISecRule False 0)\<rparr>"
  let ?om = "open_media\<lparr>ruleList := snd (media_addDeviceRule open_media (CPISecRule False 0))\<rparr>"
  let ?m = "(policy_of (PolicyMedia ?om))\<lparr>p_rule := r\<rparr>"
  have bits: "\<not> media_getControl d' c' ?om" for d' c'
    by (simp add: media_getControl_def etc_bit_def comm_bit_def open_media_def sample_media_def)
  have um: "used_media ?m" "\<not> used_media ?c" "\<not> used_media ?s" "p_use ?c" "p_use ?s" "p_use ?m"
    "copy_used ?c" "\<not> copy_used ?s" "\<not> copy_used ?m"
    by (simp_all add: used_media_def copy_used_def policy_of_def is_copy_def dlp)
  have sub: "p_dlpSubType ?c = dlpsubtypeCopyPreventPlus" "p_dlpSubType ?s = dlpsubtypeSharedFolderPreventPlus"
    by (simp_all add: policy_of_def)
  have made: "makeDeviceRule_list bw [policy_of (PolicyCopy pp cp), policy_of (PolicySharedFolderCopy sp), policy_of (PolicyMedia open_media)] = [?c, ?s, ?m]"
    "makeDeviceRule_list bw [policy_of (PolicySharedFolderCopy sp), policy_of (PolicyCopy pp cp), policy_of (PolicyMedia open_media)] = [?s, ?c, ?m]"
    by (simp_all add: makeDeviceRule_list_def made_three(1) c m policy_of_ok)
  have nf: "\<not> media_found d' c' [?c, ?s, ?m]" "\<not> media_found d' c' [?s, ?c, ?m]" for d' c'
    using um bits by (simp_all add: media_found_def policy_of_def)
  have v1: "validateDeviceRule [?c, ?s, ?m] = [?c, ?s, prevent_media True False ?m]"
    using um sub nf by (simp add: validateDeviceRule_def disableDeviceRuleByMediaControl_def disableDeviceRuleByPreventPlus_def)
  have v2: "validateDeviceRule [?s, ?c, ?m] = [?s, ?c, prevent_media True True ?m]"
    using um sub nf by (simp add: validateDeviceRule_def disableDeviceRuleByMediaControl_def disableDeviceRuleByPreventPlus_def)
  have cur: "length (filter is_netdrive (snd (getCurrentRule pm))) = (if sh then 1 else 2)"
    if "current_list pm = [?c, ?s, prevent_media True sh ?m] \<or> current_list pm = [?s, ?c, prevent_media True sh ?m]" for pm sh
    using that bits validated_netdrive [of sh ?om] media_rules_netdrive [of open_media "CPISecRule False 0"]
    by (auto simp: getCurrentRule_def Let_def policy_rules_def rule_active_def is_copyex_rule_def prevent_media_def
        policy_of_def dlp not_netdrive)
  show ?thesis
    using cur [of _ False] cur [of _ True]
    by (simp add: Let_def current_list_made made v1 v2)
qed

subsection \<open>What the passes over the policies keep\<close>

lemma validate_inv:
  assumes "\<And>p b. I p \<Longrightarrow> I (p\<lparr>p_enableDeviceRule := b\<rparr>)"
    and "\<And>p m cf sf. I p \<Longrightarrow> p_class p = PolicyMedia m \<Longrightarrow> I (p\<lparr>p_class := PolicyMedia (media_validateDeviceRule cf sf m)\<rparr>)"
    and "list_all I l"
  shows "list_all I (validateDeviceRule l)"
proof -
  have d: "list_all I (disable_loop sub l)" if "list_all I l" for sub l
    using that assms(1) by (induction l) (simp_all add: setEnableDeviceRule_def)
  have "I (prevent_media cf sf p)" if "I p" for cf sf p
    using assms(2) that by (cases "p_class p") (simp_all add: prevent_media_def)
  then have u: "list_all I (update_first P (prevent_media cf sf) l)" if "list_all I l" for P cf sf l
    using that by (induction l) simp_all
  show ?thesis
    using assms(3) by (simp add: validateDeviceRule_def Let_def disableDeviceRuleByMediaControl_def
      disableDeviceRuleByPreventPlus_def d u split: prod.split)
qed

lemma made_inv:
  assumes "\<And>p b. I p \<Longrightarrow> I (p\<lparr>p_enableDeviceRule := b\<rparr>)"
    and "\<And>p m cf sf. I p \<Longrightarrow> p_class p = PolicyMedia m \<Longrightarrow> I (p\<lparr>p_class := PolicyMedia (media_validateDeviceRule cf sf m)\<rparr>)"
    and "\<And>p. p \<in> set l \<Longrightarrow> I (made bw p)"
  shows "list_all I (validateDeviceRule (makeDeviceRule_list bw l))"
proof -
  have "list_all I (makeDeviceRule_list bw l)"
    using assms(3) by (auto simp: makeDeviceRule_list_def list_all_iff made_def [symmetric])
  with assms(1,2) show ?thesis by (rule validate_inv)
qed

end
