(* ===== verification/DeviceMan.thy ===== *)
theory DeviceMan
  imports PolicyLink PolicyMan
begin

text \<open>
  \<open>CPIDeviceMan\<close> (\<open>PISupervisor/src/PIDeviceMan.cpp\<close>): turns the current rules and the
  configuration into the command messages of the agent, and answers the agent's questions about
  a file. The configuration, the mounted USB drives and what the analysis of a file answered are
  arguments.
\<close>

record dm_config =
  allowProcessList :: "string list"
  allowFolderList :: "string list"
  allowFileExtList :: "string list"
  quarantinePath :: string
  qtLimitUse :: bool
  airDropProtectUse :: bool
  unRegisterUSBReadBlockUse :: bool

record usb_drive =
  mountPoint :: string
  encryptedSerial :: string
  usbSerialPlain :: string

subsection \<open>Drive rules\<close>

definition isDeviceRule :: "sec_rule \<Rightarrow> bool" where
  "isDeviceRule r \<longleftrightarrow> virtualType r \<in> {Device_Serial, Device_Parallel, Device_IEEE1394, Device_CDDVD}"

definition isDriveRule :: "sec_rule \<Rightarrow> bool" where
  "isDriveRule r \<longleftrightarrow>
     virtualType r \<in> {Drive_Removable, Drive_Floppy, Drive_CDDVD, Device_Bluetooth, Drive_NetDrive}"

definition GetDriveRuleCount :: "sec_rule list \<Rightarrow> nat" where
  "GetDriveRuleCount l = length (filter isDriveRule l)"

text \<open>\<open>n\<close> is the field the constructor of the new rule leaves uninitialised.\<close>

definition SetClearPolicyDrive :: "int \<Rightarrow> sec_rule list \<Rightarrow> bool \<times> sec_rule list" where
  "SetClearPolicyDrive n l =
     (if 0 < GetDriveRuleCount l then (False, l)
      else (True, l @ [(rule_clear (CPISecRule False n))\<lparr>virtualType := Drive_Floppy,
        disableAll := False, disableRead := False, disableWrite := False, enableLog := False,
        blockSelectedBluetooth := False\<rparr>]))"

definition drive_device :: "sec_rule \<Rightarrow> attached_device_ex" where
  "drive_device r = (let d = deviceEx (getData r) in d\<lparr>cDevice := (cDevice d)\<lparr>bDisableAll := 0\<rparr>\<rparr>)"

definition device_ex_bytes :: "attached_device_ex list \<Rightarrow> u8 list" where
  "device_ex_bytes ds = concat (map (\<lambda>d. enc_fields (device_ex_fields d)) ds)"

definition device_bytes :: "attached_device list \<Rightarrow> u8 list" where
  "device_bytes ds = concat (map (\<lambda>d. enc_fields (device_fields d)) ds)"

text \<open>The array of structures, null when there are none, and its size.\<close>

definition as_array :: "u8 list \<Rightarrow> u8 list option" where
  "as_array b = (if b = [] then None else Some b)"

definition applyPolicyDrive :: "esf_cfg \<Rightarrow> int \<Rightarrow> sec_rule list \<Rightarrow> esf \<Rightarrow> (bool \<times> sec_rule list \<times> esf) option" where
  "applyPolicyDrive cfg n l s = do {
     let rules = (if GetDriveRuleCount l \<le> 0 then snd (SetClearPolicyDrive n l) else l);
     let ds = map drive_device (filter isDriveRule rules);
     (result, s1) \<leftarrow> applyPolicy cfg cmd_SetDrivePolicy (as_array (device_ex_bytes ds))
        (SIZEOF_ATTACHED_DEVICE_EX * length ds) s;
     Some (True, rules, s1)
   }"

subsection \<open>Exceptions\<close>

text \<open>The name of a drive is cut to the array of the structure.\<close>

definition exception :: "string \<Rightarrow> bool \<Rightarrow> bool \<Rightarrow> bool \<Rightarrow> u32 \<Rightarrow> attached_device" where
  "exception name lg read write reserved =
     \<lparr>bLoggingOn = of_cbool lg, bDisableAll = 0, bDisableRead = of_cbool read, bDisableWrite = of_cbool write,
      nReserved1 = reserved,
      DeviceNames = take (if length name < DEVICE_NAME_SZ then length name else DEVICE_NAME_SZ - 1) name\<rparr>"

definition strncasecmp_eq :: "string \<Rightarrow> string \<Rightarrow> nat \<Rightarrow> bool" where
  "strncasecmp_eq a b n \<longleftrightarrow> toLower (take n a) = toLower (take n b)"

text \<open>What a permitted drive is exempt from: with control type 1 and a copy policy, writing stays under
  inspection; with control type 2 it is blocked.\<close>

definition permit_exception :: "bool \<Rightarrow> int \<Rightarrow> bool \<Rightarrow> usb_drive \<Rightarrow> attached_device" where
  "permit_exception lg kind copy u =
     (if kind = 1 then
        (if copy then exception (mountPoint u) lg False True (-1)
         else exception (mountPoint u) lg False False 1)
      else if kind = 2 then exception (mountPoint u) lg False True 1
      else exception (mountPoint u) lg False False 1)"

definition permit_matches :: "usb_drive \<Rightarrow> string \<Rightarrow> bool" where
  "permit_matches u name \<longleftrightarrow> 0 < length name \<and> strncasecmp_eq (usbSerialPlain u) name (length name)"

definition applyExceptPolicyDriveAllow :: "policy_man \<Rightarrow> usb_drive list \<Rightarrow> bool \<times> attached_device list" where
  "applyExceptPolicyDriveAllow pm us =
     (case getCurrentRule pm of (ok, rules) \<Rightarrow>
        if \<not> ok then (False, [])
        else case List.find (\<lambda>r. virtualType r = Drive_Removable) rules of
          None \<Rightarrow> (True, [])
        | Some r \<Rightarrow>
            (let d = cDevice (deviceEx (getData r)); permits = vecRemovableDrivePermitList r;
                 copy = getCurrentDLPPolicy dlptypePreventPlus dlpsubtypeCopyPreventPlus pm \<noteq> None \<or>
                        getCurrentDLPPolicy dlptypePreventPlus dlpsubtypeCopyExPreventPlus pm \<noteq> None
             in if 0 < length permits \<and> bDisableRead d \<noteq> 0 \<and> bDisableWrite d \<noteq> 0
                then (True, concat (map (\<lambda>p. map (permit_exception (bLoggingOn d \<noteq> 0)
                          (nRemovableDrivePermitAllowControlType r) copy)
                        (filter (\<lambda>u. permit_matches u (czMediaID p)) us)) permits))
                else (True, [])))"

text \<open>\<open>dynamic_cast\<close> to \<open>CDLPPolicyCopy\<close>, of which \<open>CDLPPolicyCopyEx\<close> is a subclass.\<close>

definition as_Copy :: "dlp_policy option \<Rightarrow> policy_class option" where
  "as_Copy x = (case x of None \<Rightarrow> None
     | Some p \<Rightarrow> (case p_class p of PolicyCopy _ _ \<Rightarrow> Some (p_class p) | PolicyCopyEx _ _ _ \<Rightarrow> Some (p_class p)
                | _ \<Rightarrow> None))"

definition block_exception :: "string \<Rightarrow> attached_device" where
  "block_exception name = exception name True True True (-1)"

definition applyExceptPolicyUSBReadBlockByUnregister :: "dm_config \<Rightarrow> policy_man \<Rightarrow> usb_drive list
    \<Rightarrow> attached_device list" where
  "applyExceptPolicyUSBReadBlockByUnregister cf pm us =
     (if \<not> unRegisterUSBReadBlockUse cf then []
      else if (case as_Copy (getCurrentDLPPolicy dlptypePreventPlus dlpsubtypeCopyPreventPlus pm) of
                 None \<Rightarrow> False | Some c \<Rightarrow> policy_isBlockReadAll c) then []
      else if (case getCurrentDLPPolicy dlptypeControl dlpsubtypeMediaControl pm of None \<Rightarrow> False
               | Some p \<Rightarrow> (case as_Media (p_class p) of None \<Rightarrow> False
                  | Some m \<Rightarrow> media_getControl 2 etcstorageBlockRemovableRead m)) then []
      else map (block_exception \<circ> mountPoint) (filter (\<lambda>u. \<not> isRegisteredUSB (encryptedSerial u) pm) us))"

definition applyExceptPolicyUSBReadBlockByCopyPrevent :: "policy_man \<Rightarrow> usb_drive list \<Rightarrow> attached_device list" where
  "applyExceptPolicyUSBReadBlockByCopyPrevent pm us =
     (case as_Copy (getCurrentDLPPolicy dlptypePreventPlus dlpsubtypeCopyPreventPlus pm) of
        None \<Rightarrow> []
      | Some c \<Rightarrow>
          if policy_isBlockReadAll c then []
          else map (block_exception \<circ> mountPoint) (filter (\<lambda>u.
            case policy_getDLPCopyControl (Some (getDLPUSBDrive (encryptedSerial u) pm)) c of
              None \<Rightarrow> False | Some ctl \<Rightarrow> \<not> readPermit (usbDriveControl ctl)) us))"

definition applyExceptPolicyDriveBlock :: "dm_config \<Rightarrow> policy_man \<Rightarrow> usb_drive list \<Rightarrow> attached_device list" where
  "applyExceptPolicyDriveBlock cf pm us =
     applyExceptPolicyUSBReadBlockByUnregister cf pm us @ applyExceptPolicyUSBReadBlockByCopyPrevent pm us"

definition applyExceptPolicyDrive :: "esf_cfg \<Rightarrow> dm_config \<Rightarrow> policy_man \<Rightarrow> usb_drive list \<Rightarrow> esf
    \<Rightarrow> (bool \<times> esf) option" where
  "applyExceptPolicyDrive cfg cf pm us s =
     (let es = snd (applyExceptPolicyDriveAllow pm us) @ applyExceptPolicyDriveBlock cf pm us
      in applyPolicy cfg cmd_SetExceptDrivePolicy (as_array (device_bytes es)) (SIZEOF_ATTACHED_DEVICE * length es) s)"

subsection \<open>Media\<close>

definition first_rule :: "string \<Rightarrow> sec_rule list \<Rightarrow> sec_rule option" where
  "first_rule vt l = List.find (\<lambda>r. virtualType r = vt) l"

text \<open>Whether the first rule of a kind logs and blocks.\<close>

definition media_switches :: "string \<Rightarrow> sec_rule list \<Rightarrow> bool \<times> bool" where
  "media_switches vt l =
     (case first_rule vt l of None \<Rightarrow> (False, False)
      | Some r \<Rightarrow> (let d = cDevice (deviceEx (getData r)) in (bLoggingOn d \<noteq> 0, bDisableAll d \<noteq> 0)))"

definition dm_applyPolicyUSBMobile :: "esf_cfg \<Rightarrow> usb_mobile list \<Rightarrow> sec_rule list \<Rightarrow> esf
    \<Rightarrow> (bool \<times> esf) option" where
  "dm_applyPolicyUSBMobile cfg usbmobileList l s =
     (case media_switches Device_USBMobile l of (lg, control) \<Rightarrow>
        let permits = (case first_rule Device_USBMobile l of None \<Rightarrow> []
              | Some r \<Rightarrow> if control then vecUSBMobilePermitList r else [])
        in applyPolicyUSBMobile cfg control lg (Some usbmobileList) (Some permits) s)"

definition dm_applyPolicyCamera :: "esf_cfg \<Rightarrow> sec_rule list \<Rightarrow> esf \<Rightarrow> (bool \<times> esf) option" where
  "dm_applyPolicyCamera cfg l s =
     (case media_switches Device_Camera l of (lg, control) \<Rightarrow> applyPolicyCamera cfg control lg s)"

definition dm_applyPolicyAirDrop :: "esf_cfg \<Rightarrow> dm_config \<Rightarrow> sec_rule list \<Rightarrow> esf \<Rightarrow> (bool \<times> esf) option" where
  "dm_applyPolicyAirDrop cfg cf l s =
     (case (if airDropProtectUse cf then media_switches Share_AirDrop l else (False, False)) of
        (lg, control) \<Rightarrow> applyPolicyAirDrop cfg control lg s)"

definition dm_applyPolicyRndis :: "esf_cfg \<Rightarrow> sec_rule list \<Rightarrow> esf \<Rightarrow> (bool \<times> esf) option" where
  "dm_applyPolicyRndis cfg l s =
     (case media_switches NDIS_WWAN l of (lg, control) \<Rightarrow> applyPolicyRndis cfg control lg s)"

subsection \<open>Names and quarantine\<close>

text \<open>A name is cut to leave room for its terminator.\<close>

definition cut_name :: "nat \<Rightarrow> string \<Rightarrow> string" where
  "cut_name n s = take (if length s < n then length s else n - 1) s"

definition names_bytes :: "nat \<Rightarrow> string list \<Rightarrow> u8 list" where
  "names_bytes n l = concat (map (\<lambda>s. enc_fields (name_fields n (cut_name n s))) l)"

definition setAllowedProcess :: "esf_cfg \<Rightarrow> dm_config \<Rightarrow> esf \<Rightarrow> (bool \<times> esf) option" where
  "setAllowedProcess cfg cf s = do {
     (r, s1) \<leftarrow> applyPolicy cfg cmd_SetPermitProcessName (as_array (names_bytes SIZEOF_ALLOWPROCESSNAME (allowProcessList cf)))
       (SIZEOF_ALLOWPROCESSNAME * length (allowProcessList cf)) s;
     Some (True, s1)
   }"

definition setAllowedFolderName :: "esf_cfg \<Rightarrow> dm_config \<Rightarrow> esf \<Rightarrow> (bool \<times> esf) option" where
  "setAllowedFolderName cfg cf s = do {
     (r, s1) \<leftarrow> applyPolicy cfg cmd_SetPermitFolderName (as_array (names_bytes SIZEOF_ALLOWFOLDERNAME (allowFolderList cf)))
       (SIZEOF_ALLOWFOLDERNAME * length (allowFolderList cf)) s;
     Some (True, s1)
   }"

definition setAllowedFileExtName :: "esf_cfg \<Rightarrow> dm_config \<Rightarrow> esf \<Rightarrow> (bool \<times> esf) option" where
  "setAllowedFileExtName cfg cf s = do {
     (r, s1) \<leftarrow> applyPolicy cfg cmd_SetPermitFileExtName (as_array (names_bytes SIZEOF_ALLOWFILEEXTNAME (allowFileExtList cf)))
       (SIZEOF_ALLOWFILEEXTNAME * length (allowFileExtList cf)) s;
     Some (True, s1)
   }"

definition setAllowedFolder :: "esf_cfg \<Rightarrow> dm_config \<Rightarrow> esf \<Rightarrow> (bool \<times> esf) option" where
  "setAllowedFolder cfg cf s = do {
     (r, s1) \<leftarrow> setAllowedFolderName cfg cf s;
     (r', s2) \<leftarrow> setAllowedFileExtName cfg cf s1;
     Some (True, s2)
   }"

text \<open>The path and its terminator are cut to the 512 bytes of the entry: a longer path has none.\<close>

definition default_quarantine :: string where
  "default_quarantine = ''/usr/local/Privacy-i/Quarantine''"

definition qt_bytes :: "string \<Rightarrow> u8 list" where
  "qt_bytes path = le_bytes 8 (0 :: u64) @ le_bytes 4 (1 :: u32) @ le_bytes 4 (0 :: u32) @
     take 512 (chars_of path @ replicate 512 0) @ replicate (2 * (4 + 512)) 0"

definition setQuarantineFilePath :: "esf_cfg \<Rightarrow> dm_config \<Rightarrow> esf \<Rightarrow> (bool \<times> esf) option" where
  "setQuarantineFilePath cfg cf s = do {
     (r, s1) \<leftarrow> applyPolicy cfg cmd_SetQuarantinePathExt
       (Some (qt_bytes (if quarantinePath cf = [] then default_quarantine else quarantinePath cf))) SIZEOF_QT_CTX s;
     Some (True, s1)
   }"

definition setQuarantineLimit :: "esf_cfg \<Rightarrow> dm_config \<Rightarrow> esf \<Rightarrow> (bool \<times> esf) option" where
  "setQuarantineLimit cfg cf s = do {
     (r, s1) \<leftarrow> applyPolicy cfg cmd_SetQuarantineLimit (Some (le_bytes 4 (of_cbool (qtLimitUse cf) :: u32))) 4 s;
     Some (True, s1)
   }"

subsection \<open>Printing, uploads, processes, self protection\<close>

definition print_policy_of :: "policy_man \<Rightarrow> print_policy" where
  "print_policy_of pm =
     (let p0 = zero_print\<lparr>pp_nReserved1 := -1, pp_nPolicyType := MEDIA_PRINTPREVENT\<rparr> in
      case getCurrentDLPPolicy dlptypePreventPlus dlpsubtypePrintPreventPlus pm of
        None \<Rightarrow> p0
      | Some p \<Rightarrow> (case p_class p of
          PolicyPrint pp x \<Rightarrow> p0\<lparr>pp_bPolicy := 1, pp_bWatermark := of_cbool (useWatermark x),
            pp_bDisableWrite := 1, pp_nReserved1 := -1\<rparr>
        | _ \<Rightarrow> p0))"

definition applyPolicyPrintPrevent :: "esf_cfg \<Rightarrow> policy_man \<Rightarrow> esf \<Rightarrow> (bool \<times> esf) option" where
  "applyPolicyPrintPrevent cfg pm s = do {
     (r, s1) \<leftarrow> applyPolicy cfg cmd_SetPrintPrevent (Some (enc_fields (print_fields (print_policy_of pm))))
       SIZEOF_PRINT_POLICY s;
     Some (True, s1)
   }"

text \<open>\<open>UPLOAD_POLICY\<close> as bytes; \<open>m_sControlList\<close>, an argument, overwrites the pointer at its end.\<close>

definition MEDIA_UPLOADPREVENT :: u32 where "MEDIA_UPLOADPREVENT = 0x2000"

definition upload_bytes :: "u64 \<Rightarrow> u64 \<Rightarrow> u64 \<Rightarrow> u8 list \<Rightarrow> u8 list" where
  "upload_bytes pol write sz ctl =
     le_bytes 8 pol @ le_bytes 4 MEDIA_UPLOADPREVENT @ replicate 24 0 @ le_bytes 8 write @
     le_bytes 4 (-1 :: u32) @ replicate 256 0 @ le_bytes 8 sz @ ctl"

definition applyPolicyUploadPrevent :: "esf_cfg \<Rightarrow> string \<Rightarrow> policy_man \<Rightarrow> esf \<Rightarrow> (bool \<times> esf) option" where
  "applyPolicyUploadPrevent cfg sControlList pm s = do {
     let b = (case getCurrentDLPPolicy dlptypePreventPlus dlpsubtypeUploadPreventPlus pm of
           Some p \<Rightarrow> (case p_class p of
               PolicyUpload pp \<Rightarrow> upload_bytes 1 1 (of_nat (length sControlList)) (chars_of sControlList @ replicate 8 0)
             | _ \<Rightarrow> upload_bytes 0 0 0 (replicate 8 0))
         | None \<Rightarrow> upload_bytes 0 0 0 (replicate 8 0));
     (r, s1) \<leftarrow> applyPolicy cfg cmd_SetUploadPrevent (Some b) (length b) s;
     Some (True, s1)
   }"

text \<open>\<open>CPIApplicationControl::getProcessControl\<close>: without applications to control there is nothing to
  control or log.\<close>

definition app_getProcessControl :: "policy_man \<Rightarrow> bool \<times> bool" where
  "app_getProcessControl pm =
     (case getProcessControl pm of (enable, lg, cnt) \<Rightarrow>
        if (case cnt of None \<Rightarrow> 0 | Some n \<Rightarrow> n) = 0 then (False, False) else (enable, lg))"

definition dm_applyPolicyProcess :: "esf_cfg \<Rightarrow> policy_man \<Rightarrow> esf \<Rightarrow> (bool \<times> esf) option" where
  "dm_applyPolicyProcess cfg pm s = do {
     let (control, lg) = app_getProcessControl pm;
     (r, s1) \<leftarrow> applyPolicyProcess cfg control lg s;
     Some (True, s1)
   }"

definition setSelfProtect :: "esf_cfg \<Rightarrow> bool \<Rightarrow> esf \<Rightarrow> (bool \<times> esf) option" where
  "setSelfProtect cfg m_bProtect s =
     applyPolicy cfg cmd_SetSelfProtect (Some (le_bytes 4 (of_cbool m_bProtect :: u32))) 4 s"

text \<open>\<open>bProtect\<close> is one byte here, read as an \<open>int\<close> by the stub.\<close>

definition setSelfProtectOnlyPermit :: "esf_cfg \<Rightarrow> esf \<Rightarrow> (bool \<times> esf) option" where
  "setSelfProtectOnlyPermit cfg s = applyPolicy cfg cmd_SetSelfProtectOnlyPermit (Some [0]) 1 s"

subsection \<open>Applying the policy\<close>

record dm_env =
  e_cfg :: esf_cfg
  e_config :: dm_config
  e_usb :: "usb_drive list"
  e_usbmobile :: "usb_mobile list"
  e_uninit :: int
  e_upload :: string

text \<open>The sequence of \<open>CPIDeviceMan::applyPolicy\<close>; the thread it starts for shared folders is not part
  of it.\<close>

definition dm_applyPolicy :: "dm_env \<Rightarrow> policy_man \<Rightarrow> esf \<Rightarrow> (bool \<times> esf) option" where
  "dm_applyPolicy e pm s =
     (let cfg = e_cfg e; cf = e_config e in
      case getCurrentRule pm of (ok, l) \<Rightarrow>
        if \<not> ok then do {
          (r1, l1, s1) \<leftarrow> applyPolicyDrive cfg (e_uninit e) l s;
          (r2, s2) \<leftarrow> applyExceptPolicyDrive cfg cf pm (e_usb e) s1;
          (r3, s3) \<leftarrow> dm_applyPolicyCamera cfg l1 s2;
          (r4, s4) \<leftarrow> dm_applyPolicyRndis cfg l1 s3;
          (r5, s5) \<leftarrow> dm_applyPolicyAirDrop cfg cf l1 s4;
          Some (False, s5)
        } else do {
          (r1, s1) \<leftarrow> dm_applyPolicyProcess cfg pm s;
          (r2, s2) \<leftarrow> dm_applyPolicyUSBMobile cfg (e_usbmobile e) l s1;
          (r3, s3) \<leftarrow> dm_applyPolicyCamera cfg l s2;
          (r4, s4) \<leftarrow> dm_applyPolicyRndis cfg l s3;
          (r5, s5) \<leftarrow> dm_applyPolicyAirDrop cfg cf l s4;
          (r6, s6) \<leftarrow> setQuarantineFilePath cfg cf s5;
          (r7, s7) \<leftarrow> setAllowedProcess cfg cf s6;
          (r8, s8) \<leftarrow> setAllowedFolder cfg cf s7;
          (r9, l9, s9) \<leftarrow> applyPolicyDrive cfg (e_uninit e) l s8;
          (r10, s10) \<leftarrow> applyExceptPolicyDrive cfg cf pm (e_usb e) s9;
          (r11, s11) \<leftarrow> applyPolicyPrintPrevent cfg pm s10;
          (r12, s12) \<leftarrow> applyPolicyUploadPrevent cfg (e_upload e) pm s11;
          Some (True, s12)
        })"

subsection \<open>Questions of the agent\<close>

definition isMediaControlUSBReadAllowWriteBlock :: "policy_man \<Rightarrow> bool" where
  "isMediaControlUSBReadAllowWriteBlock pm =
     (case first_rule Drive_Removable (snd (getCurrentRule pm)) of None \<Rightarrow> False
      | Some r \<Rightarrow> \<not> disableRead r \<and> disableWrite r)"

definition MEDIA_COPYPREVENT :: u32 where "MEDIA_COPYPREVENT = 0x0001"
definition MEDIA_MTP :: u32 where "MEDIA_MTP = 0x0100"
definition MEDIA_PTP :: u32 where "MEDIA_PTP = 0x0200"
definition MEDIA_PROCESS :: u32 where "MEDIA_PROCESS = 0x8000"

definition isMediaControlLog :: "u32 \<Rightarrow> bool" where
  "isMediaControlLog t \<longleftrightarrow> t \<notin> {0, MEDIA_COPYPREVENT, MEDIA_MTP, MEDIA_PTP, MEDIA_PRINTPREVENT,
     MEDIA_UPLOADPREVENT, MEDIA_PROCESS}"

record evt_param =
  evt_bAccess :: bool
  evt_Command :: u32
  evt_ProcessId :: u32
  evt_FileSize :: u64
  evt_filePath :: string
  evt_qtFilePath :: string
  evt_ullReserved :: u32

text \<open>What the supervisor asks the DLP agent about a file.\<close>

datatype query =
    AnalyzeContent string string u32 u32
  | AnalyzeCopy string string u32 u32
  | NotifyFileDelete string u32
  | NotifyDiskFull string string

definition isSharedFolder :: "u32 \<Rightarrow> bool" where
  "isSharedFolder bus \<longleftrightarrow> bus = 0x21"

definition getDeviceCategory :: "bool \<Rightarrow> u32" where
  "getDeviceCategory shared = (if shared then 0x0010 else 0x0008)"

definition ActionTypePrint :: u32 where "ActionTypePrint = 0x80"
definition ActionTypeUpload :: u32 where "ActionTypeUpload = 0x81"

text \<open>\<open>ask\<close> puts a question and gives the answer, 0 when there is none; \<open>exists\<close> is what \<open>access\<close>
  says of a path.\<close>

definition smartdrvFileScan :: "(query \<Rightarrow> u32 option) \<Rightarrow> (string \<Rightarrow> bool) \<Rightarrow> policy_man \<Rightarrow> evt_param \<Rightarrow> evt_param option" where
  "smartdrvFileScan ask exists pm e = do {
     allow \<leftarrow>
       (if evt_ullReserved e = ActionTypePrint \<or> evt_ullReserved e = ActionTypeUpload then
          (let pdfPath = (if evt_qtFilePath e = [] then evt_filePath e else evt_qtFilePath e) in
           if pdfPath = [] then Some True
           else if evt_ullReserved e = ActionTypeUpload \<and> \<not> exists pdfPath then Some True
           else map_option (\<lambda>result. result \<noteq> 1)
             (ask (AnalyzeContent pdfPath (evt_filePath e) (evt_ProcessId e) (evt_ullReserved e))))
        else
          (let sharedFolder = isSharedFolder (evt_ullReserved e) in
           if \<not> sharedFolder \<and> getCurrentDLPPolicy dlptypePreventPlus dlpsubtypeCopyPreventPlus pm = None
           then Some (\<not> isMediaControlUSBReadAllowWriteBlock pm)
           else if evt_filePath e = [] \<and> evt_qtFilePath e = [] then Some True
           else map_option (\<lambda>result. result \<noteq> 1)
             (ask (AnalyzeCopy (evt_filePath e) (evt_qtFilePath e) (getDeviceCategory sharedFolder) (evt_ProcessId e)))));
     Some (e\<lparr>evt_bAccess := allow\<rparr>)
   }"

definition smartdrvFileDelete :: "(query \<Rightarrow> u32 option) \<Rightarrow> policy_man \<Rightarrow> evt_param \<Rightarrow> evt_param option" where
  "smartdrvFileDelete ask pm e = do {
     allow \<leftarrow>
       (case getCurrentDLPPolicy dlptypePreventPlus dlpsubtypeCopyPreventPlus pm of
          None \<Rightarrow> Some (\<not> isMediaControlUSBReadAllowWriteBlock pm)
        | Some p \<Rightarrow> if evt_filePath e = [] then Some True
            else map_option (\<lambda>result. result \<noteq> 1) (ask (NotifyFileDelete (evt_filePath e) (evt_ProcessId e))));
     Some (e\<lparr>evt_bAccess := allow\<rparr>)
   }"

text \<open>The answer to a full disk is not used.\<close>

definition smartdrvFileEventDiskFull :: "(query \<Rightarrow> u32 option) \<Rightarrow> evt_param \<Rightarrow> evt_param option" where
  "smartdrvFileEventDiskFull ask e = do { result \<leftarrow> ask (NotifyDiskFull ''0x00000000'' (evt_filePath e)); Some e }"

subsection \<open>The drive rules on the wire\<close>

lemma device_ex_bytes_length:
  "\<forall>d \<in> set ds. device_ok (cDevice d) \<Longrightarrow> length (device_ex_bytes ds) = SIZEOF_ATTACHED_DEVICE_EX * length ds"
  using device_ex_codec.enc_array_length [of ds]
  by (simp add: device_ex_bytes_def struct_sizes mult.commute)

lemma device_bytes_length:
  "\<forall>d \<in> set ds. device_ok d \<Longrightarrow> length (device_bytes ds) = SIZEOF_ATTACHED_DEVICE * length ds"
  using device_codec.enc_array_length [of ds] by (simp add: device_bytes_def struct_sizes mult.commute)

lemma payload_drive:
  "\<forall>d \<in> set ds. device_ok (cDevice d) \<Longrightarrow> payload_of cmd_SetDrivePolicy (device_ex_bytes ds) = DevicesEx ds"
  using device_ex_codec.dec_array_enc [of ds] by (simp add: payload_of_def device_ex_bytes_def)

lemma payload_except:
  "\<forall>d \<in> set ds. device_ok d \<Longrightarrow> payload_of cmd_SetExceptDrivePolicy (device_bytes ds) = Devices ds"
  using device_codec.dec_array_enc [of ds] by (simp add: payload_of_def device_bytes_def cmd_defs)

lemma drive_device_ok:
  assumes "isDriveRule r" and "deviceEx r = new_device_ex"
  shows "device_ok (cDevice (drive_device r))"
  using assms
  by (auto simp: drive_device_def isDriveRule_def getData_defs Let_def device_ok_def new_device_ex_def
      new_device_def zero_device_def bsl_def vt)

lemma applyPolicyDrive_sent:
  assumes "filter isDriveRule l \<noteq> []" and "\<forall>r \<in> set l. isDriveRule r \<longrightarrow> deviceEx r = new_device_ex"
    and "cfg_mem cfg" and "0 < m_nESFCtlId s" and "isActive (cfg_ps cfg)"
  shows "applyPolicyDrive cfg n l s = map_option (\<lambda>(b, s1). (True, l, s1))
    (store_result (fn_msg cfg cmd_SetDrivePolicy (device_ex_bytes (map drive_device (filter isDriveRule l))) s))"
proof -
  let ?ds = "map drive_device (filter isDriveRule l)"
  have ok: "\<forall>d \<in> set ?ds. device_ok (cDevice d)"
    using assms(2) drive_device_ok by auto
  have len: "length (device_ex_bytes ?ds) = 296 * length ?ds"
    using device_ex_bytes_length [OF ok] by (simp add: sizeof_defs)
  then have "0 < length (device_ex_bytes ?ds)" using assms(1) by (cases "filter isDriveRule l") simp_all
  then have ne: "device_ex_bytes ?ds \<noteq> []" by fastforce
  have c: "\<not> GetDriveRuleCount l \<le> 0" using assms(1) by (simp add: GetDriveRuleCount_def)
  have sz: "SIZEOF_ATTACHED_DEVICE_EX * length ?ds = length (device_ex_bytes ?ds)"
    using len by (simp add: sizeof_defs)
  have "as_array (device_ex_bytes ?ds) = Some (device_ex_bytes ?ds)" using ne by (simp add: as_array_def)
  then have "applyPolicy cfg cmd_SetDrivePolicy (as_array (device_ex_bytes ?ds))
      (SIZEOF_ATTACHED_DEVICE_EX * length ?ds) s = store_result (fn_msg cfg cmd_SetDrivePolicy (device_ex_bytes ?ds) s)"
    using applyPolicy_drive [OF assms(3,5) ne] sz by metis
  then show ?thesis
    unfolding applyPolicyDrive_def Let_def if_not_P [OF c]
    by (cases "store_result (fn_msg cfg cmd_SetDrivePolicy (device_ex_bytes ?ds) s)") auto
qed

lemma Parser_drive: "Command m = cmd_SetDrivePolicy \<Longrightarrow>
    SmartCmd_Parser_CM mem (Some m) k = SmartCmd_SetDrivePolicy (Some m) k"
  by (simp add: SmartCmd_Parser_CM_def)

lemma drive_rules_delivered:
  assumes "filter isDriveRule l \<noteq> []" and "\<forall>r \<in> set l. isDriveRule r \<longrightarrow> deviceEx r = new_device_ex"
    and "length (filter isDriveRule l) \<le> MAX_POLICY"
    and "cfg_mem cfg" and "0 < m_nESFCtlId s" and "isActive (cfg_ps cfg)" and "\<not> bigEndian (cfg_support cfg)"
    and "wf_kext k" and "base_paths_ok k"
    and "\<not> bigEndian (csupport c)" and "tcpState c \<noteq> TCPSTATE_NOTCONNECTED" and "listSend c = []"
    and "listRecv c = []" and "remainedRecvBufSize c = 0" and "10688 \<le> length (tcpRecvBuffer c)"
    and "0 \<le> l_socket ln" and "l_connect ln" and "28 \<le> length (l_mem ln)"
    and "l_writes ln = [int (296 * length (filter isDriveRule l) + 32)]"
  shows "\<exists>out rep c' k' s'.
    serve_client mem \<lparr>io_select = 1, io_reads = [ReadData out], io_writes = [[28]]\<rparr> c k = Some (rep, Some c', k') \<and>
    applyPolicyDrive cfg n l (s\<lparr>esf_links := ln\<lparr>l_reads := [ReadData rep]\<rparr> # ls\<rparr>) = Some (True, l, s') \<and>
    wf_kext k' \<and> policies k' = map drive_device (filter isDriveRule l) \<and> excepts k' = excepts k \<and>
    VolCtx k' = VolCtx k \<and> DrvPolicy.controls k' = entries k'"
proof -
  define ds where "ds = map drive_device (filter isDriveRule l)"
  define d where "d = device_ex_bytes ds"
  have ok: "\<forall>x \<in> set ds. device_ok (cDevice x)"
    using assms(2) drive_device_ok by (auto simp: ds_def)
  have len: "length d = 296 * length ds" and n: "length ds \<le> 36"
    using device_ex_bytes_length [OF ok] assms(3) by (simp_all add: d_def ds_def sizeof_defs)
  let ?m = "\<lparr>Size = of_nat (8 + length d), Command = cmd_SetDrivePolicy, Data = payload_of cmd_SetDrivePolicy d\<rparr>"
  have m: "Data ?m = DevicesEx ds" "sized ?m (length ds) SIZEOF_ATTACHED_DEVICE_EX"
    using payload_drive [OF ok] len by (simp_all add: d_def sized_def sizeof_defs mult.commute)
  obtain k' where k': "SmartCmd_SetDrivePolicy (Some ?m) k = Some (0, k')" "wf_kext k'" "policies k' = ds"
      "excepts k' = excepts k" "VolCtx k' = VolCtx k" "DrvPolicy.controls k' = entries k'"
    using SetDrivePolicy_ok [OF assms(8,9) m(1) _ m(2)] n by auto
  have p: "SmartCmd_Parser_CM mem (Some ?m) k = Some (0, k')" using k'(1) by (simp add: Parser_drive)
  obtain out rep c' where r: "serve_client mem \<lparr>io_select = 1, io_reads = [ReadData out], io_writes = [[28]]\<rparr> c k =
        Some (rep, Some c', k')"
      "fn_msg cfg cmd_SetDrivePolicy d (s\<lparr>esf_links := ln\<lparr>l_reads := [ReadData rep]\<rparr> # ls\<rparr>) =
        Some (1, s\<lparr>esf_links := ls, esf_wire := esf_wire s @ [out]\<rparr>)"
    using command_delivered [OF assms(4,5,7) _ p assms(10-14) _ assms(16,17) _ assms(18), where ls = ls] assms(15,19) len n
    by (auto simp: ds_def)
  have "applyPolicyDrive cfg n l (s\<lparr>esf_links := ln\<lparr>l_reads := [ReadData rep]\<rparr> # ls\<rparr>) =
      Some (True, l, s\<lparr>esf_links := ls, esf_wire := esf_wire s @ [out], esf_result := 1\<rparr>)"
    using applyPolicyDrive_sent [OF assms(1,2,4) _ assms(6), of "s\<lparr>esf_links := ln\<lparr>l_reads := [ReadData rep]\<rparr> # ls\<rparr>" n]
      assms(5) r(2) by (simp add: ds_def [symmetric] d_def [symmetric] store_result_def)
  with r(1) k' show ?thesis unfolding ds_def by blast
qed

end
