(* ===== verification/Volumes.thy ===== *)
theory Volumes
  imports DrvPolicy
begin

text \<open>
  The volume table of the agent: \<open>VolCtx_*\<close> and \<open>GetMountPath\<close> of \<open>PIKern/PISecSmartDrv.c\<close>,
  the mount enumeration and the test for controlled paths of \<open>PIKern/KextDeviceNotify.cpp\<close>, the
  table of watched mounts of \<open>PIKern/PIESF.cpp\<close>; Linux branch. The mount list of the system,
  what udev knows of a device and whether a mark is accepted are arguments.
\<close>

subsection \<open>Watched mounts\<close>

datatype fan_flag = FAN_MARK_ADD | FAN_MARK_REMOVE | FAN_MARK_MOUNT

text \<open>\<open>monitors\<close> is the part of the table below \<open>n_monitors\<close>, \<open>mark_reqs\<close> the \<open>fanotify_mark\<close>
  calls made so far, newest first.\<close>

record vol_world =
  kx :: drv_kext
  monitors :: "string list"
  mark_reqs :: "(fan_flag list \<times> string) list"

definition fnAddNotify :: "(string \<Rightarrow> bool) \<Rightarrow> string \<Rightarrow> vol_world \<Rightarrow> vol_world option" where
  "fnAddNotify mark path w =
     (if MAX_DEVICE \<le> length (monitors w) then None
      else Some (w\<lparr>monitors := (if mark path then monitors w @ [path] else monitors w),
                   mark_reqs := ([FAN_MARK_ADD, FAN_MARK_MOUNT], path) # mark_reqs w\<rparr>))"

definition fnRemoveNotify :: "vol_world \<Rightarrow> vol_world" where
  "fnRemoveNotify w = w\<lparr>monitors := [],
     mark_reqs := rev (map (\<lambda>p. ([FAN_MARK_REMOVE], p)) (monitors w)) @ mark_reqs w\<rparr>"

subsection \<open>The volume table\<close>

text \<open>The search loop of \<open>VolCtx_Update\<close>: the device name is compared up to the length of
  the new name.\<close>

datatype vol_slot = VolFound nat | VolNew nat | VolFull

fun vol_slot_loop :: "string \<Rightarrow> volume_device list \<Rightarrow> nat \<Rightarrow> nat \<Rightarrow> vol_slot option" where
  "vol_slot_loop dev vols i 0 = Some (VolNew i)"
| "vol_slot_loop dev vols i (Suc n) =
     (if MAX_DEVICE \<le> i then Some VolFull
      else do {
        v \<leftarrow> rd_at vols i;
        (if strncmp_eq (czDeviceName v) dev (length dev) then Some (VolFound i)
         else vol_slot_loop dev vols (Suc i) n)
      })"

definition upd_vols :: "volume_device list \<Rightarrow> u32 \<Rightarrow> drv_kext \<Rightarrow> drv_kext" where
  "upd_vols vs n k = k\<lparr>VolCtx := \<lparr>vol_nCount = n, VolumeDevice = vs\<rparr>\<rparr>"

text \<open>\<open>memset (czBasePath, 0, 260)\<close> on the 256 bytes of \<open>czBasePath\<close> also clears the head of
  \<open>czDriverName\<close>, the next field.\<close>

definition set_base :: "string \<Rightarrow> volume_device \<Rightarrow> volume_device option" where
  "set_base base v = do {
     b \<leftarrow> strncpy0 MAX_BASE_SIZE base (min (length base + 1) MAX_DEVICE_SIZE);
     Some (v\<lparr>czBasePath := b, czDriverName := []\<rparr>)
   }"

definition VolCtx_Update :: "(string \<Rightarrow> bool) \<Rightarrow> string \<Rightarrow> string \<Rightarrow> u32 \<Rightarrow> vol_world
    \<Rightarrow> (bool \<times> vol_world) option" where
  "VolCtx_Update mark dev base bus w = do {
     let k = kx w;
     let vols = VolumeDevice (VolCtx k);
     let cnt = vol_nCount (VolCtx k);
     slot \<leftarrow> vol_slot_loop dev vols 0 (unat cnt);
     (case slot of
        VolFull \<Rightarrow> Some (False, w)
      | VolFound i \<Rightarrow> do {
          v \<leftarrow> rd_at vols i;
          (if bus = ulBusType v then Some (True, w)
           else do {
             v1 \<leftarrow> set_base base v;
             let v2 = v1\<lparr>ulBusType := bus\<rparr>;
             vols' \<leftarrow> wr_at vols i v2;
             k' \<leftarrow> DrvCtx_Policy_Update_DriveName v2 (upd_vols vols' cnt k);
             Some (True, w\<lparr>kx := k'\<rparr>)
           })
        }
      | VolNew i \<Rightarrow> do {
          d \<leftarrow> strncpy0 MAX_DEVICE_SIZE dev (min (length dev + 1) MAX_DEVICE_SIZE);
          v1 \<leftarrow> set_base base (zero_volume\<lparr>czDeviceName := d\<rparr>);
          let v2 = v1\<lparr>ulBusType := bus\<rparr>;
          vols' \<leftarrow> wr_at vols i v2;
          k' \<leftarrow> DrvCtx_Policy_Update_DriveName v2 (upd_vols vols' (cnt + 1) k);
          w' \<leftarrow> fnAddNotify mark (czBasePath v2) (w\<lparr>kx := k'\<rparr>);
          Some (True, w')
        })
   }"

definition VolCtx_Clear :: "vol_world \<Rightarrow> vol_world" where
  "VolCtx_Clear w = fnRemoveNotify (w\<lparr>kx := upd_vols (replicate MAX_DEVICE zero_volume) 0 (kx w)\<rparr>)"

text \<open>The bus type of the volume a path lies on, -1 when no volume is found: a longer path is
  compared with the base path and a slash, a path that is not longer with the base path.\<close>

definition search_match :: "string \<Rightarrow> string \<Rightarrow> bool option" where
  "search_match path base =
     (if length base < length path then
        (if MAX_BASE_SIZE \<le> length (base @ ''/'') then None
         else Some (strncaseeq path (base @ ''/'') (length (base @ ''/''))))
      else Some (strncaseeq path base (length base)))"

fun search_bus_loop :: "string \<Rightarrow> volume_device list \<Rightarrow> nat \<Rightarrow> nat \<Rightarrow> u32 option" where
  "search_bus_loop path vols i 0 = Some (-1)"
| "search_bus_loop path vols i (Suc n) =
     (if MAX_DEVICE \<le> i then Some (-1)
      else do {
        v \<leftarrow> rd_at vols i;
        m \<leftarrow> search_match path (czBasePath v);
        (if m then Some (ulBusType v) else search_bus_loop path vols (Suc i) n)
      })"

definition VolCtx_Search_BusType :: "string \<Rightarrow> drv_kext \<Rightarrow> u32 option" where
  "VolCtx_Search_BusType path k =
     search_bus_loop path (VolumeDevice (VolCtx k)) 0 (unat (vol_nCount (VolCtx k)))"

subsection \<open>Mount paths\<close>

definition slash_at :: "string \<Rightarrow> nat \<Rightarrow> nat option" where
  "slash_at s i = map_option ((+) i) (strpos ''/'' (drop i s))"

text \<open>The mount directory of a path, cut at the fourth slash, into a zeroed buffer of \<open>cap\<close>
  bytes; \<open>[]\<close> when the buffer is left as it was.\<close>

definition GetMountPath :: "nat \<Rightarrow> string \<Rightarrow> string option" where
  "GetMountPath cap path =
     (if take 1 path \<noteq> ''/'' then Some []
      else case slash_at path 1 of None \<Rightarrow> Some []
      | Some d1 \<Rightarrow> (case slash_at path (d1 + 1) of None \<Rightarrow> Some []
        | Some d2 \<Rightarrow> (case slash_at path (d2 + 1) of
            Some d3 \<Rightarrow> if 1 < d3 then strncpy0 cap path d3 else Some []
          | None \<Rightarrow> if length path < cap then Some path else None)))"

definition MAX_PATH :: nat where "MAX_PATH = 260"

text \<open>A file directly in the CUPS spool directory.\<close>

definition IsCupsDirectory :: "string \<Rightarrow> string \<Rightarrow> bool" where
  "IsCupsDirectory spool path =
     (if spool = [] \<or> length path < length spool then False
      else if strncaseeq path spool (length spool) then
        \<not> (CHR ''/'' \<in> set (drop (length spool + (if last spool = CHR ''/'' then 0 else 1)) path))
      else False)"

definition control_bus :: "u32 \<Rightarrow> bool" where
  "control_bus b \<longleftrightarrow> b = BusTypeUsb \<or> b = BusType1394 \<or> b = BusTypeThunderBolt \<or>
     b = BusTypeAtapi \<or> b = BusTypeSFolder"

definition IsVolumesDirectory :: "string \<Rightarrow> bool" where
  "IsVolumesDirectory path = True"

text \<open>On Linux the three media tests always answer no.\<close>

definition IsMediaPath_UsbStor :: "string \<Rightarrow> bool" where "IsMediaPath_UsbStor path = False"
definition IsMediaPath_CDStor :: "string \<Rightarrow> bool" where "IsMediaPath_CDStor path = False"
definition IsMediaPath_SFolder :: "string \<Rightarrow> string \<Rightarrow> string \<Rightarrow> bool" where
  "IsMediaPath_SFolder dev path fs = False"

definition IsControlDeviceType :: "string \<Rightarrow> string \<Rightarrow> (string \<Rightarrow> bool) \<Rightarrow> vol_world
    \<Rightarrow> (bool \<times> vol_world) option" where
  "IsControlDeviceType spool path mark w =
     (if IsCupsDirectory spool path then Some (True, w)
      else if IsVolumesDirectory path then do {
        mnt \<leftarrow> GetMountPath MAX_PATH path;
        bus \<leftarrow> VolCtx_Search_BusType mnt (kx w);
        (if control_bus bus then Some (True, w)
         else if IsMediaPath_UsbStor mnt then do {
           (_, w') \<leftarrow> VolCtx_Update mark [] mnt BusTypeUsb w; Some (True, w') }
         else if IsMediaPath_CDStor mnt then do {
           (_, w') \<leftarrow> VolCtx_Update mark [] mnt BusTypeAtapi w; Some (True, w') }
         else if IsMediaPath_SFolder [] mnt [] then
           (if sms_strnstr path ''/.DS_Store'' (length ''/.DS_Store'') = None then do {
              (_, w') \<leftarrow> VolCtx_Update mark [] mnt BusTypeSFolder w; Some (True, w') }
            else Some (False, w))
         else Some (False, w))
      } else Some (False, w))"

subsection \<open>Enumerating the mounts\<close>

text \<open>What udev lists for a device: per entry nothing (no device could be made of it), or
  whether \<open>ID_CDROM\<close> and \<open>DEVTYPE\<close> are set. \<open>None\<close> when the enumeration cannot be made.\<close>

fun storage_of_entries :: "(bool \<times> bool) option list \<Rightarrow> u32" where
  "storage_of_entries [] = BusTypeUnknown"
| "storage_of_entries (None # es) = storage_of_entries es"
| "storage_of_entries (Some (cdrom, devtype) # es) =
     (if cdrom then BusTypeAtapi else if devtype then BusTypeUsb else BusTypeUnknown)"

definition get_storage_type :: "(bool \<times> bool) option list option \<Rightarrow> u32" where
  "get_storage_type udev = (case udev of None \<Rightarrow> BusTypeUnknown
     | Some es \<Rightarrow> if storage_of_entries es = BusTypeUnknown then BusTypeSFolder
                 else storage_of_entries es)"

definition mount_wanted :: "string \<Rightarrow> string \<Rightarrow> bool" where
  "mount_wanted fsname dir \<longleftrightarrow>
     (if strpos ''/dev/'' fsname = None \<and> strpos ''/mnt/'' fsname = None
      then take 2 dir = ''//'' else dir \<noteq> ''/'') \<and> 1 < length fsname"

fun mount_loop :: "(string \<Rightarrow> bool) \<Rightarrow> (string \<Rightarrow> (bool \<times> bool) option list option)
    \<Rightarrow> (string \<times> string) list \<Rightarrow> vol_world \<Rightarrow> vol_world option" where
  "mount_loop mark udev [] w = Some w"
| "mount_loop mark udev ((fsname, dir) # ms) w =
     (if mount_wanted fsname dir then do {
        (_, w') \<leftarrow> VolCtx_Update mark fsname dir (get_storage_type (udev fsname)) w;
        mount_loop mark udev ms w'
      } else mount_loop mark udev ms w)"

text \<open>\<open>mounts\<close> is the content of \<open>/proc/mounts\<close>, \<open>None\<close> when it cannot be read or udev is not
  there.\<close>

definition EnumMountCallback :: "(string \<Rightarrow> bool) \<Rightarrow> (string \<Rightarrow> (bool \<times> bool) option list option)
    \<Rightarrow> (string \<times> string) list option \<Rightarrow> vol_world \<Rightarrow> (int \<times> vol_world) option" where
  "EnumMountCallback mark udev mounts w =
     (case mounts of None \<Rightarrow> Some (-1, w)
      | Some ms \<Rightarrow> map_option (\<lambda>w'. (0, w')) (mount_loop mark udev ms w))"

definition FetchVolumes :: "(string \<Rightarrow> bool) \<Rightarrow> (string \<Rightarrow> (bool \<times> bool) option list option)
    \<Rightarrow> (string \<times> string) list option \<Rightarrow> vol_world \<Rightarrow> vol_world option" where
  "FetchVolumes mark udev mounts w =
     map_option snd (EnumMountCallback mark udev mounts (VolCtx_Clear w))"


subsection \<open>Searching the volume table\<close>

definition covers :: "string \<Rightarrow> string \<Rightarrow> bool" where
  "covers base path \<longleftrightarrow> strcaseeq path base \<or> strncaseeq path (base @ ''/'') (length base + 1)"

lemma strncaseeq_short:
  assumes "length path < n" and "n \<le> length b"
  shows "\<not> strncaseeq path b n"
proof
  assume "strncaseeq path b n"
  then have "length (take n path) = length (take n b)"
    unfolding strncaseeq_def by (metis length_map)
  with assms show False by simp
qed

lemma search_match_eq:
  assumes "length base + 1 < MAX_BASE_SIZE"
  shows "search_match path base = Some (covers base path)"
proof (cases "length base < length path")
  case True
  then have "\<not> strcaseeq path base" by (auto dest: strcaseeq_length)
  with True assms show ?thesis by (simp add: search_match_def covers_def)
next
  case False
  then have n: "\<not> strncaseeq path (base @ ''/'') (length base + 1)"
    by (intro strncaseeq_short) auto
  show ?thesis
  proof (cases "length path = length base")
    case True
    then show ?thesis using n strncaseeq_full [of path base]
      by (simp add: search_match_def covers_def)
  next
    case ne: False
    then have "\<not> strncaseeq path base (length base)" using False by (intro strncaseeq_short) auto
    moreover have "\<not> strcaseeq path base" using ne by (auto dest: strcaseeq_length)
    ultimately show ?thesis using False n by (simp add: search_match_def covers_def)
  qed
qed

definition search_paths_ok :: "drv_kext \<Rightarrow> bool" where
  "search_paths_ok k \<longleftrightarrow> (\<forall>v \<in> set (volumes k). length (czBasePath v) + 1 < MAX_BASE_SIZE)"

definition bus_of :: "volume_device option \<Rightarrow> u32" where
  "bus_of r = (case r of Some v \<Rightarrow> ulBusType v | None \<Rightarrow> -1)"

lemma search_bus_loop_eq:
  assumes "i + n \<le> length vols" and "length vols = MAX_DEVICE"
    and "\<forall>v \<in> set (take n (drop i vols)). length (czBasePath v) + 1 < MAX_BASE_SIZE"
  shows "search_bus_loop path vols i n =
           Some (bus_of (List.find (\<lambda>v. covers (czBasePath v) path) (take n (drop i vols))))"
  using assms
proof (induction n arbitrary: i)
  case 0
  then show ?case by (simp add: bus_of_def)
next
  case (Suc n)
  then have d: "drop i vols = vols ! i # drop (Suc i) vols" by (simp add: Cons_nth_drop_Suc)
  then have m: "search_match path (czBasePath (vols ! i)) = Some (covers (czBasePath (vols ! i)) path)"
    using Suc.prems by (intro search_match_eq) simp
  show ?case
  proof (cases "covers (czBasePath (vols ! i)) path")
    case True
    then show ?thesis using Suc.prems d m by (simp add: arr bus_of_def)
  next
    case False
    then show ?thesis using Suc d m by (simp add: arr)
  qed
qed

lemma VolCtx_Search_BusType_eq:
  assumes "wf_kext k" and "search_paths_ok k"
  shows "VolCtx_Search_BusType path k =
           Some (bus_of (List.find (\<lambda>v. covers (czBasePath v) path) (volumes k)))"
  using assms search_bus_loop_eq [of 0 "unat (vol_nCount (VolCtx k))" "VolumeDevice (VolCtx k)" path]
  by (simp add: VolCtx_Search_BusType_def volumes_def search_paths_ok_def wf_defs)

subsection \<open>Which directory a path is attributed to\<close>

lemma slash_at_append:
  assumes "CHR ''/'' \<notin> set a" and "length p = i"
  shows "slash_at (p @ a @ CHR ''/'' # r) i = Some (i + length a)"
proof -
  have "strpos ''/'' (a @ CHR ''/'' # r) = Some (length a)"
    using assms(1) by (induction a) auto
  then show ?thesis using assms(2) by (simp add: slash_at_def)
qed

lemma slash_at_none: "CHR ''/'' \<notin> set (drop i s) \<Longrightarrow> slash_at s i = None"
proof -
  have "CHR ''/'' \<notin> set t \<Longrightarrow> strpos ''/'' t = None" for t by (induction t) auto
  then show "CHR ''/'' \<notin> set (drop i s) \<Longrightarrow> slash_at s i = None" by (simp add: slash_at_def)
qed

definition plain :: "string \<Rightarrow> bool" where "plain a \<longleftrightarrow> CHR ''/'' \<notin> set a"

lemma GetMountPath_three:
  assumes "plain a" and "plain b" and "plain c"
    and "length a + length b + length c + 3 < cap"
  shows "GetMountPath cap (''/'' @ a @ ''/'' @ b @ ''/'' @ c @ ''/'' @ r) =
           Some (''/'' @ a @ ''/'' @ b @ ''/'' @ c)"
proof -
  let ?p = "''/'' @ a @ ''/'' @ b @ ''/'' @ c @ ''/'' @ r"
  have 1: "slash_at ?p 1 = Some (1 + length a)"
    using slash_at_append [of a "''/''" 1] assms(1) by (simp add: plain_def)
  have 2: "slash_at ?p (1 + length a + 1) = Some (length a + length b + 2)"
    using slash_at_append [of b "''/'' @ a @ ''/''" "length a + 2"] assms(2) by (simp add: plain_def)
  have 3: "slash_at ?p (length a + length b + 2 + 1) = Some (length a + length b + length c + 3)"
    using slash_at_append [of c "''/'' @ a @ ''/'' @ b @ ''/''" "Suc (Suc (Suc (length a + length b)))"] assms(3)
    by (simp add: plain_def eval_nat_numeral)
  have t: "take (length a + length b + length c + 3) ?p = ''/'' @ a @ ''/'' @ b @ ''/'' @ c"
    by (simp add: eval_nat_numeral)
  have s: "take 1 ?p = ''/''" by simp
  show ?thesis
    unfolding GetMountPath_def s 1 option.case 2 3 strncpy0_def t using assms(4) by simp
qed

lemma GetMountPath_two:
  assumes "plain a" and "plain b" and "plain c"
    and "length a + length b + length c + 3 < cap"
  shows "GetMountPath cap (''/'' @ a @ ''/'' @ b @ ''/'' @ c) = Some (''/'' @ a @ ''/'' @ b @ ''/'' @ c)"
proof -
  let ?p = "''/'' @ a @ ''/'' @ b @ ''/'' @ c"
  have 1: "slash_at ?p 1 = Some (1 + length a)"
    using slash_at_append [of a "''/''" 1] assms(1) by (simp add: plain_def)
  have 2: "slash_at ?p (1 + length a + 1) = Some (length a + length b + 2)"
    using slash_at_append [of b "''/'' @ a @ ''/''" "length a + 2"] assms(2) by (simp add: plain_def)
  have 3: "slash_at ?p (length a + length b + 2 + 1) = None"
    using assms(3) by (intro slash_at_none) (simp add: plain_def)
  have s: "take 1 ?p = ''/''" by simp
  show ?thesis unfolding GetMountPath_def s 1 option.case 2 3 using assms(4) by simp
qed


subsection \<open>Adding volumes\<close>

lemma vol_slot_loop_new:
  assumes "i + n \<le> length vols" and "length vols = MAX_DEVICE"
    and "\<forall>v \<in> set (take n (drop i vols)). \<not> prefix dev (czDeviceName v)"
  shows "vol_slot_loop dev vols i n = Some (VolNew (i + n))"
  using assms
proof (induction n arbitrary: i)
  case 0
  then show ?case by simp
next
  case (Suc n)
  then have d: "drop i vols = vols ! i # drop (Suc i) vols" by (simp add: Cons_nth_drop_Suc)
  with Suc show ?case by (simp add: arr strncmp_eq_prefix)
qed

definition new_volume :: "string \<Rightarrow> string \<Rightarrow> u32 \<Rightarrow> volume_device" where
  "new_volume dev base bus =
     zero_volume\<lparr>czDeviceName := dev, czBasePath := base, ulBusType := bus\<rparr>"

definition push_volume :: "volume_device \<Rightarrow> drv_kext \<Rightarrow> drv_kext" where
  "push_volume v k = upd_vols ((VolumeDevice (VolCtx k))[unat (vol_nCount (VolCtx k)) := v])
     (vol_nCount (VolCtx k) + 1) k"

lemma push_volume_frame [simp]:
  "DrvCtx (push_volume v k) = DrvCtx k" "CtrlDeviceEx (push_volume v k) = CtrlDeviceEx k"
  "nDeviceCount (push_volume v k) = nDeviceCount k" "controls (push_volume v k) = controls k"
  by (simp_all add: push_volume_def upd_vols_def controls_def)

lemma ctrl_entry_push_volume [simp]: "ctrl_entry (push_volume v k) u = ctrl_entry k u"
  by (rule table_cong) simp

lemma wf_push_volume:
  assumes "wf_kext k" and "unat (vol_nCount (VolCtx k)) < MAX_DEVICE"
  shows "wf_kext (push_volume v k)"
  using assms by (simp add: wf_defs push_volume_def upd_vols_def unat_count_inc)

lemma volumes_push_volume:
  assumes "wf_kext k" and "unat (vol_nCount (VolCtx k)) < MAX_DEVICE"
  shows "volumes (push_volume v k) = volumes k @ [v]"
  using assms
  by (simp add: volumes_def wf_defs push_volume_def upd_vols_def unat_count_inc take_Suc_snoc)

lemma volumes_push_ctrl [simp]: "volumes (push_ctrl k e) = volumes k"
  by (simp add: volumes_def)

lemma set_base_fits:
  "length base < MAX_BASE_SIZE \<Longrightarrow> set_base base v = Some (v\<lparr>czBasePath := base, czDriverName := []\<rparr>)"
  by (simp add: set_base_def strncpy0_def)

lemma VolCtx_Update_new:
  assumes "wf_kext (kx w)" and "unat (vol_nCount (VolCtx (kx w))) < MAX_DEVICE"
    and "unat (nDeviceCount (kx w)) < MAX_DEVICE" and "length (monitors w) < MAX_DEVICE"
    and "length dev < MAX_DEVICE_SIZE" and "length base < MAX_BASE_SIZE"
    and "\<forall>v \<in> set (volumes (kx w)). \<not> prefix dev (czDeviceName v)"
  shows "VolCtx_Update mark dev base bus w = Some (True,
     w\<lparr>kx := push_ctrl (push_volume (new_volume dev base bus) (kx w))
               (ctrl_entry (kx w) (new_volume dev base bus)),
       monitors := (if mark base then monitors w @ [base] else monitors w),
       mark_reqs := ([FAN_MARK_ADD, FAN_MARK_MOUNT], base) # mark_reqs w\<rparr>)"
proof -
  let ?v = "new_volume dev base bus" and ?k = "kx w"
  have slot: "vol_slot_loop dev (VolumeDevice (VolCtx ?k)) 0 (unat (vol_nCount (VolCtx ?k))) =
      Some (VolNew (unat (vol_nCount (VolCtx ?k))))"
    using assms vol_slot_loop_new [of 0 "unat (vol_nCount (VolCtx ?k))" "VolumeDevice (VolCtx ?k)" dev]
    by (simp add: volumes_def wf_defs)
  have d: "strncpy0 MAX_DEVICE_SIZE dev (min (length dev + 1) MAX_DEVICE_SIZE) = Some dev"
    using assms(5) by (simp add: strncpy0_def)
  have v: "(zero_volume\<lparr>czDeviceName := dev\<rparr>)\<lparr>czBasePath := base, czDriverName := []\<rparr>\<lparr>ulBusType := bus\<rparr> = ?v"
    by (simp add: new_volume_def zero_volume_def)
  have wr: "wr_at (VolumeDevice (VolCtx ?k)) (unat (vol_nCount (VolCtx ?k))) ?v =
      Some ((VolumeDevice (VolCtx ?k))[unat (vol_nCount (VolCtx ?k)) := ?v])"
    using assms(1,2) by (intro wr_at_Some) (simp add: wf_defs)
  have pol: "DrvCtx_Policy_Update_DriveName ?v (push_volume ?v ?k) =
      Some (push_ctrl (push_volume ?v ?k) (ctrl_entry ?k ?v))"
    using assms wf_push_volume [OF assms(1,2), of ?v]
    by (subst DrvCtx_Policy_Update_DriveName_eq) (simp_all add: new_volume_def)
  have b: "czBasePath ?v = base" by (simp add: new_volume_def)
  show ?thesis
    unfolding VolCtx_Update_def Let_def slot option.simps bind.bind_lunit vol_slot.simps d
      set_base_fits [OF assms(6)] v wr b
    using pol assms(4) by (simp add: push_volume_def fnAddNotify_def)
qed


subsection \<open>A mount enumeration\<close>

definition wanted_mounts :: "(string \<times> string) list \<Rightarrow> (string \<times> string) list" where
  "wanted_mounts ms = filter (\<lambda>(f, d). mount_wanted f d) ms"

definition mount_volume :: "(string \<Rightarrow> (bool \<times> bool) option list option) \<Rightarrow> string \<times> string
    \<Rightarrow> volume_device" where
  "mount_volume udev m = new_volume (fst m) (snd m) (get_storage_type (udev (fst m)))"

text \<open>Names that fit their buffers, and no device name a prefix of an earlier one.\<close>

definition mounts_ok :: "(string \<times> string) list \<Rightarrow> bool" where
  "mounts_ok ms \<longleftrightarrow>
     (\<forall>(f, d) \<in> set ms. length f < MAX_DEVICE_SIZE \<and> length d < MAX_BASE_SIZE) \<and>
     sorted_wrt (\<lambda>a b. \<not> prefix (fst b) (fst a)) ms"

lemma length_volumes: "wf_kext k \<Longrightarrow> length (volumes k) = unat (vol_nCount (VolCtx k))"
  by (simp add: volumes_def wf_defs)

lemma length_controls: "wf_kext k \<Longrightarrow> length (controls k) = unat (nDeviceCount k)"
  by (simp add: controls_def wf_defs)

lemma mount_loop_eq:
  assumes "wf_kext (kx w)" and "mounts_ok (wanted_mounts ms)"
    and "\<forall>v \<in> set (volumes (kx w)). \<forall>m \<in> set (wanted_mounts ms). \<not> prefix (fst m) (czDeviceName v)"
    and "length (volumes (kx w)) + length (wanted_mounts ms) \<le> MAX_DEVICE"
    and "length (controls (kx w)) + length (wanted_mounts ms) \<le> MAX_DEVICE"
    and "length (monitors w) + length (wanted_mounts ms) \<le> MAX_DEVICE"
  shows "\<exists>w'. mount_loop mark udev ms w = Some w' \<and> wf_kext (kx w') \<and>
     volumes (kx w') = volumes (kx w) @ map (mount_volume udev) (wanted_mounts ms) \<and>
     controls (kx w') = controls (kx w) @
       concat (map (\<lambda>m. opt_list (ctrl_entry (kx w) (mount_volume udev m))) (wanted_mounts ms)) \<and>
     monitors w' = monitors w @ filter mark (map snd (wanted_mounts ms)) \<and>
     DrvCtx (kx w') = DrvCtx (kx w)"
  using assms
proof (induction ms arbitrary: w)
  case Nil
  then show ?case by (simp add: wanted_mounts_def)
next
  case (Cons m ms)
  obtain f d where m: "m = (f, d)" by (cases m)
  show ?case
  proof (cases "mount_wanted f d")
    case False
    then have "wanted_mounts (m # ms) = wanted_mounts ms" by (simp add: wanted_mounts_def m)
    with Cons False m show ?thesis by auto
  next
    case True
    then have wm: "wanted_mounts (m # ms) = m # wanted_mounts ms" by (simp add: wanted_mounts_def m)
    let ?v = "mount_volume udev m" and ?k = "kx w"
    let ?k1 = "push_volume ?v ?k"
    let ?w = "w\<lparr>kx := push_ctrl ?k1 (ctrl_entry ?k ?v),
       monitors := (if mark d then monitors w @ [d] else monitors w),
       mark_reqs := ([FAN_MARK_ADD, FAN_MARK_MOUNT], d) # mark_reqs w\<rparr>"
    have lens: "unat (vol_nCount (VolCtx ?k)) < MAX_DEVICE" "unat (nDeviceCount ?k) < MAX_DEVICE"
        "length (monitors w) < MAX_DEVICE"
      using Cons.prems wm length_volumes [of ?k] length_controls [of ?k] by auto
    have upd: "VolCtx_Update mark f d (get_storage_type (udev f)) w = Some (True, ?w)"
      using Cons.prems wm m lens by (subst VolCtx_Update_new) (auto simp: mounts_ok_def mount_volume_def)
    have wf1: "wf_kext ?k1" using Cons.prems(1) lens(1) by (rule wf_push_volume)
    have vols: "volumes (kx ?w) = volumes ?k @ [?v]"
      using volumes_push_volume [OF Cons.prems(1) lens(1)] by simp
    have ctrls: "controls (kx ?w) = controls ?k @ opt_list (ctrl_entry ?k ?v)"
      using controls_push_ctrl [of ?k1 "ctrl_entry ?k ?v"] wf1 lens(2) by (simp add: wf_kext_def)
    have wf: "wf_kext (kx ?w)" using wf_push_ctrl [OF wf1] lens(2) by simp
    have name: "czDeviceName ?v = fst m" by (simp add: mount_volume_def new_volume_def)
    have ol: "length (opt_list e) \<le> 1" for e :: "attached_device_ex option" by (cases e) auto
    have "\<exists>w'. mount_loop mark udev ms ?w = Some w' \<and> wf_kext (kx w') \<and>
        volumes (kx w') = volumes (kx ?w) @ map (mount_volume udev) (wanted_mounts ms) \<and>
        controls (kx w') = controls (kx ?w) @
          concat (map (\<lambda>m. opt_list (ctrl_entry (kx ?w) (mount_volume udev m))) (wanted_mounts ms)) \<and>
        monitors w' = monitors ?w @ filter mark (map snd (wanted_mounts ms)) \<and>
        DrvCtx (kx w') = DrvCtx (kx ?w)"
    proof (rule Cons.IH [OF wf])
      show "mounts_ok (wanted_mounts ms)" using Cons.prems(2) wm by (simp add: mounts_ok_def)
      show "\<forall>v \<in> set (volumes (kx ?w)). \<forall>m \<in> set (wanted_mounts ms). \<not> prefix (fst m) (czDeviceName v)"
        using Cons.prems(2,3) wm name unfolding vols by (auto simp: mounts_ok_def)
      show "length (volumes (kx ?w)) + length (wanted_mounts ms) \<le> MAX_DEVICE"
        using Cons.prems(4) wm unfolding vols by simp
      show "length (controls (kx ?w)) + length (wanted_mounts ms) \<le> MAX_DEVICE"
        using Cons.prems(5) wm ol [of "ctrl_entry ?k ?v"] unfolding ctrls by simp
      show "length (monitors ?w) + length (wanted_mounts ms) \<le> MAX_DEVICE"
        using Cons.prems(6) wm by simp
    qed
    then show ?thesis using upd True m wm vols ctrls by auto
  qed
qed

lemma VolCtx_Clear_simps:
  "volumes (kx (VolCtx_Clear w)) = []" "controls (kx (VolCtx_Clear w)) = controls (kx w)"
  "DrvCtx (kx (VolCtx_Clear w)) = DrvCtx (kx w)" "monitors (VolCtx_Clear w) = []"
  by (simp_all add: VolCtx_Clear_def fnRemoveNotify_def volumes_def controls_def upd_vols_def)

lemma wf_VolCtx_Clear: "wf_kext (kx w) \<Longrightarrow> wf_kext (kx (VolCtx_Clear w))"
  by (simp add: VolCtx_Clear_def fnRemoveNotify_def upd_vols_def wf_defs)

lemma FetchVolumes_eq:
  assumes "wf_kext (kx w)" and "mounts_ok (wanted_mounts ms)"
    and "length (controls (kx w)) + length (wanted_mounts ms) \<le> MAX_DEVICE"
  shows "\<exists>w'. FetchVolumes mark udev (Some ms) w = Some w' \<and> wf_kext (kx w') \<and>
     volumes (kx w') = map (mount_volume udev) (wanted_mounts ms) \<and>
     controls (kx w') = controls (kx w) @
       concat (map (\<lambda>m. opt_list (ctrl_entry (kx w) (mount_volume udev m))) (wanted_mounts ms)) \<and>
     monitors w' = filter mark (map snd (wanted_mounts ms)) \<and>
     DrvCtx (kx w') = DrvCtx (kx w)"
proof -
  have c: "ctrl_entry (kx (VolCtx_Clear w)) v = ctrl_entry (kx w) v" for v
    by (rule table_cong) (simp add: VolCtx_Clear_simps)
  show ?thesis
    using mount_loop_eq [of "VolCtx_Clear w" ms mark udev] wf_VolCtx_Clear [OF assms(1)] assms
    by (auto simp: FetchVolumes_def EnumMountCallback_def VolCtx_Clear_simps c)
qed

subsection \<open>Properties\<close>

text \<open>C23: A new enumeration of the mounts, for device names that are not prefixes of earlier
  ones, makes the volume table exactly the wanted mounts with the bus types udev gives, and
  watches exactly those whose mark is accepted; the control table, however, is not rebuilt: the
  entries of the volumes are appended to the ones of before.\<close>

theorem mount_refresh:
  assumes "wf_kext (kx w)" and "mounts_ok (wanted_mounts ms)"
    and "length (controls (kx w)) + length (wanted_mounts ms) \<le> MAX_DEVICE"
  shows "\<exists>w'. FetchVolumes mark udev (Some ms) w = Some w' \<and> wf_kext (kx w') \<and>
     volumes (kx w') = map (mount_volume udev) (wanted_mounts ms) \<and>
     controls (kx w') = controls (kx w) @
       concat (map (\<lambda>m. opt_list (ctrl_entry (kx w) (mount_volume udev m))) (wanted_mounts ms)) \<and>
     monitors w' = filter mark (map snd (wanted_mounts ms))"
  using FetchVolumes_eq [OF assms] by blast

lemma mount_refresh_witness:
  "\<exists>w'. FetchVolumes (\<lambda>_. True) (\<lambda>_. Some [Some (False, True)]) (Some [(''/dev/sdb1'', ''/mnt/usb''), (''proc'', ''/proc'')])
       \<lparr>kx = kext_boot, monitors = [], mark_reqs = []\<rparr> = Some w' \<and> monitors w' = [''/mnt/usb'']"
proof -
  let ?ms = "[(''/dev/sdb1'', ''/mnt/usb''), (''proc'', ''/proc'')]"
  let ?w = "\<lparr>kx = kext_boot, monitors = [], mark_reqs = []\<rparr>"
  have wm: "wanted_mounts ?ms = [(''/dev/sdb1'', ''/mnt/usb'')]"
    by (simp add: wanted_mounts_def mount_wanted_def)
  have "controls (kx ?w) = []" by (simp add: controls_def kext_boot_def)
  then show ?thesis
    using mount_refresh [of ?w ?ms "\<lambda>_. True" "\<lambda>_. Some [Some (False, True)]"]
    by (auto simp: wm mounts_ok_def wf_kext_boot)
qed

text \<open>Looking up a path gives the bus type of the first volume whose base path, compared
  without case, is the path or a directory above it, and -1 when there is none.\<close>

theorem search_bus_type:
  assumes "wf_kext k" and "search_paths_ok k"
  shows "VolCtx_Search_BusType path k = Some (case List.find (\<lambda>v. covers (czBasePath v) path) (volumes k) of
     Some v \<Rightarrow> ulBusType v | None \<Rightarrow> -1)"
  using VolCtx_Search_BusType_eq [OF assms] by (simp add: bus_of_def)

lemma search_bus_type_witness: "VolCtx_Search_BusType ''/home/a'' kext_boot = Some (-1)"
proof -
  have "volumes kext_boot = []" by (simp add: volumes_def kext_boot_def)
  then show ?thesis using search_bus_type [OF wf_kext_boot, of "''/home/a''"]
    by (simp add: search_paths_ok_def)
qed

text \<open>Files on a volume mounted at the third directory level (\<open>/media/user/STICK\<close>) are
  recognised as being on a controlled device, files on one mounted at the fourth level
  (\<open>/run/media/user/STICK\<close>) are not: the mount path is cut at the fourth slash.\<close>

theorem mount_depth:
  assumes "wf_kext (kx w)" and "volumes (kx w) = [v]" and "control_bus (ulBusType v)"
    and "plain a" and "plain b" and "plain c" and "plain d" and "d \<noteq> []"
    and "length a + length b + length c + length d + 5 < MAX_BASE_SIZE"
  shows "(czBasePath v = ''/'' @ a @ ''/'' @ b @ ''/'' @ c \<longrightarrow>
       IsControlDeviceType [] (''/'' @ a @ ''/'' @ b @ ''/'' @ c @ ''/'' @ rest) mark w = Some (True, w)) \<and>
     (czBasePath v = ''/'' @ a @ ''/'' @ b @ ''/'' @ c @ ''/'' @ d \<longrightarrow>
       IsControlDeviceType [] (''/'' @ a @ ''/'' @ b @ ''/'' @ c @ ''/'' @ d @ ''/'' @ rest) mark w = Some (False, w))"
proof (intro conjI impI)
  let ?m = "''/'' @ a @ ''/'' @ b @ ''/'' @ c"
  have mnt: "GetMountPath MAX_PATH (?m @ ''/'' @ r) = Some ?m" for r
    using GetMountPath_three [OF assms(4-6), of MAX_PATH r] assms(9) by (simp add: MAX_PATH_def)
  have cups: "\<not> IsCupsDirectory [] p" for p by (simp add: IsCupsDirectory_def)
  note I = IsControlDeviceType_def IsVolumesDirectory_def IsMediaPath_UsbStor_def
    IsMediaPath_CDStor_def IsMediaPath_SFolder_def
  {
    assume base: "czBasePath v = ?m"
    have "search_paths_ok (kx w)" using assms(2,9) base by (simp add: search_paths_ok_def)
    then have "VolCtx_Search_BusType ?m (kx w) = Some (ulBusType v)"
      using VolCtx_Search_BusType_eq [OF assms(1), of ?m] by (simp add: assms(2) base covers_def bus_of_def)
    then show "IsControlDeviceType [] (''/'' @ a @ ''/'' @ b @ ''/'' @ c @ ''/'' @ rest) mark w = Some (True, w)"
      using mnt [of rest] cups assms(3) by (simp add: I)
  next
    assume base: "czBasePath v = ''/'' @ a @ ''/'' @ b @ ''/'' @ c @ ''/'' @ d"
    have "search_paths_ok (kx w)" using assms(2,9) base by (simp add: search_paths_ok_def)
    moreover have "\<not> covers (czBasePath v) ?m"
    proof -
      have "\<not> strcaseeq ?m (czBasePath v)" using base assms(8) by (auto dest: strcaseeq_length)
      moreover have "\<not> strncaseeq ?m (czBasePath v @ ''/'') (length (czBasePath v) + 1)"
        using base by (intro strncaseeq_short) auto
      ultimately show ?thesis by (simp add: covers_def)
    qed
    ultimately have "VolCtx_Search_BusType ?m (kx w) = Some (-1)"
      using VolCtx_Search_BusType_eq [OF assms(1), of ?m] by (simp add: assms(2) bus_of_def)
    moreover have "\<not> control_bus (-1)" by (simp add: control_bus_def bus_defs)
    ultimately show "IsControlDeviceType [] (''/'' @ a @ ''/'' @ b @ ''/'' @ c @ ''/'' @ d @ ''/'' @ rest) mark w = Some (False, w)"
      using mnt [of "d @ ''/'' @ rest"] cups by (simp add: I)
  }
qed

lemma mount_depth_witness:
  "IsControlDeviceType [] ''/run/media/u/STICK/f'' (\<lambda>_. True)
     \<lparr>kx = push_volume (new_volume ''/dev/sdb1'' ''/run/media/u/STICK'' BusTypeUsb) kext_boot, monitors = [], mark_reqs = []\<rparr> =
   Some (False, \<lparr>kx = push_volume (new_volume ''/dev/sdb1'' ''/run/media/u/STICK'' BusTypeUsb) kext_boot, monitors = [], mark_reqs = []\<rparr>)"
proof -
  let ?v = "new_volume ''/dev/sdb1'' ''/run/media/u/STICK'' BusTypeUsb"
  let ?w = "\<lparr>kx = push_volume ?v kext_boot, monitors = [], mark_reqs = []\<rparr>"
  have c: "unat (vol_nCount (VolCtx kext_boot)) < MAX_DEVICE" "volumes kext_boot = []"
    by (simp_all add: kext_boot_def volumes_def)
  have "wf_kext (kx ?w)" using wf_push_volume [OF wf_kext_boot c(1)] by simp
  moreover have "volumes (kx ?w) = [?v]" using volumes_push_volume [OF wf_kext_boot c(1)] c(2) by simp
  ultimately show ?thesis
    using mount_depth [of ?w ?v "''run''" "''media''" "''u''" "''STICK''" "''f''" "\<lambda>_. True"]
    by (simp add: plain_def new_volume_def control_bus_def)
qed

text \<open>A path of three directory levels with a long last name, which the kernel accepts,
  is copied past the end of the 260 byte buffer of \<open>IsControlDeviceType\<close>.\<close>

theorem long_path_overflows:
  assumes "plain a" and "plain b" and "plain c" and "MAX_PATH \<le> length a + length b + length c + 3"
    and "spool = []"
  shows "IsControlDeviceType spool (''/'' @ a @ ''/'' @ b @ ''/'' @ c) mark w = None"
proof -
  let ?p = "''/'' @ a @ ''/'' @ b @ ''/'' @ c"
  have "slash_at ?p 1 = Some (1 + length a)"
    using slash_at_append [of a "''/''" 1] assms(1) by (simp add: plain_def)
  moreover have "slash_at ?p (1 + length a + 1) = Some (length a + length b + 2)"
    using slash_at_append [of b "''/'' @ a @ ''/''" "length a + 2"] assms(2) by (simp add: plain_def)
  moreover have "slash_at ?p (length a + length b + 2 + 1) = None"
    using assms(3) by (intro slash_at_none) (simp add: plain_def)
  moreover have "\<not> length ?p < MAX_PATH" "take 1 ?p = ''/''" using assms(4) by simp_all
  ultimately have "GetMountPath MAX_PATH ?p = None" unfolding GetMountPath_def by simp
  then show ?thesis
    using assms(5) by (simp add: IsControlDeviceType_def IsCupsDirectory_def IsVolumesDirectory_def)
qed

lemma long_path_overflows_witness:
  "IsControlDeviceType [] (''/'' @ ''mnt'' @ ''/'' @ ''usb'' @ ''/'' @ replicate 255 (CHR ''a'')) (\<lambda>_. True)
     \<lparr>kx = kext_boot, monitors = [], mark_reqs = []\<rparr> = None"
  by (rule long_path_overflows) (simp_all add: plain_def MAX_PATH_def)

end
