(* ===== verification/LogCheck.thy ===== *)
theory LogCheck
  imports Volumes
begin

text \<open>
  The log path of the agent (\<open>PIKern/SmartCmd.cpp\<close> from \<open>IsValidLogCheckTimestamp\<close> on and
  \<open>UserModeTo_SmartLogNotify\<close> of \<open>PIKern/kauth_listener.cpp\<close>): the table \<open>g_Check\<close> of recent
  directory logs and the record built for the supervisor. The agent's whole state and its
  surroundings are introduced here: what was sent to the supervisor, and as arguments the
  supervisor's answers, the file system, the clock, the allocator.
\<close>

subsection \<open>The agent and its surroundings\<close>

record log_check =
  lc_nPID :: u32
  lc_nPolicyType :: u32
  lc_nLogType :: u32
  lc_nAction :: u32
  lc_nTimeStamp :: u64
  lc_czFilePath :: string

definition zero_check :: log_check where
  "zero_check = \<lparr>lc_nPID = 0, lc_nPolicyType = 0, lc_nLogType = 0, lc_nAction = 0,
     lc_nTimeStamp = 0, lc_czFilePath = []\<rparr>"

definition MAX_CHECK :: nat where "MAX_CHECK = 16"
definition MAX_FPATH :: nat where "MAX_FPATH = 260"
definition LOG_PROC_LEN :: nat where "LOG_PROC_LEN = 260"
definition LOG_FILE_LEN :: nat where "LOG_FILE_LEN = 260"

lemmas log_sizes [simp] = MAX_CHECK_def MAX_FPATH_def LOG_PROC_LEN_def LOG_FILE_LEN_def

record log_param =
  lp_bLog :: u32
  lp_nPolicyType :: u32
  lp_nLogType :: u32
  lp_nAction :: u32
  lp_nProcessId :: u32
  lp_pczProcName :: "string option"
  lp_pczPath1 :: "string option"
  lp_nVnodeType :: u32
  lp_bAllow :: u32

definition zero_param :: log_param where
  "zero_param = \<lparr>lp_bLog = 0, lp_nPolicyType = 0, lp_nLogType = 0, lp_nAction = 0,
     lp_nProcessId = 0, lp_pczProcName = None, lp_pczPath1 = None, lp_nVnodeType = 0, lp_bAllow = 0\<rparr>"

record log_record =
  lr_PolicyType :: u32
  lr_AccessType :: u32
  lr_LogType :: u8
  lr_LogAction :: u8
  lr_bDisableResult :: u64
  lr_ProcessId :: u32
  lr_ProcName :: string
  lr_FileName :: string

datatype event =
    FileScanEvent (ev_action: u32) (ev_pid: u32) (ev_path: string) (ev_qt: string)
  | FileDeleteEvent (ev_path: string)
  | LogEvent log_record

text \<open>\<open>sent\<close> lists the events given to the supervisor, newest first.\<close>

record agent = vol_world +
  checks :: "log_check list"
  czCupsSpoolPath :: string
  czCupsSpoolPathDump :: string
  czCupsTempPath :: string
  sent :: "event list"

text \<open>The surroundings: the supervisor's answer to an event after a history (\<open>None\<close> when the
  event cannot be delivered), \<open>stat\<close>, the time in milliseconds, whether allocations succeed,
  whether mount marks are accepted.\<close>

record kenv =
  k_ask :: "event list \<Rightarrow> event \<Rightarrow> u32 option"
  k_stat :: "string \<Rightarrow> u64 option"
  k_now :: nat
  k_mem :: bool
  k_mark :: "string \<Rightarrow> bool"

definition MyMAlloc :: "kenv \<Rightarrow> nat \<Rightarrow> bool" where
  "MyMAlloc env n = (if 32 * 1024 * 1024 < n then False else k_mem env)"

definition UserModeTo_SendCommand :: "kenv \<Rightarrow> event \<Rightarrow> agent \<Rightarrow> u32 option \<times> agent" where
  "UserModeTo_SendCommand env e a = (k_ask env (sent a) e, a\<lparr>sent := e # sent a\<rparr>)"

subsection \<open>The table of recent directory logs\<close>

definition VREG :: u32 where "VREG = 1"
definition VDIR :: u32 where "VDIR = 2"

text \<open>The comparison with the clock is commented out.\<close>

definition IsValidLogCheckTimestamp :: "u64 \<Rightarrow> bool" where
  "IsValidLogCheckTimestamp t = True"

definition parent_match :: "log_param \<Rightarrow> string \<Rightarrow> log_check \<Rightarrow> bool" where
  "parent_match lp path c \<longleftrightarrow> \<not> (lc_nTimeStamp c \<le> 0) \<and>
     sms_strstr path (lc_czFilePath c) \<noteq> None \<and> lc_nPolicyType c = lp_nPolicyType lp \<and>
     IsValidLogCheckTimestamp (lc_nTimeStamp c)"

definition LogCheckSearchParent :: "log_param \<Rightarrow> agent \<Rightarrow> log_check option option" where
  "LogCheckSearchParent lp a =
     (case lp_pczPath1 lp of None \<Rightarrow> Some None
      | Some path \<Rightarrow> scan_from (parent_match lp path) (checks a) 0 MAX_CHECK)"

definition IsExistParentLogCheck :: "log_param \<Rightarrow> agent \<Rightarrow> bool option" where
  "IsExistParentLogCheck lp a = map_option (\<lambda>r. r \<noteq> None) (LogCheckSearchParent lp a)"

definition dir_match :: "log_param \<Rightarrow> string \<Rightarrow> log_check \<Rightarrow> bool" where
  "dir_match lp path c \<longleftrightarrow> \<not> (lc_nTimeStamp c \<le> 0) \<and>
     strncaseeq (lc_czFilePath c) path (length path) \<and> lc_nPolicyType c = lp_nPolicyType lp \<and>
     IsValidLogCheckTimestamp (lc_nTimeStamp c)"

definition LogCheckSearch :: "log_param \<Rightarrow> agent \<Rightarrow> log_check option option" where
  "LogCheckSearch lp a =
     (case lp_pczPath1 lp of None \<Rightarrow> Some None
      | Some path \<Rightarrow> if lp_nVnodeType lp \<noteq> VDIR then Some None
                    else scan_from (dir_match lp path) (checks a) 0 MAX_CHECK)"

fun insert_loop :: "log_check \<Rightarrow> nat \<Rightarrow> nat \<Rightarrow> log_check list \<Rightarrow> (bool \<times> log_check list) option" where
  "insert_loop new i 0 cs = Some (False, cs)"
| "insert_loop new i (Suc n) cs = do {
     c \<leftarrow> rd_at cs i;
     (if lc_nTimeStamp c \<le> 0 \<or> \<not> IsValidLogCheckTimestamp (lc_nTimeStamp c)
      then map_option (Pair True) (wr_at cs i new)
      else insert_loop new (Suc i) n cs)
   }"

text \<open>The time stamp of the new entry stays 0: its assignment is commented out.\<close>

definition LogCheckInsert :: "log_param \<Rightarrow> agent \<Rightarrow> (bool \<times> agent) option" where
  "LogCheckInsert lp a =
     (case lp_pczPath1 lp of None \<Rightarrow> Some (False, a)
      | Some path \<Rightarrow> if lp_nVnodeType lp \<noteq> VDIR then Some (False, a)
          else do {
            p \<leftarrow> (if length path < MAX_FPATH then Some path else None);
            (ok, cs) \<leftarrow> insert_loop \<lparr>lc_nPID = lp_nProcessId lp, lc_nPolicyType = lp_nPolicyType lp,
               lc_nLogType = lp_nLogType lp, lc_nAction = lp_nAction lp, lc_nTimeStamp = 0,
               lc_czFilePath = p\<rparr> 0 MAX_CHECK (checks a);
            Some (ok, a\<lparr>checks := cs\<rparr>)
          })"

definition IsDirDuplicateLog :: "log_param \<Rightarrow> agent \<Rightarrow> (bool \<times> agent) option" where
  "IsDirDuplicateLog lp a =
     (if lp_pczPath1 lp = None \<or> lp_nVnodeType lp \<noteq> VDIR then Some (False, a)
      else do {
        found \<leftarrow> LogCheckSearch lp a;
        (if found \<noteq> None then Some (True, a)
         else do { (_, a') \<leftarrow> LogCheckInsert lp a; Some (False, a') })
      })"

subsection \<open>Building and sending a record\<close>

text \<open>The names are compared up to the length of the process's name.\<close>

definition IsLogByPassProcess :: "log_param \<Rightarrow> bool" where
  "IsLogByPassProcess lp =
     (case lp_pczProcName lp of None \<Rightarrow> False
      | Some p \<Rightarrow> strncaseeq p ''mds'' (length p) \<or> strncaseeq p ''mdworker_shared'' (length p))"

definition ACTION_OPEN :: u32 where "ACTION_OPEN = 0x0001"
definition ACTION_CONNECT :: u32 where "ACTION_CONNECT = 0x0002"
definition ACTION_READ :: u32 where "ACTION_READ = 0x0010"
definition ACTION_WRITE :: u32 where "ACTION_WRITE = 0x0020"
definition ACTION_APPEND :: u32 where "ACTION_APPEND = 0x0040"
definition ACTION_EXCHANGE :: u32 where "ACTION_EXCHANGE = 0x0080"
definition ACTION_CLOSE :: u32 where "ACTION_CLOSE = 0x0100"
definition ACTION_EXECUTE :: u32 where "ACTION_EXECUTE = 0x0200"

lemmas action_defs = ACTION_OPEN_def ACTION_CONNECT_def ACTION_READ_def ACTION_WRITE_def
  ACTION_APPEND_def ACTION_EXCHANGE_def ACTION_CLOSE_def ACTION_EXECUTE_def

definition access_type :: "u32 \<Rightarrow> u32" where
  "access_type act =
     (if act = ACTION_OPEN \<or> act = ACTION_READ \<or> act = ACTION_EXECUTE then 1
      else if act = ACTION_APPEND \<or> act = ACTION_WRITE \<or> act = ACTION_CLOSE \<or> act = ACTION_EXCHANGE then 2
      else if act = ACTION_CONNECT then 1 else 0)"

text \<open>\<open>memcpy (field, s, strlen (s) + 1)\<close> into a zeroed field of \<open>cap\<close> bytes.\<close>

definition copy_field :: "nat \<Rightarrow> string option \<Rightarrow> string option" where
  "copy_field cap s = (case s of None \<Rightarrow> Some [] | Some t \<Rightarrow> if length t < cap then Some t else None)"

definition make_record :: "log_param \<Rightarrow> log_record option" where
  "make_record lp = do {
     proc \<leftarrow> copy_field LOG_PROC_LEN (lp_pczProcName lp);
     file \<leftarrow> copy_field LOG_FILE_LEN (lp_pczPath1 lp);
     Some \<lparr>lr_PolicyType = lp_nPolicyType lp, lr_AccessType = access_type (lp_nAction lp),
       lr_LogType = ucast (lp_nLogType lp), lr_LogAction = ucast (lp_nAction lp),
       lr_bDisableResult = of_cbool (\<not> truthy (lp_bAllow lp)), lr_ProcessId = lp_nProcessId lp,
       lr_ProcName = proc, lr_FileName = file\<rparr>
   }"

definition SIZEOF_LOG_RECORD_EX :: nat where "SIZEOF_LOG_RECORD_EX = 610"
definition SIZEOF_COMMAND_MESSAGE :: nat where "SIZEOF_COMMAND_MESSAGE = 8"

definition UserModeTo_SmartLogNotify :: "kenv \<Rightarrow> log_record \<Rightarrow> agent \<Rightarrow> bool \<times> agent" where
  "UserModeTo_SmartLogNotify env r a =
     (if \<not> MyMAlloc env (SIZEOF_COMMAND_MESSAGE + SIZEOF_LOG_RECORD_EX) then (False, a)
      else case UserModeTo_SendCommand env (LogEvent r) a of (ans, a') \<Rightarrow> (ans \<noteq> None, a'))"

definition SmartDrv_LogAppend :: "kenv \<Rightarrow> u32 \<Rightarrow> log_param \<times> agent \<Rightarrow>
    (bool \<times> log_param \<times> agent) option" where
  "SmartDrv_LogAppend env vtype s =
     (case s of (lp, a) \<Rightarrow>
        if IsLogByPassProcess lp then Some (False, lp, a)
        else do {
          par \<leftarrow> IsExistParentLogCheck lp a;
          (if par then Some (False, lp, a)
           else do {
             let lp' = lp\<lparr>lp_nVnodeType := vtype\<rparr>;
             (dup, a') \<leftarrow> (if vtype = VDIR then IsDirDuplicateLog lp' a else Some (False, a));
             (if dup then Some (False, lp', a')
              else if \<not> MyMAlloc env SIZEOF_LOG_RECORD_EX then Some (False, lp', a')
              else do {
                r \<leftarrow> make_record lp';
                (case UserModeTo_SmartLogNotify env r a' of (ok, a'') \<Rightarrow> Some (ok, lp', a''))
              })
           })
        })"

subsection \<open>Nothing is ever suppressed as a duplicate\<close>

definition unstamped :: "agent \<Rightarrow> bool" where
  "unstamped a \<longleftrightarrow> length (checks a) = MAX_CHECK \<and> (\<forall>c \<in> set (checks a). lc_nTimeStamp c = 0)"

lemma find_none: "(\<And>x. x \<in> set xs \<Longrightarrow> \<not> P x) \<Longrightarrow> List.find P xs = None"
  by (induction xs) auto

lemma LogCheckSearchParent_none:
  assumes "unstamped a"
  shows "LogCheckSearchParent lp a = Some None"
  using assms
  by (auto simp: LogCheckSearchParent_def unstamped_def parent_match_def arr find_none split: option.split)

lemma LogCheckSearch_none:
  assumes "unstamped a"
  shows "LogCheckSearch lp a = Some None"
  using assms
  by (auto simp: LogCheckSearch_def unstamped_def dir_match_def arr find_none split: option.split)

lemma insert_loop_first:
  assumes "unstamped a"
  shows "insert_loop new 0 16 (checks a) = Some (True, (checks a)[0 := new])"
  using assms by (cases "checks a") (auto simp: unstamped_def arr numeral_eq_Suc)

lemma LogCheckInsert_unstamped:
  assumes "unstamped a" and "LogCheckInsert lp a = Some (r, a')"
  shows "unstamped a'" and "sent a' = sent a" and "vol_world.truncate a' = vol_world.truncate a"
proof -
  from assms have "a' = a \<or> (\<exists>new. lc_nTimeStamp new = 0 \<and> a' = a\<lparr>checks := (checks a)[0 := new]\<rparr>)"
    unfolding LogCheckInsert_def
    by (auto simp: insert_loop_first bind_eq_Some_conv split: option.splits if_splits)
      (metis log_check.select_convs(5))
  then show "unstamped a'" "sent a' = sent a" "vol_world.truncate a' = vol_world.truncate a"
    using assms(1) by (auto simp: unstamped_def vol_world.defs dest!: set_update_subset_insert [THEN subsetD])
qed

lemma IsDirDuplicateLog_never:
  assumes "unstamped a" and "IsDirDuplicateLog lp a = Some (r, a')"
  shows "\<not> r" and "unstamped a'" and "sent a' = sent a" and "vol_world.truncate a' = vol_world.truncate a"
  using assms LogCheckInsert_unstamped [OF assms(1)]
  by (auto simp: IsDirDuplicateLog_def LogCheckSearch_none bind_eq_Some_conv split: if_splits)

lemma LogAppend_sends:
  assumes "unstamped a" and "\<not> IsLogByPassProcess lp" and "k_mem env"
    and "SmartDrv_LogAppend env vtype (lp, a) = Some (ok, lp', a')"
  shows "\<exists>r. make_record lp = Some r \<and> sent a' = LogEvent r # sent a \<and>
     ok = (k_ask env (sent a) (LogEvent r) \<noteq> None)"
    and "unstamped a'" and "vol_world.truncate a' = vol_world.truncate a"
    and "lp' = lp\<lparr>lp_nVnodeType := vtype\<rparr>"
proof -
  have mem: "MyMAlloc env SIZEOF_LOG_RECORD_EX" "MyMAlloc env (SIZEOF_COMMAND_MESSAGE + SIZEOF_LOG_RECORD_EX)"
    using assms(3) by (simp_all add: MyMAlloc_def SIZEOF_LOG_RECORD_EX_def SIZEOF_COMMAND_MESSAGE_def)
  have rec: "make_record (lp\<lparr>lp_nVnodeType := vtype\<rparr>) = make_record lp"
    by (simp add: make_record_def)
  have par: "IsExistParentLogCheck lp a = Some False"
    using assms(1) by (simp add: IsExistParentLogCheck_def LogCheckSearchParent_none)
  obtain d a1 where d: "(if vtype = VDIR then IsDirDuplicateLog (lp\<lparr>lp_nVnodeType := vtype\<rparr>) a
      else Some (False, a)) = Some (d, a1)"
    using assms(2,4) par by (auto simp: SmartDrv_LogAppend_def Let_def bind_eq_Some_conv split: if_splits)
  have d1: "\<not> d" "unstamped a1" "sent a1 = sent a" "vol_world.truncate a1 = vol_world.truncate a"
    using d assms(1) IsDirDuplicateLog_never [OF assms(1)] by (auto split: if_splits)
  obtain r where r: "make_record lp = Some r"
    and out: "UserModeTo_SmartLogNotify env r a1 = (ok, a')" and l: "lp' = lp\<lparr>lp_nVnodeType := vtype\<rparr>"
    using assms(2,4) par d d1(1) mem(1)
    by (auto simp: SmartDrv_LogAppend_def Let_def rec bind_eq_Some_conv split: if_splits prod.splits)
  have "ok = (k_ask env (sent a) (LogEvent r) \<noteq> None)" "a' = a1\<lparr>sent := LogEvent r # sent a\<rparr>"
    using out d1(3) mem(2) by (auto simp: UserModeTo_SmartLogNotify_def UserModeTo_SendCommand_def)
  then show "\<exists>r. make_record lp = Some r \<and> sent a' = LogEvent r # sent a \<and>
       ok = (k_ask env (sent a) (LogEvent r) \<noteq> None)"
      "unstamped a'" "vol_world.truncate a' = vol_world.truncate a" "lp' = lp\<lparr>lp_nVnodeType := vtype\<rparr>"
    using r d1 l by (auto simp: unstamped_def vol_world.defs)
qed

subsection \<open>Properties\<close>

text \<open>The suppression of repeated directory logs never takes effect: as no entry of the
  table ever gets a time stamp, every log of a process that is not bypassed is built and sent,
  however often it was sent before, and the table stays without time stamps.\<close>

theorem logs_never_suppressed:
  assumes "unstamped a" and "\<not> IsLogByPassProcess lp" and "k_mem env"
    and "SmartDrv_LogAppend env vtype (lp, a) = Some (ok, lp', a')"
  shows "\<exists>r. make_record lp = Some r \<and> sent a' = LogEvent r # sent a \<and> unstamped a'"
  using LogAppend_sends [OF assms] by blast

text \<open>The record of a closed file carries the action code 0: its action \<open>0x0100\<close> does not
  fit the byte of the record, while the access type still says write.\<close>

theorem close_action_lost:
  assumes "make_record (lp\<lparr>lp_nAction := ACTION_CLOSE\<rparr>) = Some r"
  shows "lr_LogAction r = 0 \<and> lr_AccessType r = 2"
  using assms
  by (auto simp: make_record_def action_defs access_type_def bind_eq_Some_conv)

lemma close_action_lost_witness:
  "\<exists>r. make_record (zero_param\<lparr>lp_nAction := ACTION_CLOSE\<rparr>) = Some r \<and> lr_LogAction r = 0 \<and> lr_AccessType r = 2"
proof -
  obtain r where "make_record (zero_param\<lparr>lp_nAction := ACTION_CLOSE\<rparr>) = Some r"
    by (auto simp: make_record_def copy_field_def zero_param_def)
  with close_action_lost [OF this] show ?thesis by blast
qed

text \<open>A process whose name could not be read, or whose name is a prefix of \<open>mds\<close> or
  \<open>mdworker_shared\<close>, is never logged: the names are compared up to the length of the process's
  name.\<close>

theorem unnamed_process_not_logged:
  assumes "lp_pczProcName lp = Some (take n ''mdworker_shared'')"
  shows "SmartDrv_LogAppend env vtype (lp, a) = Some (False, lp, a)"
proof -
  have "IsLogByPassProcess lp"
    using assms by (simp add: IsLogByPassProcess_def strncaseeq_def)
  then show ?thesis by (simp add: SmartDrv_LogAppend_def)
qed

definition blank_agent :: agent where
  "blank_agent = \<lparr>kx = kext_boot, monitors = [], mark_reqs = [], checks = replicate MAX_CHECK zero_check,
     czCupsSpoolPath = [], czCupsSpoolPathDump = [], czCupsTempPath = [], sent = []\<rparr>"

definition quiet_env :: kenv where
  "quiet_env = \<lparr>k_ask = (\<lambda>_ _. None), k_stat = (\<lambda>_. None), k_now = 0, k_mem = True, k_mark = (\<lambda>_. True)\<rparr>"

lemma unnamed_process_not_logged_witness:
  "SmartDrv_LogAppend quiet_env VREG (zero_param\<lparr>lp_pczProcName := Some []\<rparr>, blank_agent) =
     Some (False, zero_param\<lparr>lp_pczProcName := Some []\<rparr>, blank_agent)"
  by (rule unnamed_process_not_logged [of _ 0]) simp

end
