(* ===== verification/KauthListener.thy ===== *)
theory KauthListener
  imports LogCheck SmartCmd
begin

text \<open>
  The policy decisions of the agent: which processes are exempt (\<open>IsAllowedProcessId\<close>,
  \<open>IsUnProtectId\<close>) and which folders and extensions are (\<open>IsAllowedFolderFileExt\<close>,
  \<open>PIKern/SmartCmd.cpp\<close>); the \<open>IsPolicyExist_*\<close> tests, the requests to the supervisor and
  \<open>CtrlCheck_Contents\<close> (\<open>PIKern/kauth_listener.cpp\<close>); the event handlers of
  \<open>PIKern/KauthEventFunc.cpp\<close> and \<open>event_process\<close> of \<open>PIKern/PIESF.cpp\<close>; Linux branch.
\<close>

subsection \<open>Exempt processes\<close>

text \<open>A loop over the first \<open>n\<close> elements that only sets a flag.\<close>

fun any_from :: "('a \<Rightarrow> bool) \<Rightarrow> 'a list \<Rightarrow> nat \<Rightarrow> nat \<Rightarrow> bool \<Rightarrow> bool option" where
  "any_from P xs i 0 b = Some b"
| "any_from P xs i (Suc n) b = do { x \<leftarrow> rd_at xs i; any_from P xs (Suc i) n (b \<or> P x) }"

definition IsUnProtectId :: "u32 \<Rightarrow> drv_kext \<Rightarrow> bool option" where
  "IsUnProtectId pid k =
     map_option (\<lambda>r. r \<noteq> None) (scan_from (\<lambda>p. p = pid) (AllowProcID k) 0 (unat (nAllowProcID k)))"

definition IsAllowedProcessId :: "u32 \<Rightarrow> string \<Rightarrow> drv_kext \<Rightarrow> bool option" where
  "IsAllowedProcessId pid proc k =
     (if strncaseeq proc ''PISupervisor'' (length ''PISupervisor'') then Some True
      else do {
        r1 \<leftarrow> (if pid = nAgentPID k then Some True
               else if strncaseeq proc ''PIAgent.exe'' (length ''PIAgent.exe'') then Some True
               else any_from (\<lambda>nm. length nm = length proc \<and> strncaseeq nm proc (length nm))
                      (AllowProcName k) 0 (nat (sint (nAllowProcName k))) False);
        r2 \<leftarrow> (if \<not> r1 \<and> bProtect (SelfCtx k) = 1
               then map_option (\<lambda>r. r \<noteq> None)
                      (scan_from (\<lambda>s. svc_nPID s = pid) (Services (SelfCtx k)) 0 (nat (sint (nService (SelfCtx k)))))
               else Some r1);
        (if \<not> r2 then IsUnProtectId pid k else Some r2)
      })"

subsection \<open>Exempt folders and extensions\<close>

text \<open>The extension of at most four characters, with its dot; \<open>Some None\<close> when there is none.
  The first position looked at lies before a path of less than five characters.\<close>

fun ext_loop :: "string \<Rightarrow> nat \<Rightarrow> nat \<Rightarrow> string option" where
  "ext_loop s p 0 = None"
| "ext_loop s p (Suc n) =
     (if take 1 (drop p s) = ''.'' then Some (take (n + 3) (drop p s)) else ext_loop s (Suc p) n)"

definition IsFileGetExtName :: "string \<Rightarrow> string option option" where
  "IsFileGetExtName path = (if length path < 5 then None else Some (ext_loop path (length path - 5) 3))"

definition ext_allowed :: "string \<Rightarrow> string \<Rightarrow> bool" where
  "ext_allowed ext allowed \<longleftrightarrow> sms_strnstr (sms_strupr (tl ext)) allowed (length allowed) \<noteq> None"

fun folder_loop :: "string \<Rightarrow> bool \<Rightarrow> drv_kext \<Rightarrow> nat \<Rightarrow> nat \<Rightarrow> bool option" where
  "folder_loop path opn k i 0 = Some False"
| "folder_loop path opn k i (Suc n) = do {
     f \<leftarrow> rd_at (AllowFolder k) i;
     (if sms_strstr path f = None then folder_loop path opn k (Suc i) n
      else do {
        e \<leftarrow> IsFileGetExtName path;
        (case e of
           Some ext \<Rightarrow> do {
             hit \<leftarrow> scan_from (ext_allowed ext) (AllowFileExt k) 0 (nat (sint (nAllowFileExt k)));
             (if hit \<noteq> None then Some True else folder_loop path opn k (Suc i) n)
           }
         | None \<Rightarrow> Some opn)
      })
   }"

definition IsAllowedFolderFileExt :: "string \<Rightarrow> bool \<Rightarrow> drv_kext \<Rightarrow> bool option" where
  "IsAllowedFolderFileExt path opn k =
     folder_loop (sms_strupr (take MAX_FILE_LENGTH path)) opn k 0 (nat (sint (nAllowFolder k)))"

subsection \<open>The device of a path\<close>

definition path_on :: "string \<Rightarrow> attached_device_ex \<Rightarrow> bool" where
  "path_on path d = (let nm = DeviceNames (cDevice d) in
     sms_strnstr path nm (length nm) \<noteq> None \<and>
     (drop (length nm) path = [] \<or> take 1 (drop (length nm) path) = ''/''))"

text \<open>The loop all tests share: the first entry of the control table for the path.\<close>

definition device_of :: "string \<Rightarrow> drv_kext \<Rightarrow> attached_device_ex option option" where
  "device_of path k = scan_from (path_on path) (CtrlDeviceEx k) 0 (nat (sint (nDeviceCount k)))"

type_synonym lstate = "log_param \<times> agent"

definition note_device :: "attached_device_ex \<Rightarrow> lstate \<Rightarrow> lstate" where
  "note_device d s = (case s of (lp, a) \<Rightarrow>
     (lp\<lparr>lp_bLog := ucast (bLoggingOn (cDevice d)), lp_nPolicyType := ulStorDevType d\<rparr>, a))"

text \<open>The end of a test: a device that does not pass and a path that is not exempt give TRUE,
  with a log entry when the device is logged.\<close>

definition finish_block :: "kenv \<Rightarrow> u32 \<Rightarrow> string \<Rightarrow> bool \<Rightarrow> bool \<Rightarrow> lstate \<Rightarrow> (bool \<times> lstate) option" where
  "finish_block env vtype path unsafe logs s =
     (if unsafe then do {
        ex \<leftarrow> IsAllowedFolderFileExt path True (kx (snd s));
        (if ex then Some (False, s)
         else if logs \<and> truthy (lp_bLog (fst s)) then do {
           (_, s') \<leftarrow> SmartDrv_LogAppend env vtype s;
           Some (True, s')
         } else Some (True, s))
      } else Some (False, s))"

definition disable_all :: "attached_device_ex \<Rightarrow> bool" where
  "disable_all d = truthy (bDisableAll (cDevice d))"
definition disable_read :: "attached_device_ex \<Rightarrow> bool" where
  "disable_read d = truthy (bDisableRead (cDevice d))"
definition disable_write :: "attached_device_ex \<Rightarrow> bool" where
  "disable_write d = truthy (bDisableWrite (cDevice d))"

text \<open>\<open>nReserved1\<close> tells plain blocking (1) from inspection of the content (-1).\<close>

definition blocks_read :: "attached_device_ex \<Rightarrow> bool" where
  "blocks_read d \<longleftrightarrow> disable_all d \<or> disable_read d"
definition blocks_write :: "attached_device_ex \<Rightarrow> bool" where
  "blocks_write d \<longleftrightarrow> disable_all d \<or> (disable_write d \<and> nReserved1 (cDevice d) = 1)"
definition blocks_any :: "attached_device_ex \<Rightarrow> bool" where
  "blocks_any d \<longleftrightarrow> disable_all d \<or> disable_read d \<or> (disable_write d \<and> nReserved1 (cDevice d) = 1)"
definition inspects_write :: "attached_device_ex \<Rightarrow> bool" where
  "inspects_write d \<longleftrightarrow> disable_write d \<and> nReserved1 (cDevice d) = -1"
definition allows_rw :: "attached_device_ex \<Rightarrow> bool" where
  "allows_rw d \<longleftrightarrow> \<not> disable_read d \<and> \<not> disable_write d"

lemmas device_tests = disable_all_def disable_read_def disable_write_def blocks_read_def
  blocks_write_def blocks_any_def inspects_write_def allows_rw_def

text \<open>Files right under \<open>/Volumes\<close> are shown to the Finder: the answer is then 3.\<close>

definition finder_bypass :: "string \<Rightarrow> string \<Rightarrow> bool" where
  "finder_bypass proc path \<longleftrightarrow>
     (strncaseeq proc ''sharedfilelistd'' (length ''sharedfilelistd'') \<or>
      strncaseeq proc ''Finder'' (length ''Finder'') \<or> strncaseeq proc ''lsd'' (length ''lsd'')) \<and>
     length ''/Volumes/'' \<le> length path \<and> sms_strnstr path ''/Volumes/'' (length ''/Volumes/'') = Some 0 \<and>
     CHR ''/'' \<notin> set (drop (length ''/Volumes/'') path)"

definition KAUTH_RESULT_DEFER :: int where "KAUTH_RESULT_DEFER = 3"

definition IsPolicyExist_BlockRead :: "kenv \<Rightarrow> string \<Rightarrow> u32 \<Rightarrow> string \<Rightarrow> lstate \<Rightarrow> (int \<times> lstate) option" where
  "IsPolicyExist_BlockRead env proc vtype path s = do {
     dev \<leftarrow> device_of path (kx (snd s));
     let hit = (case dev of Some d \<Rightarrow> blocks_read d | None \<Rightarrow> False);
     let s1 = (case dev of Some d \<Rightarrow> if hit then note_device d s else s | None \<Rightarrow> s);
     (if hit \<and> finder_bypass proc path then Some (KAUTH_RESULT_DEFER, s1)
      else map_option (\<lambda>(b, s'). (of_bool b, s')) (finish_block env vtype path hit True s1))
   }"

definition IsPolicyExist_BlockWrite :: "kenv \<Rightarrow> u32 \<Rightarrow> string \<Rightarrow> lstate \<Rightarrow> (bool \<times> lstate) option" where
  "IsPolicyExist_BlockWrite env vtype path s = do {
     dev \<leftarrow> device_of path (kx (snd s));
     (case dev of
        Some d \<Rightarrow> if blocks_write d then finish_block env vtype path True False (note_device d s)
                 else Some (False, s)
      | None \<Rightarrow> Some (False, s))
   }"

definition IsPolicyExist_AllowWrite :: "kenv \<Rightarrow> u32 \<Rightarrow> string \<Rightarrow> lstate \<Rightarrow> (bool \<times> lstate) option" where
  "IsPolicyExist_AllowWrite env vtype path s = do {
     dev \<leftarrow> device_of path (kx (snd s));
     (case dev of
        Some d \<Rightarrow> if allows_rw d then
            let (lp, a) = note_device d s in
            (if truthy (lp_bLog lp) then do {
               (_, s') \<leftarrow> SmartDrv_LogAppend env vtype (lp\<lparr>lp_bAllow := 1\<rparr>, a);
               Some (True, s')
             } else Some (True, lp, a))
          else Some (False, s)
      | None \<Rightarrow> Some (False, s))
   }"

definition IsPolicyExist_BlockAll :: "kenv \<Rightarrow> u32 \<Rightarrow> string \<Rightarrow> lstate \<Rightarrow> (bool \<times> lstate) option" where
  "IsPolicyExist_BlockAll env vtype path s = do {
     dev \<leftarrow> device_of path (kx (snd s));
     (case dev of
        Some d \<Rightarrow> if blocks_any d then finish_block env vtype path True True (note_device d s)
                 else Some (False, s)
      | None \<Rightarrow> Some (False, s))
   }"

definition IsPolicyExist_CopyPrevent :: "kenv \<Rightarrow> string \<Rightarrow> lstate \<Rightarrow> (bool \<times> lstate) option" where
  "IsPolicyExist_CopyPrevent env path s = do {
     dev \<leftarrow> device_of path (kx (snd s));
     (case dev of
        Some d \<Rightarrow> if inspects_write d then finish_block env VREG path True True (note_device d s)
                 else Some (False, s)
      | None \<Rightarrow> Some (False, s))
   }"

subsection \<open>Printing and uploads\<close>

definition note_policy :: "kenv \<Rightarrow> u64 \<Rightarrow> u32 \<Rightarrow> lstate \<Rightarrow> (bool \<times> lstate) option" where
  "note_policy env logging ptype s = (case s of (lp, a) \<Rightarrow>
     let lp' = lp\<lparr>lp_bLog := ucast logging, lp_nPolicyType := ptype\<rparr> in
     (if truthy (lp_bLog lp') then do {
        (_, s') \<leftarrow> SmartDrv_LogAppend env VREG (lp', a);
        Some (True, s')
      } else Some (True, lp', a)))"

definition IsPolicyExist_Print_BlockWrite :: "kenv \<Rightarrow> lstate \<Rightarrow> (bool \<times> lstate) option" where
  "IsPolicyExist_Print_BlockWrite env s = (let p = PrintCtx (kx (snd s)) in
     if \<not> truthy (pp_bPolicy p) then Some (False, s)
     else if truthy (pp_bDisableWrite p) \<and> pp_nReserved1 p = 1
     then note_policy env (pp_bLoggingOn p) (pp_nPolicyType p) s else Some (False, s))"

definition IsPolicyExist_PrintPrevent :: "kenv \<Rightarrow> lstate \<Rightarrow> (bool \<times> lstate) option" where
  "IsPolicyExist_PrintPrevent env s = (let p = PrintCtx (kx (snd s)) in
     if \<not> truthy (pp_bPolicy p) then Some (False, s)
     else if truthy (pp_bDisableWrite p) \<and> pp_nReserved1 p = -1
     then note_policy env (pp_bLoggingOn p) (pp_nPolicyType p) s else Some (False, s))"

definition IsPolicyExist_UploadPrevent :: "kenv \<Rightarrow> lstate \<Rightarrow> (bool \<times> lstate) option" where
  "IsPolicyExist_UploadPrevent env s = (let p = UploadCtx (kx (snd s)) in
     if \<not> truthy (up_bPolicy p) then Some (False, s)
     else if truthy (up_bDisableWrite p) \<and> up_nReserved1 p = -1
     then note_policy env (up_bLoggingOn p) (up_nPolicyType p) s else Some (False, s))"

subsection \<open>Asking the supervisor\<close>

text \<open>Decimal digits, and \<open>%012ld\<close>.\<close>

fun decimal :: "nat \<Rightarrow> string" where
  "decimal n = (if n < 10 then [char_of (48 + n)] else decimal (n div 10) @ [char_of (48 + n mod 10)])"

declare decimal.simps [simp del]

definition decimal12 :: "nat \<Rightarrow> string" where
  "decimal12 n = replicate (12 - length (decimal n)) (CHR ''0'') @ decimal n"

definition MEDIA_PRINTPREVENT :: u32 where "MEDIA_PRINTPREVENT = 0x1000"

text \<open>The quarantine file name, as \<open>snprintf\<close> leaves it in a buffer of \<open>cap\<close> bytes; \<open>None\<close>
  where the function returns FALSE.\<close>

definition QtFetchValidPath :: "string \<Rightarrow> nat \<Rightarrow> u32 \<Rightarrow> string \<Rightarrow> nat \<Rightarrow> string option" where
  "QtFetchValidPath path cap ptype qtdir now =
     (case sms_strrchr path (CHR ''/'') of None \<Rightarrow> None
      | Some i \<Rightarrow>
          let token = drop i path in
          if length token \<le> 1 then None
          else Some (take (cap - 1)
            (if ptype = MEDIA_PRINTPREVENT then qtdir @ ''/Print/'' @ decimal12 now @ ''_'' @ tl token
             else case strpos ''.'' token of
                 None \<Rightarrow> qtdir @ ''/'' @ decimal12 now
               | Some j \<Rightarrow> qtdir @ ''/'' @ decimal12 now @ drop j token)))"

definition ActionTypePrint :: u32 where "ActionTypePrint = 0x80"
definition ActionTypeUpload :: u32 where "ActionTypeUpload = 0x81"
definition RESULT_DENY :: u32 where "RESULT_DENY = 0"
definition SIZEOF_SCANNER_NOTIFICATION :: nat where "SIZEOF_SCANNER_NOTIFICATION = 2104"

definition UserModeTo_FileScan :: "kenv \<Rightarrow> u32 \<Rightarrow> string \<Rightarrow> u32 \<Rightarrow> agent \<Rightarrow> (bool \<times> agent) option" where
  "UserModeTo_FileScan env pid path ptype a =
     (if \<not> MyMAlloc env (SIZEOF_COMMAND_MESSAGE + SIZEOF_SCANNER_NOTIFICATION) then Some (False, a)
      else do {
        bus \<leftarrow> VolCtx_Search_BusType path (kx a);
        p \<leftarrow> strncpy0 MAX_FILE_LENGTH path (length path + 1);
        ent \<leftarrow> rd_at (Entry (QtCtx (kx a))) 0;
        let act = (if ptype = pp_nPolicyType (PrintCtx (kx a)) then ActionTypePrint
                   else if ptype = up_nPolicyType (UploadCtx (kx a)) then ActionTypeUpload else bus);
        let qt = (case QtFetchValidPath p MAX_FILE_LENGTH ptype (czBuffer ent) (k_now env) of
                    None \<Rightarrow> [] | Some q \<Rightarrow> q);
        (case UserModeTo_SendCommand env (FileScanEvent act pid p qt) a of
           (None, a') \<Rightarrow> Some (False, a')
         | (Some r, a') \<Rightarrow> Some (r \<noteq> RESULT_DENY, a'))
      })"

definition UserModeTo_FileDelete :: "kenv \<Rightarrow> string \<Rightarrow> agent \<Rightarrow> (bool \<times> agent) option" where
  "UserModeTo_FileDelete env path a =
     (if \<not> MyMAlloc env (SIZEOF_COMMAND_MESSAGE + SIZEOF_SCANNER_NOTIFICATION) then Some (False, a)
      else do {
        p \<leftarrow> strncpy0 MAX_FILE_LENGTH path (length path);
        (case UserModeTo_SendCommand env (FileDeleteEvent p) a of
           (None, a') \<Rightarrow> Some (False, a')
         | (Some r, a') \<Rightarrow> Some (r \<noteq> RESULT_DENY, a'))
      })"

definition GetFileSize :: "kenv \<Rightarrow> string \<Rightarrow> u64" where
  "GetFileSize env path =
     (if path = [] then 0 else case k_stat env path of None \<Rightarrow> 0 | Some n \<Rightarrow> n)"

subsection \<open>The decision on a closed file\<close>

datatype dlp_policy_type = POLICY_COPY | POLICY_PRINT | POLICY_UPLOAD

definition orelse :: "(lstate \<Rightarrow> (bool \<times> lstate) option) \<Rightarrow> (lstate \<Rightarrow> (bool \<times> lstate) option)
    \<Rightarrow> lstate \<Rightarrow> (bool \<times> lstate) option" where
  "orelse f g s = do { (b, s') \<leftarrow> f s; (if b then Some (True, s') else g s') }"

text \<open>\<open>test && em == want\<close>: the test runs, and logs, for every kind of request.\<close>

definition also_for :: "bool \<Rightarrow> (lstate \<Rightarrow> (bool \<times> lstate) option) \<Rightarrow> lstate \<Rightarrow> (bool \<times> lstate) option" where
  "also_for want f s = map_option (\<lambda>(b, s'). (b \<and> want, s')) (f s)"

definition CtrlCheck_Contents :: "kenv \<Rightarrow> u32 \<Rightarrow> string \<Rightarrow> dlp_policy_type \<Rightarrow> lstate
    \<Rightarrow> (bool \<times> lstate) option" where
  "CtrlCheck_Contents env pid path em s = do {
     let size = GetFileSize env path;
     (blk, s1) \<leftarrow> orelse (also_for (em = POLICY_COPY) (IsPolicyExist_BlockWrite env VREG path))
                        (also_for (em = POLICY_PRINT) (IsPolicyExist_Print_BlockWrite env)) s;
     (if blk then do {
        (_, a) \<leftarrow> UserModeTo_FileDelete env path (snd s1);
        Some (False, fst s1, a)
      } else do {
        (alw, s2) \<leftarrow> also_for (em = POLICY_COPY) (IsPolicyExist_AllowWrite env VREG path) s1;
        (if alw then Some (False, s2)
         else do {
           (prv, s3) \<leftarrow> orelse (also_for (em = POLICY_COPY) (IsPolicyExist_CopyPrevent env path))
                        (orelse (also_for (em = POLICY_PRINT) (IsPolicyExist_PrintPrevent env))
                                (also_for (em = POLICY_UPLOAD) (IsPolicyExist_UploadPrevent env))) s2;
           (if prv \<and> 0 < size then do {
              (ok, a) \<leftarrow> UserModeTo_FileScan env pid path (lp_nPolicyType (fst s3)) (snd s3);
              (if em \<noteq> POLICY_UPLOAD \<and> \<not> ok then do {
                 (_, a') \<leftarrow> UserModeTo_FileDelete env path a;
                 Some (ok, fst s3, a')
               } else Some (ok, fst s3, a))
            } else Some (False, s3))
         })
      })
   }"

subsection \<open>Event handlers\<close>

definition with_world :: "vol_world \<Rightarrow> agent \<Rightarrow> agent" where
  "with_world w a = a\<lparr>kx := kx w, monitors := monitors w, mark_reqs := mark_reqs w\<rparr>"

definition agent_IsControlDeviceType :: "kenv \<Rightarrow> string \<Rightarrow> agent \<Rightarrow> (bool \<times> agent) option" where
  "agent_IsControlDeviceType env path a = do {
     (b, w) \<leftarrow> IsControlDeviceType (czCupsSpoolPath a) path (k_mark env) (vol_world.truncate a);
     Some (b, with_world w a)
   }"

definition KAUTH_FILEOP_CLOSE_MODIFIED :: u32 where "KAUTH_FILEOP_CLOSE_MODIFIED = 2"
definition KAUTH_FILEOP_CLOSE :: u32 where "KAUTH_FILEOP_CLOSE = 2"
definition PROC_CUPSD :: string where "PROC_CUPSD = ''cupsd''"

text \<open>\<open>strncpy (g_czCupsSpoolPath, g_czCupsSpoolPathDump, ...)\<close>; both buffers have the same size.\<close>

definition print_paths :: "string \<Rightarrow> string \<Rightarrow> agent \<Rightarrow> agent" where
  "print_paths proc path a =
     (if pp_bPolicy (PrintCtx (kx a)) = 1 then
        let a1 = (if czCupsSpoolPath a = [] then a\<lparr>czCupsSpoolPath := czCupsSpoolPathDump a\<rparr> else a) in
        (if strncaseeq proc PROC_CUPSD (length PROC_CUPSD) \<and> 0 < length (czCupsTempPath a1) \<and>
            strncaseeq path (czCupsTempPath a1) (length (czCupsTempPath a1)) \<and>
            0 < length (czCupsSpoolPathDump a1)
         then a1\<lparr>czCupsSpoolPath := czCupsSpoolPathDump a1, czCupsSpoolPathDump := []\<rparr> else a1)
      else a)"

definition Kauth_FileOp_FileClose :: "kenv \<Rightarrow> u32 \<Rightarrow> string \<Rightarrow> string \<Rightarrow> u32 \<Rightarrow> lstate
    \<Rightarrow> (bool \<times> lstate) option" where
  "Kauth_FileOp_FileClose env pid proc path flag s =
     (if and flag KAUTH_FILEOP_CLOSE_MODIFIED = 0 then Some (False, s)
      else do {
        let a1 = print_paths proc path (snd s);
        let lp = (fst s)\<lparr>lp_nAction := ACTION_CLOSE, lp_pczPath1 := Some path\<rparr>;
        (ctl, a2) \<leftarrow> agent_IsControlDeviceType env path a1;
        (if ctl then CtrlCheck_Contents env pid path POLICY_COPY (lp, a2) else Some (False, lp, a2))
      })"

definition Kauth_Vnode_IsProtectRead :: "kenv \<Rightarrow> string \<Rightarrow> u32 \<Rightarrow> string \<Rightarrow> lstate \<Rightarrow> (bool \<times> lstate) option" where
  "Kauth_Vnode_IsProtectRead env proc vtype path s = do {
     (ctl, a) \<leftarrow> agent_IsControlDeviceType env path (snd s);
     (if ctl then do {
        (r, s') \<leftarrow> IsPolicyExist_BlockRead env proc vtype path
                     ((fst s)\<lparr>lp_nAction := ACTION_READ, lp_pczPath1 := Some path\<rparr>, a);
        Some (r = 1, s')
      } else Some (False, fst s, a))
   }"

definition Kauth_Vnode_IsProtectWrite :: "kenv \<Rightarrow> u32 \<Rightarrow> string \<Rightarrow> lstate \<Rightarrow> (bool \<times> lstate) option" where
  "Kauth_Vnode_IsProtectWrite env vtype path s = do {
     (ctl, a) \<leftarrow> agent_IsControlDeviceType env path (snd s);
     (if ctl then IsPolicyExist_BlockWrite env vtype path
                    ((fst s)\<lparr>lp_nAction := ACTION_WRITE, lp_pczPath1 := Some path\<rparr>, a)
      else Some (False, fst s, a))
   }"

text \<open>\<open>proc_name\<close> is what \<open>GetProcessName\<close> leaves in \<open>czProcName\<close>: nothing, on Linux.\<close>

definition Kauth_Callback_FileOp :: "kenv \<Rightarrow> u32 \<Rightarrow> u32 \<Rightarrow> string option \<Rightarrow> u32 \<Rightarrow> agent
    \<Rightarrow> (int \<times> agent) option" where
  "Kauth_Callback_FileOp env pid act path flag a = do {
     let proc = [];
     allowed \<leftarrow> IsAllowedProcessId pid proc (kx a);
     (if allowed then Some (KAUTH_RESULT_DEFER, a)
      else do {
        let lp = zero_param\<lparr>lp_nLogType := 1, lp_nProcessId := pid, lp_pczProcName := Some proc,
                   lp_nAction := act\<rparr>;
        (if act = KAUTH_FILEOP_CLOSE then
           (case path of None \<Rightarrow> Some (KAUTH_RESULT_DEFER, a)
            | Some p \<Rightarrow> do {
                (_, s') \<leftarrow> Kauth_FileOp_FileClose env pid proc p flag (lp, a);
                Some (KAUTH_RESULT_DEFER, snd s') })
         else Some (KAUTH_RESULT_DEFER, a))
      })
   }"

definition base_name :: "string \<Rightarrow> string" where
  "base_name path = (case sms_strrchr path (CHR ''/'') of None \<Rightarrow> path | Some i \<Rightarrow> drop (Suc i) path)"

definition FAN_CLOSE_WRITE :: u64 where "FAN_CLOSE_WRITE = 8"
definition FAN_ALLOW :: u32 where "FAN_ALLOW = 1"

text \<open>One notification: \<open>file\<close> is the path behind its descriptor, \<open>prog\<close> the program of the
  process, \<open>[]\<close> when it cannot be read. The answer written to fanotify is the first component.\<close>

definition event_process :: "kenv \<Rightarrow> u32 \<Rightarrow> u64 \<Rightarrow> string option \<Rightarrow> string \<Rightarrow> agent
    \<Rightarrow> (u32 \<times> agent) option" where
  "event_process env pid evmask file prog a =
     (case file of None \<Rightarrow> Some (FAN_ALLOW, a)
      | Some path \<Rightarrow>
          let proc = base_name prog;
              lp = zero_param\<lparr>lp_nProcessId := pid, lp_pczProcName := Some proc,
                     lp_nAction := KAUTH_FILEOP_CLOSE\<rparr> in
          (if and evmask FAN_CLOSE_WRITE \<noteq> 0 then do {
             (_, s') \<leftarrow> Kauth_FileOp_FileClose env pid proc path KAUTH_FILEOP_CLOSE_MODIFIED
                         (lp\<lparr>lp_nLogType := 1\<rparr>, a);
             Some (FAN_ALLOW, snd s')
           } else Some (FAN_ALLOW, a)))"


subsection \<open>The tests as searches\<close>

lemma any_from_eq: "i + n \<le> length xs \<Longrightarrow> any_from P xs i n b = Some (b \<or> list_ex P (take n (drop i xs)))"
proof (induction n arbitrary: i b)
  case 0
  then show ?case by simp
next
  case (Suc n)
  then have "drop i xs = xs ! i # drop (Suc i) xs" by (simp add: Cons_nth_drop_Suc)
  with Suc show ?case by (simp add: arr)
qed

lemma find_not_None_iff: "List.find P xs \<noteq> None \<longleftrightarrow> (\<exists>x \<in> set xs. P x)"
  by (metis find_None_iff)

lemma find_Some_ex: "(\<exists>y. List.find P xs = Some y) \<longleftrightarrow> (\<exists>x \<in> set xs. P x)"
  by (metis find_None_iff not_None_eq)

lemma sint_count:
  assumes "unat (n :: u32) \<le> 64"
  shows "nat (sint n) = unat n"
proof -
  have "sint (word_of_nat (unat n) :: u32) = int (unat n)" using assms by (intro sint_of_small_nat) simp
  then show ?thesis by simp
qed

text \<open>Whether a device path is the directory a path lies in, or the path itself.\<close>

definition lies_in :: "string \<Rightarrow> string \<Rightarrow> bool" where
  "lies_in dir path \<longleftrightarrow> path = dir \<or> prefix (dir @ ''/'') path"

lemma path_on_iff: "path_on path d \<longleftrightarrow> lies_in (DeviceNames (cDevice d)) path"
proof -
  let ?nm = "DeviceNames (cDevice d)"
  have "path_on path d \<longleftrightarrow>
      (\<exists>r. path = ?nm @ r \<and> (r = [] \<or> take 1 r = ''/''))"
    unfolding path_on_def Let_def sms_strnstr_self_length prefix_def by auto
  also have "\<dots> \<longleftrightarrow> lies_in ?nm path"
  proof
    assume "\<exists>r. path = ?nm @ r \<and> (r = [] \<or> take 1 r = ''/'')"
    then obtain r where r: "path = ?nm @ r" "r = [] \<or> take 1 r = ''/''" by blast
    then show "lies_in ?nm path" by (cases r) (auto simp: lies_in_def prefix_def)
  next
    assume "lies_in ?nm path"
    then show "\<exists>r. path = ?nm @ r \<and> (r = [] \<or> take 1 r = ''/'')"
      by (auto simp: lies_in_def prefix_def)
  qed
  finally show ?thesis .
qed

definition device :: "string \<Rightarrow> drv_kext \<Rightarrow> attached_device_ex option" where
  "device path k = List.find (\<lambda>d. lies_in (DeviceNames (cDevice d)) path) (controls k)"

lemma device_of_eq:
  assumes "wf_kext k"
  shows "device_of path k = Some (device path k)"
proof -
  have n: "nat (sint (nDeviceCount k)) = unat (nDeviceCount k)"
    using assms by (intro sint_count) (simp add: wf_defs)
  have "path_on path = (\<lambda>d. lies_in (DeviceNames (cDevice d)) path)" by (rule ext) (rule path_on_iff)
  then show ?thesis
    using assms unfolding device_of_def n
    by (subst scan_from_eq_find) (simp_all add: wf_defs device_def controls_def)
qed

subsection \<open>Exempt processes and paths\<close>

definition allowed_process :: "u32 \<Rightarrow> string \<Rightarrow> drv_kext \<Rightarrow> bool" where
  "allowed_process pid proc k \<longleftrightarrow>
     strncaseeq proc ''PISupervisor'' (length ''PISupervisor'') \<or> pid = nAgentPID k \<or>
     strncaseeq proc ''PIAgent.exe'' (length ''PIAgent.exe'') \<or>
     (\<exists>nm \<in> set (take (unat (nAllowProcName k)) (AllowProcName k)). strcaseeq nm proc) \<or>
     (bProtect (SelfCtx k) = 1 \<and>
        (\<exists>s \<in> set (take (unat (nService (SelfCtx k))) (Services (SelfCtx k))). svc_nPID s = pid)) \<or>
     pid \<in> set (take (unat (nAllowProcID k)) (AllowProcID k))"

lemma IsAllowedProcessId_eq:
  assumes "wf_kext k"
  shows "IsAllowedProcessId pid proc k = Some (allowed_process pid proc k)"
proof -
  have n: "nat (sint (nAllowProcName k)) = unat (nAllowProcName k)"
      "nat (sint (nService (SelfCtx k))) = unat (nService (SelfCtx k))"
    using assms by (auto intro!: sint_count simp: wf_defs)
  have names: "any_from (\<lambda>nm. length nm = length proc \<and> strncaseeq nm proc (length nm))
       (AllowProcName k) 0 (unat (nAllowProcName k)) False =
     Some (\<exists>nm \<in> set (take (unat (nAllowProcName k)) (AllowProcName k)). strcaseeq nm proc)"
  proof -
    have "(\<lambda>nm. length nm = length proc \<and> strncaseeq nm proc (length nm)) = (\<lambda>nm. strcaseeq nm proc)"
      by (rule ext) (metis strcaseeq_length strncaseeq_full)
    then show ?thesis using assms by (simp add: any_from_eq wf_defs list_ex_iff)
  qed
  have svcs: "map_option (\<lambda>r. r \<noteq> None) (scan_from (\<lambda>s. svc_nPID s = pid) (Services (SelfCtx k)) 0
       (unat (nService (SelfCtx k)))) =
     Some (\<exists>s \<in> set (take (unat (nService (SelfCtx k))) (Services (SelfCtx k))). svc_nPID s = pid)"
    using assms by (simp add: arr wf_defs find_Some_ex)
  have ids: "IsUnProtectId pid k = Some (pid \<in> set (take (unat (nAllowProcID k)) (AllowProcID k)))"
    using assms by (simp add: IsUnProtectId_def arr wf_defs find_Some_ex)
  show ?thesis
    unfolding IsAllowedProcessId_def n names svcs ids allowed_process_def by simp
qed


lemma folder_loop_total:
  assumes "i + n \<le> length (AllowFolder k)" and "wf_kext k" and "5 \<le> length path"
  shows "folder_loop path opn k i n \<noteq> None"
  using assms(1)
proof (induction n arbitrary: i)
  case 0
  then show ?case by simp
next
  case (Suc n)
  have m: "nat (sint (nAllowFileExt k)) = unat (nAllowFileExt k)"
    using assms(2) by (intro sint_count) (simp add: wf_defs)
  have scan: "scan_from P (AllowFileExt k) 0 (nat (sint (nAllowFileExt k))) \<noteq> None" for P
    using assms(2) unfolding m by (subst scan_from_eq_find) (simp_all add: wf_defs)
  obtain e where e: "IsFileGetExtName path = Some e" using assms(3) by (simp add: IsFileGetExtName_def)
  obtain b where IH: "folder_loop path opn k (Suc i) n = Some b" using Suc by fastforce
  from Suc.prems have rd: "rd_at (AllowFolder k) i = Some (AllowFolder k ! i)" by (simp add: arr)
  show ?case
  proof (cases e)
    case None
    then show ?thesis using e IH rd by simp
  next
    case (Some x)
    obtain h where "scan_from (ext_allowed x) (AllowFileExt k) 0 (nat (sint (nAllowFileExt k))) = Some h"
      using scan by blast
    then show ?thesis using e IH rd Some by auto
  qed
qed

lemma IsAllowedFolderFileExt_total:
  assumes "wf_kext k" and "5 \<le> length path"
  shows "IsAllowedFolderFileExt path opn k \<noteq> None"
proof -
  have "nat (sint (nAllowFolder k)) = unat (nAllowFolder k)"
    using assms(1) by (intro sint_count) (simp add: wf_defs)
  then show ?thesis
    unfolding IsAllowedFolderFileExt_def using assms
    by (intro folder_loop_total) (simp_all add: wf_defs)
qed

definition exempt :: "string \<Rightarrow> drv_kext \<Rightarrow> bool" where
  "exempt path k \<longleftrightarrow> IsAllowedFolderFileExt path True k = Some True"

lemma IsAllowedFolderFileExt_eq:
  "wf_kext k \<Longrightarrow> 5 \<le> length path \<Longrightarrow> IsAllowedFolderFileExt path True k = Some (exempt path k)"
  using IsAllowedFolderFileExt_total [of k path True] by (auto simp: exempt_def)

subsection \<open>What a test may change\<close>

fun is_log :: "event \<Rightarrow> bool" where
  "is_log (LogEvent r) = True"
| "is_log _ = False"

definition file_events :: "agent \<Rightarrow> event list" where
  "file_events a = filter (\<lambda>e. \<not> is_log e) (sent a)"

definition short_names :: "log_param \<Rightarrow> bool" where
  "short_names lp \<longleftrightarrow> (\<forall>p. lp_pczProcName lp = Some p \<longrightarrow> length p < LOG_PROC_LEN) \<and>
     (\<forall>p. lp_pczPath1 lp = Some p \<longrightarrow> length p < LOG_FILE_LEN)"

definition ready :: "kenv \<Rightarrow> lstate \<Rightarrow> bool" where
  "ready env s \<longleftrightarrow> k_mem env \<and> wf_kext (kx (snd s)) \<and> unstamped (snd s) \<and> short_names (fst s)"

text \<open>Only logs are sent, and the agent's tables do not change.\<close>

definition quiet :: "lstate \<Rightarrow> lstate \<Rightarrow> bool" where
  "quiet s s' \<longleftrightarrow> vol_world.truncate (snd s') = vol_world.truncate (snd s) \<and>
     file_events (snd s') = file_events (snd s) \<and> unstamped (snd s') = unstamped (snd s) \<and>
     lp_pczProcName (fst s') = lp_pczProcName (fst s) \<and> lp_pczPath1 (fst s') = lp_pczPath1 (fst s)"

lemma quiet_refl [simp]: "quiet s s"
  by (simp add: quiet_def)

lemma quiet_trans [trans]: "quiet s t \<Longrightarrow> quiet t u \<Longrightarrow> quiet s u"
  by (simp add: quiet_def)

lemma quiet_kx: "quiet s s' \<Longrightarrow> kx (snd s') = kx (snd s)"
  by (auto simp: quiet_def vol_world.defs)

lemma ready_quiet: "ready env s \<Longrightarrow> quiet s s' \<Longrightarrow> ready env s'"
  using quiet_kx [of s s'] by (simp add: ready_def quiet_def short_names_def)

lemma quiet_lp:
  "lp_pczProcName lp' = lp_pczProcName lp \<Longrightarrow> lp_pczPath1 lp' = lp_pczPath1 lp \<Longrightarrow> quiet (lp, a) (lp', a)"
  by (simp add: quiet_def)

lemma make_record_Some: "short_names lp \<Longrightarrow> \<exists>r. make_record lp = Some r"
  by (auto simp: make_record_def copy_field_def short_names_def split: option.split)

lemma LogAppend_quiet:
  assumes "ready env s"
  shows "\<exists>ok s'. SmartDrv_LogAppend env vtype s = Some (ok, s') \<and> quiet s s' \<and>
     lp_nPolicyType (fst s') = lp_nPolicyType (fst s)"
proof (cases s)
  case (Pair lp a)
  have a: "unstamped a" "short_names lp" "k_mem env" using assms Pair by (simp_all add: ready_def)
  show ?thesis
  proof (cases "IsLogByPassProcess lp")
    case True
    then have "SmartDrv_LogAppend env vtype s = Some (False, s)" by (simp add: Pair SmartDrv_LogAppend_def)
    then show ?thesis by (intro exI [of _ False] exI [of _ s]) simp
  next
    case False
    let ?lp = "lp\<lparr>lp_nVnodeType := vtype\<rparr>"
    have par: "IsExistParentLogCheck lp a = Some False"
      using a(1) by (simp add: IsExistParentLogCheck_def LogCheckSearchParent_none)
    have mem: "MyMAlloc env SIZEOF_LOG_RECORD_EX"
      using a(3) by (simp add: MyMAlloc_def SIZEOF_LOG_RECORD_EX_def)
    obtain r where r: "make_record ?lp = Some r"
      using make_record_Some [of ?lp] a(2) by (auto simp: short_names_def)
    have "IsDirDuplicateLog ?lp a \<noteq> None"
      using a(2) by (auto simp: IsDirDuplicateLog_def LogCheckInsert_def short_names_def
          LogCheckSearch_none [OF a(1)] insert_loop_first [OF a(1)] split: option.splits)
    then obtain d a1 where d: "(if vtype = VDIR then IsDirDuplicateLog ?lp a else Some (False, a)) = Some (d, a1)"
      by (cases "vtype = VDIR") auto
    then have "\<not> d" using IsDirDuplicateLog_never [OF a(1)] by (auto split: if_splits)
    then obtain ok a2 where out: "SmartDrv_LogAppend env vtype (lp, a) = Some (ok, ?lp, a2)"
      using False par d mem r
      by (cases "UserModeTo_SmartLogNotify env r a1") (simp add: SmartDrv_LogAppend_def Let_def)
    then show ?thesis
      using LogAppend_sends [OF a(1) False a(3) out] a(1)
      by (auto simp: Pair quiet_def file_events_def)
  qed
qed

lemma finish_block_quiet:
  assumes "ready env s" and "5 \<le> length path"
  shows "\<exists>s'. finish_block env vtype path unsafe logs s = Some (unsafe \<and> \<not> exempt path (kx (snd s)), s') \<and>
     quiet s s' \<and> lp_nPolicyType (fst s') = lp_nPolicyType (fst s)"
proof -
  have ex: "IsAllowedFolderFileExt path True (kx (snd s)) = Some (exempt path (kx (snd s)))"
    using assms by (intro IsAllowedFolderFileExt_eq) (simp_all add: ready_def)
  obtain ok s' where "SmartDrv_LogAppend env vtype s = Some (ok, s')" "quiet s s'"
      "lp_nPolicyType (fst s') = lp_nPolicyType (fst s)"
    using LogAppend_quiet [OF assms(1)] by blast
  then show ?thesis using ex by (cases s; cases s') (auto simp: finish_block_def)
qed


subsection \<open>The contract of a policy test\<close>

text \<open>A policy test answers a question about the tables and sends nothing but logs. Tests are
  combined as \<open>CtrlCheck_Contents\<close> combines them: restricted to a kind of request, and one
  after the other.\<close>

locale policy_test =
  fixes test :: "kenv \<Rightarrow> string \<Rightarrow> lstate \<Rightarrow> (bool \<times> lstate) option"
    and holds :: "string \<Rightarrow> drv_kext \<Rightarrow> bool"
  assumes run: "ready env s \<Longrightarrow> 5 \<le> length path \<Longrightarrow>
    \<exists>s'. test env path s = Some (holds path (kx (snd s)), s') \<and> quiet s s'"
begin

lemma run_cases:
  assumes "ready env s" and "5 \<le> length path"
  obtains s' where "test env path s = Some (holds path (kx (snd s)), s')" and "quiet s s'"
    and "ready env s'" and "kx (snd s') = kx (snd s)"
  using run [OF assms] ready_quiet [OF assms(1)] quiet_kx by blast

end

locale gated_test = policy_test +
  fixes want :: bool
begin

sublocale gate: policy_test "\<lambda>env path. also_for want (test env path)" "\<lambda>path k. holds path k \<and> want"
proof
  fix env s path
  assume "ready env s" and "5 \<le> length (path :: string)"
  then obtain s' where "test env path s = Some (holds path (kx (snd s)), s')" "quiet s s'"
    by (rule run_cases)
  then show "\<exists>s'. also_for want (test env path) s = Some (holds path (kx (snd s)) \<and> want, s') \<and> quiet s s'"
    by (cases s') (auto simp: also_for_def)
qed

end

locale either_test = l: policy_test t1 h1 + r: policy_test t2 h2 for t1 h1 t2 h2
begin

sublocale either: policy_test "\<lambda>env path. orelse (t1 env path) (t2 env path)" "\<lambda>path k. h1 path k \<or> h2 path k"
proof
  fix env s path
  assume s: "ready env s" and p: "5 \<le> length (path :: string)"
  obtain s1 where 1: "t1 env path s = Some (h1 path (kx (snd s)), s1)" "quiet s s1" "ready env s1"
      "kx (snd s1) = kx (snd s)" using s p by (rule l.run_cases)
  obtain s2 where 2: "t2 env path s1 = Some (h2 path (kx (snd s)), s2)" "quiet s1 s2"
    using 1(3) p unfolding 1(4) [symmetric] by (rule r.run_cases)
  show "\<exists>s'. orelse (t1 env path) (t2 env path) s = Some (h1 path (kx (snd s)) \<or> h2 path (kx (snd s)), s') \<and> quiet s s'"
  proof (cases "h1 path (kx (snd s))")
    case True
    then show ?thesis using 1(1,2) by (intro exI [of _ s1]) (simp add: orelse_def)
  next
    case False
    then show ?thesis using 1(1) 2 quiet_trans [OF 1(2) 2(2)]
      by (intro exI [of _ s2]) (simp add: orelse_def)
  qed
qed

end

definition on_device :: "(attached_device_ex \<Rightarrow> bool) \<Rightarrow> string \<Rightarrow> drv_kext \<Rightarrow> bool" where
  "on_device P path k = (case device path k of None \<Rightarrow> False | Some d \<Rightarrow> P d)"

definition write_blocked :: "string \<Rightarrow> drv_kext \<Rightarrow> bool" where
  "write_blocked path k \<longleftrightarrow> on_device blocks_write path k \<and> \<not> exempt path k"
definition all_blocked :: "string \<Rightarrow> drv_kext \<Rightarrow> bool" where
  "all_blocked path k \<longleftrightarrow> on_device blocks_any path k \<and> \<not> exempt path k"
definition copy_inspected :: "string \<Rightarrow> drv_kext \<Rightarrow> bool" where
  "copy_inspected path k \<longleftrightarrow> on_device inspects_write path k \<and> \<not> exempt path k"
definition write_allowed :: "string \<Rightarrow> drv_kext \<Rightarrow> bool" where
  "write_allowed path k \<longleftrightarrow> on_device allows_rw path k"
definition print_blocked :: "drv_kext \<Rightarrow> bool" where
  "print_blocked k \<longleftrightarrow> truthy (pp_bPolicy (PrintCtx k)) \<and> truthy (pp_bDisableWrite (PrintCtx k)) \<and>
     pp_nReserved1 (PrintCtx k) = 1"
definition print_inspected :: "drv_kext \<Rightarrow> bool" where
  "print_inspected k \<longleftrightarrow> truthy (pp_bPolicy (PrintCtx k)) \<and> truthy (pp_bDisableWrite (PrintCtx k)) \<and>
     pp_nReserved1 (PrintCtx k) = -1"
definition upload_inspected :: "drv_kext \<Rightarrow> bool" where
  "upload_inspected k \<longleftrightarrow> truthy (up_bPolicy (UploadCtx k)) \<and> truthy (up_bDisableWrite (UploadCtx k)) \<and>
     up_nReserved1 (UploadCtx k) = -1"

lemmas question_defs = on_device_def write_blocked_def all_blocked_def copy_inspected_def
  write_allowed_def print_blocked_def print_inspected_def upload_inspected_def

lemma note_device_quiet: "quiet s (note_device d s)"
  by (cases s) (simp add: note_device_def quiet_def)

text \<open>A test of the device: noted, then finished.\<close>

lemma device_test:
  assumes "ready env s" and "5 \<le> length path"
  shows "\<exists>s'. (case device path (kx (snd s)) of
        Some d \<Rightarrow> if P d then finish_block env vtype path True logs (note_device d s) else Some (False, s)
      | None \<Rightarrow> Some (False, s)) =
     Some (on_device P path (kx (snd s)) \<and> \<not> exempt path (kx (snd s)), s') \<and> quiet s s' \<and>
     (on_device P path (kx (snd s)) \<longrightarrow>
        (\<exists>d. device path (kx (snd s)) = Some d \<and> lp_nPolicyType (fst s') = ulStorDevType d))"
proof (cases "device path (kx (snd s))")
  case None
  then show ?thesis by (intro exI [of _ s]) (simp add: on_device_def)
next
  case (Some d)
  let ?s = "note_device d s"
  have q: "quiet s ?s" by (rule note_device_quiet)
  have pt: "lp_nPolicyType (fst ?s) = ulStorDevType d" by (cases s) (simp add: note_device_def)
  obtain s' where s': "finish_block env vtype path True logs ?s = Some (\<not> exempt path (kx (snd ?s)), s')"
      "quiet ?s s'" "lp_nPolicyType (fst s') = lp_nPolicyType (fst ?s)"
    using finish_block_quiet [OF ready_quiet [OF assms(1) q] assms(2), of vtype True logs] by auto
  show ?thesis
  proof (cases "P d")
    case True
    then show ?thesis using s' quiet_trans [OF q s'(2)] quiet_kx [OF q] pt Some
      by (intro exI [of _ s']) (simp add: on_device_def)
  next
    case False
    then show ?thesis using Some by (intro exI [of _ s]) (simp add: on_device_def)
  qed
qed

lemma ready_device: "ready env s \<Longrightarrow> device_of path (kx (snd s)) = Some (device path (kx (snd s)))"
  by (intro device_of_eq) (simp add: ready_def)

lemma note_policy_quiet:
  assumes "ready env s"
  shows "\<exists>s'. note_policy env lg pt s = Some (True, s') \<and> quiet s s'"
proof (cases s)
  case (Pair lp a)
  let ?lp = "lp\<lparr>lp_bLog := ucast lg, lp_nPolicyType := pt\<rparr>"
  have q: "quiet s (?lp, a)" by (simp add: Pair quiet_def)
  obtain ok s' where "SmartDrv_LogAppend env VREG (?lp, a) = Some (ok, s')" "quiet (?lp, a) s'"
    using LogAppend_quiet [OF ready_quiet [OF assms q]] by blast
  then show ?thesis using q quiet_trans [OF q, of s']
    by (cases s') (auto simp: Pair note_policy_def Let_def)
qed

interpretation block_write: policy_test "\<lambda>env. IsPolicyExist_BlockWrite env VREG" write_blocked
proof
  fix env s path
  assume "ready env s" and "5 \<le> length (path :: string)"
  then show "\<exists>s'. IsPolicyExist_BlockWrite env VREG path s = Some (write_blocked path (kx (snd s)), s') \<and> quiet s s'"
    using device_test [of env s path blocks_write VREG False]
    by (auto simp: IsPolicyExist_BlockWrite_def ready_device write_blocked_def)
qed

interpretation block_all: policy_test "\<lambda>env. IsPolicyExist_BlockAll env VREG" all_blocked
proof
  fix env s path
  assume "ready env s" and "5 \<le> length (path :: string)"
  then show "\<exists>s'. IsPolicyExist_BlockAll env VREG path s = Some (all_blocked path (kx (snd s)), s') \<and> quiet s s'"
    using device_test [of env s path blocks_any VREG True]
    by (auto simp: IsPolicyExist_BlockAll_def ready_device all_blocked_def)
qed

interpretation copy_prevent: policy_test IsPolicyExist_CopyPrevent copy_inspected
proof
  fix env s path
  assume "ready env s" and "5 \<le> length (path :: string)"
  then show "\<exists>s'. IsPolicyExist_CopyPrevent env path s = Some (copy_inspected path (kx (snd s)), s') \<and> quiet s s'"
    using device_test [of env s path inspects_write VREG True]
    by (auto simp: IsPolicyExist_CopyPrevent_def ready_device copy_inspected_def)
qed

interpretation allow_write: policy_test "\<lambda>env. IsPolicyExist_AllowWrite env VREG" write_allowed
proof
  fix env s path
  assume r: "ready env s" and "5 \<le> length (path :: string)"
  show "\<exists>s'. IsPolicyExist_AllowWrite env VREG path s = Some (write_allowed path (kx (snd s)), s') \<and> quiet s s'"
  proof (cases "\<exists>d. device path (kx (snd s)) = Some d \<and> allows_rw d")
    case True
    then obtain d where d: "device path (kx (snd s)) = Some d" "allows_rw d" by blast
    obtain lp a where la: "note_device d s = (lp, a)" by (cases "note_device d s")
    have q: "quiet s (lp, a)" using note_device_quiet [of s d] by (simp add: la)
    have q': "quiet s (lp\<lparr>lp_bAllow := 1\<rparr>, a)" by (rule quiet_trans [OF q]) (simp add: quiet_def)
    obtain ok s' where "SmartDrv_LogAppend env VREG (lp\<lparr>lp_bAllow := 1\<rparr>, a) = Some (ok, s')"
        "quiet (lp\<lparr>lp_bAllow := 1\<rparr>, a) s'"
      using LogAppend_quiet [OF ready_quiet [OF r q']] by blast
    then show ?thesis using q quiet_trans [OF q', of s'] d r la
      by (cases s') (auto simp: IsPolicyExist_AllowWrite_def ready_device write_allowed_def on_device_def)
  next
    case False
    then have "IsPolicyExist_AllowWrite env VREG path s = Some (write_allowed path (kx (snd s)), s)"
      using r by (auto simp: IsPolicyExist_AllowWrite_def ready_device write_allowed_def on_device_def
          split: option.splits)
    then show ?thesis by (intro exI [of _ s]) simp
  qed
qed

interpretation print_block: policy_test "\<lambda>env _. IsPolicyExist_Print_BlockWrite env" "\<lambda>_. print_blocked"
  by standard (use note_policy_quiet in \<open>auto simp: IsPolicyExist_Print_BlockWrite_def Let_def print_blocked_def\<close>)

interpretation print_prevent: policy_test "\<lambda>env _. IsPolicyExist_PrintPrevent env" "\<lambda>_. print_inspected"
  by standard (use note_policy_quiet in \<open>auto simp: IsPolicyExist_PrintPrevent_def Let_def print_inspected_def\<close>)

interpretation upload_prevent: policy_test "\<lambda>env _. IsPolicyExist_UploadPrevent env" "\<lambda>_. upload_inspected"
  by standard (use note_policy_quiet in \<open>auto simp: IsPolicyExist_UploadPrevent_def Let_def upload_inspected_def\<close>)


interpretation copy_block: gated_test "\<lambda>env. IsPolicyExist_BlockWrite env VREG" write_blocked True
  by unfold_locales
interpretation no_print_block: gated_test "\<lambda>env _. IsPolicyExist_Print_BlockWrite env" "\<lambda>_. print_blocked" False
  by unfold_locales
interpretation copy_allow: gated_test "\<lambda>env. IsPolicyExist_AllowWrite env VREG" write_allowed True
  by unfold_locales

interpretation removal: either_test "\<lambda>env path. also_for True (IsPolicyExist_BlockWrite env VREG path)"
    "\<lambda>path k. write_blocked path k \<and> True"
    "\<lambda>env path. also_for False (IsPolicyExist_Print_BlockWrite env)" "\<lambda>path k. print_blocked k \<and> False"
  by unfold_locales

text \<open>The third test of a copy: print and upload tests run only when there is nothing to
  inspect; the policy type is then the device's.\<close>

definition inspection_test :: "kenv \<Rightarrow> string \<Rightarrow> lstate \<Rightarrow> (bool \<times> lstate) option" where
  "inspection_test env path = orelse (also_for True (IsPolicyExist_CopyPrevent env path))
     (orelse (also_for False (IsPolicyExist_PrintPrevent env)) (also_for False (IsPolicyExist_UploadPrevent env)))"

interpretation copy_insp: gated_test IsPolicyExist_CopyPrevent copy_inspected True
  by unfold_locales
interpretation no_print: gated_test "\<lambda>env _. IsPolicyExist_PrintPrevent env" "\<lambda>_. print_inspected" False
  by unfold_locales
interpretation no_upload: gated_test "\<lambda>env _. IsPolicyExist_UploadPrevent env" "\<lambda>_. upload_inspected" False
  by unfold_locales
interpretation no_other: either_test "\<lambda>env path. also_for False (IsPolicyExist_PrintPrevent env)"
    "\<lambda>path k. print_inspected k \<and> False"
    "\<lambda>env path. also_for False (IsPolicyExist_UploadPrevent env)" "\<lambda>path k. upload_inspected k \<and> False"
  by unfold_locales
interpretation inspection: either_test "\<lambda>env path. also_for True (IsPolicyExist_CopyPrevent env path)"
    "\<lambda>path k. copy_inspected path k \<and> True"
    "\<lambda>env path. orelse (also_for False (IsPolicyExist_PrintPrevent env)) (also_for False (IsPolicyExist_UploadPrevent env))"
    "\<lambda>path k. (print_inspected k \<and> False) \<or> (upload_inspected k \<and> False)"
  by unfold_locales

subsection \<open>The verdict on a copied file\<close>

datatype verdict = Keep | Remove | Inspect

definition copy_verdict :: "string \<Rightarrow> drv_kext \<Rightarrow> verdict" where
  "copy_verdict path k =
     (if write_blocked path k then Remove
      else if write_allowed path k then Keep
      else if copy_inspected path k then Inspect else Keep)"

text \<open>The question about a file under the policy type \<open>pt\<close>.\<close>

definition scan_action :: "string \<Rightarrow> u32 \<Rightarrow> drv_kext \<Rightarrow> u32" where
  "scan_action path pt k =
     (if pt = pp_nPolicyType (PrintCtx k) then ActionTypePrint
      else if pt = up_nPolicyType (UploadCtx k) then ActionTypeUpload
      else case VolCtx_Search_BusType path k of None \<Rightarrow> 0 | Some bus \<Rightarrow> bus)"

definition quarantine_name :: "kenv \<Rightarrow> string \<Rightarrow> u32 \<Rightarrow> drv_kext \<Rightarrow> string" where
  "quarantine_name env path pt k =
     (case QtFetchValidPath path MAX_FILE_LENGTH pt (czBuffer (Entry (QtCtx k) ! 0)) (k_now env) of
        None \<Rightarrow> [] | Some q \<Rightarrow> q)"

definition scan_event :: "kenv \<Rightarrow> u32 \<Rightarrow> string \<Rightarrow> u32 \<Rightarrow> drv_kext \<Rightarrow> event" where
  "scan_event env pid path pt k =
     FileScanEvent (scan_action path pt k) pid path (quarantine_name env path pt k)"

text \<open>The events for the file after a verdict, newest first; an inspection runs under some policy
  type, after some history.\<close>

inductive follows :: "kenv \<Rightarrow> drv_kext \<Rightarrow> u32 \<Rightarrow> string \<Rightarrow> verdict \<Rightarrow> bool \<Rightarrow> event list \<Rightarrow> bool"
  for env k pid path where
  keep: "follows env k pid path Keep False []"
| remove: "follows env k pid path Remove False [FileDeleteEvent path]"
| empty: "GetFileSize env path = 0 \<Longrightarrow> follows env k pid path Inspect False []"
| pass: "0 < GetFileSize env path \<Longrightarrow> k_ask env h (scan_event env pid path pt k) = Some r \<Longrightarrow>
    r \<noteq> RESULT_DENY \<Longrightarrow> follows env k pid path Inspect True [scan_event env pid path pt k]"
| deny: "0 < GetFileSize env path \<Longrightarrow> k_ask env h (scan_event env pid path pt k) = Some RESULT_DENY \<Longrightarrow>
    follows env k pid path Inspect False [FileDeleteEvent path, scan_event env pid path pt k]"
| unheard: "0 < GetFileSize env path \<Longrightarrow> k_ask env h (scan_event env pid path pt k) = None \<Longrightarrow>
    follows env k pid path Inspect False [FileDeleteEvent path, scan_event env pid path pt k]"

inductive_cases follows_KeepE: "follows env k pid path Keep ok es"
inductive_cases follows_RemoveE: "follows env k pid path Remove ok es"
inductive_cases follows_InspectE: "follows env k pid path Inspect ok es"

lemma FileDelete_eq:
  assumes "k_mem env" and "length path < MAX_FILE_LENGTH"
  shows "\<exists>b. UserModeTo_FileDelete env path a = Some (b, a\<lparr>sent := FileDeleteEvent path # sent a\<rparr>)"
  using assms
  by (auto simp: UserModeTo_FileDelete_def MyMAlloc_def SIZEOF_COMMAND_MESSAGE_def
      SIZEOF_SCANNER_NOTIFICATION_def strncpy0_def UserModeTo_SendCommand_def split: option.split)

lemma FileScan_eq:
  assumes "k_mem env" and "length path < MAX_FILE_LENGTH" and "wf_kext (kx a)" and "search_paths_ok (kx a)"
  shows "UserModeTo_FileScan env pid path pt a =
     Some ((case k_ask env (sent a) (scan_event env pid path pt (kx a)) of None \<Rightarrow> False | Some r \<Rightarrow> r \<noteq> RESULT_DENY),
           a\<lparr>sent := scan_event env pid path pt (kx a) # sent a\<rparr>)"
proof -
  obtain bus where bus: "VolCtx_Search_BusType path (kx a) = Some bus"
    using VolCtx_Search_BusType_eq [OF assms(3,4)] by blast
  have e: "rd_at (Entry (QtCtx (kx a))) 0 = Some (Entry (QtCtx (kx a)) ! 0)"
    using assms(3) by (intro rd_at_Some) (simp add: wf_defs)
  have p: "strncpy0 MAX_FILE_LENGTH path (length path + 1) = Some path"
    using assms(2) by (rule strncpy0_fits)
  have m: "MyMAlloc env (SIZEOF_COMMAND_MESSAGE + SIZEOF_SCANNER_NOTIFICATION)"
    using assms(1) by (simp add: MyMAlloc_def SIZEOF_COMMAND_MESSAGE_def SIZEOF_SCANNER_NOTIFICATION_def)
  have "UserModeTo_FileScan env pid path pt a =
     (case (k_ask env (sent a) (scan_event env pid path pt (kx a)),
            a\<lparr>sent := scan_event env pid path pt (kx a) # sent a\<rparr>) of
        (None, a') \<Rightarrow> Some (False, a') | (Some r, a') \<Rightarrow> Some (r \<noteq> RESULT_DENY, a'))"
    using m bus by (simp only: UserModeTo_FileScan_def e p Let_def UserModeTo_SendCommand_def bind.bind_lunit
        not_True_eq_False if_False scan_event_def scan_action_def quarantine_name_def option.case)
  then show ?thesis by (simp split: option.split)
qed

lemma file_events_send [simp]:
  "file_events (a\<lparr>sent := FileDeleteEvent p # es\<rparr>) = FileDeleteEvent p # file_events (a\<lparr>sent := es\<rparr>)"
  "file_events (a\<lparr>sent := FileScanEvent x y p q # es\<rparr>) = FileScanEvent x y p q # file_events (a\<lparr>sent := es\<rparr>)"
  "file_events (a\<lparr>sent := scan_event env pid p pt k # es\<rparr>) = scan_event env pid p pt k # file_events (a\<lparr>sent := es\<rparr>)"
  "file_events (a\<lparr>sent := sent a\<rparr>) = file_events a"
  by (simp_all add: file_events_def scan_event_def)

lemma sent_frame [simp]: "kx (a\<lparr>sent := es\<rparr>) = kx a" "unstamped (a\<lparr>sent := es\<rparr>) = unstamped a"
  by (simp_all add: unstamped_def)

lemma CtrlCheck_copy:
  assumes "ready env s" and "5 \<le> length path" and "length path < MAX_FILE_LENGTH"
    and "search_paths_ok (kx (snd s))"
  shows "\<exists>ok s' es. CtrlCheck_Contents env pid path POLICY_COPY s = Some (ok, s') \<and>
     kx (snd s') = kx (snd s) \<and> unstamped (snd s') \<and> file_events (snd s') = es @ file_events (snd s) \<and>
     follows env (kx (snd s)) pid path (copy_verdict path (kx (snd s))) ok es"
proof -
  let ?k = "kx (snd s)"
  have mem: "k_mem env" using assms(1) by (simp add: ready_def)
  obtain s1 where 1: "orelse (also_for True (IsPolicyExist_BlockWrite env VREG path))
        (also_for False (IsPolicyExist_Print_BlockWrite env)) s = Some (write_blocked path ?k, s1)"
      "quiet s s1" "ready env s1" "kx (snd s1) = ?k"
    using removal.either.run_cases [OF assms(1,2)] by auto
  obtain s2 where 2: "also_for True (IsPolicyExist_AllowWrite env VREG path) s1 = Some (write_allowed path ?k, s2)"
      "quiet s1 s2" "ready env s2" "kx (snd s2) = ?k"
    using copy_allow.gate.run_cases [OF 1(3) assms(2)] 1(4) by auto
  obtain s3 where 3: "inspection_test env path s2 = Some (copy_inspected path ?k, s3)"
      "quiet s2 s3" "ready env s3" "kx (snd s3) = ?k"
    using inspection.either.run_cases [OF 2(3) assms(2)] 2(4) by (auto simp: inspection_test_def)
  have q2: "quiet s s2" and q3: "quiet s s3"
    using 1(2) 2(2) 3(2) by (auto intro: quiet_trans)
  have fe: "file_events (snd s1) = file_events (snd s)" "file_events (snd s2) = file_events (snd s)"
      "file_events (snd s3) = file_events (snd s)"
    using 1(2) q2 q3 by (simp_all add: quiet_def)
  have u: "unstamped (snd s1)" "unstamped (snd s2)" "unstamped (snd s3)"
    using 1(3) 2(3) 3(3) by (simp_all add: ready_def)
  obtain b1 where del1: "UserModeTo_FileDelete env path (snd s1) =
      Some (b1, (snd s1)\<lparr>sent := FileDeleteEvent path # sent (snd s1)\<rparr>)"
    using FileDelete_eq [OF mem assms(3)] by blast
  let ?ev = "scan_event env pid path (lp_nPolicyType (fst s3)) ?k"
  have scan: "UserModeTo_FileScan env pid path (lp_nPolicyType (fst s3)) (snd s3) =
     Some ((case k_ask env (sent (snd s3)) ?ev of None \<Rightarrow> False | Some r \<Rightarrow> r \<noteq> RESULT_DENY),
           (snd s3)\<lparr>sent := ?ev # sent (snd s3)\<rparr>)"
    using FileScan_eq [OF mem assms(3), of "snd s3" pid "lp_nPolicyType (fst s3)"] 3(3,4) assms(4)
    by (auto simp: ready_def)
  let ?a = "(snd s3)\<lparr>sent := ?ev # sent (snd s3)\<rparr>"
  obtain b2 where del2: "UserModeTo_FileDelete env path ?a = Some (b2, ?a\<lparr>sent := FileDeleteEvent path # sent ?a\<rparr>)"
    using FileDelete_eq [OF mem assms(3)] by blast
  note C = CtrlCheck_Contents_def Let_def
  consider (block) "write_blocked path ?k" | (allow) "\<not> write_blocked path ?k" "write_allowed path ?k"
    | (none) "\<not> write_blocked path ?k" "\<not> write_allowed path ?k" "\<not> copy_inspected path ?k"
    | (empty) "\<not> write_blocked path ?k" "\<not> write_allowed path ?k" "copy_inspected path ?k"
        "GetFileSize env path = 0"
    | (insp) "\<not> write_blocked path ?k" "\<not> write_allowed path ?k" "copy_inspected path ?k"
        "0 < GetFileSize env path"
    by (auto simp: word_gt_0)
  then show ?thesis
  proof cases
    case block
    then have "CtrlCheck_Contents env pid path POLICY_COPY s =
        Some (False, fst s1, (snd s1)\<lparr>sent := FileDeleteEvent path # sent (snd s1)\<rparr>)"
      using 1(1) del1 by (simp add: C)
    then show ?thesis using block fe u 1(4) by (auto simp: copy_verdict_def intro!: follows.remove)
  next
    case allow
    then have "CtrlCheck_Contents env pid path POLICY_COPY s = Some (False, s2)"
      using 1(1) 2(1) by (simp add: C)
    then show ?thesis using allow fe u 2(4) by (auto simp: copy_verdict_def intro!: follows.keep)
  next
    case none
    then have "CtrlCheck_Contents env pid path POLICY_COPY s = Some (False, s3)"
      using 1(1) 2(1) 3(1) by (simp add: C inspection_test_def)
    then show ?thesis using none fe u 3(4) by (auto simp: copy_verdict_def intro!: follows.keep)
  next
    case empty
    then have "CtrlCheck_Contents env pid path POLICY_COPY s = Some (False, s3)"
      using 1(1) 2(1) 3(1) by (simp add: C inspection_test_def)
    then show ?thesis using empty fe u 3(4) by (auto simp: copy_verdict_def intro!: follows.empty)
  next
    case insp
    let ?ans = "k_ask env (sent (snd s3)) ?ev"
    let ?ok = "(case ?ans of None \<Rightarrow> False | Some r \<Rightarrow> r \<noteq> RESULT_DENY)"
    have run: "CtrlCheck_Contents env pid path POLICY_COPY s =
        Some (?ok, fst s3, if ?ok then ?a else ?a\<lparr>sent := FileDeleteEvent path # sent ?a\<rparr>)"
      using 1(1) 2(1) 3(1) insp scan del2 by (simp add: C inspection_test_def)
    have v: "copy_verdict path ?k = Inspect" using insp by (simp add: copy_verdict_def)
    show ?thesis
    proof (cases ?ok)
      case True
      then obtain r where "?ans = Some r" "r \<noteq> RESULT_DENY" by (auto split: option.splits)
      then show ?thesis using run v True fe u 3(4) follows.pass [OF insp(4)] by auto
    next
      case False
      then have "?ans = None \<or> ?ans = Some RESULT_DENY" by (auto split: option.splits)
      then have "follows env ?k pid path Inspect False [FileDeleteEvent path, ?ev]"
        using follows.unheard [OF insp(4)] follows.deny [OF insp(4)] by blast
      then show ?thesis using run v False fe u 3(4) by auto
    qed
  qed
qed

subsection \<open>Properties\<close>

text \<open>A process is exempt exactly when it is the agent, the supervisor or the agent program
  by name, has a permitted name (of equal length, ignoring case), a permitted id, or is a
  registered service while self protection is on.\<close>

theorem allowed_process_exact:
  assumes "wf_kext k"
  shows "IsAllowedProcessId pid proc k = Some (allowed_process pid proc k)"
  by (rule IsAllowedProcessId_eq [OF assms])

lemma allowed_process_exact_witness:
  "IsAllowedProcessId 5 ''PISupervisor'' kext_boot = Some True"
  using allowed_process_exact [OF wf_kext_boot, of 5 "''PISupervisor''"]
  by (simp add: allowed_process_def strncaseeq_def tolower_c_def)

text \<open>C31: All policy tests look at the same entry for a path: the first of the control table
  whose device path is the path itself or a directory above it, so that \<open>/mnt/usb\<close> does not
  speak for \<open>/mnt/usb2\<close>.\<close>

theorem device_of_path:
  assumes "wf_kext k"
  shows "device_of path k = Some (List.find (\<lambda>d. path = DeviceNames (cDevice d) \<or>
     prefix (DeviceNames (cDevice d) @ ''/'') path) (controls k))"
  using device_of_eq [OF assms] by (simp add: device_def lies_in_def)

lemma device_of_path_witness:
  "device_of ''/mnt/usb2/a'' (push_ctrl kext_boot (Some (with_name ''/mnt/usb'' zero_device_ex))) = Some None"
proof -
  let ?e = "Some (with_name ''/mnt/usb'' zero_device_ex)"
  have n: "unat (nDeviceCount kext_boot) < MAX_DEVICE" "controls kext_boot = []"
    by (simp_all add: kext_boot_def controls_def)
  have "controls (push_ctrl kext_boot ?e) = [with_name ''/mnt/usb'' zero_device_ex]"
    using controls_push_ctrl [of kext_boot ?e] n wf_kext_boot by (simp add: wf_kext_def)
  then show ?thesis
    using device_of_path [OF wf_push_ctrl [OF wf_kext_boot n(1)], of "''/mnt/usb2/a''" ?e]
    by (simp add: with_name_def)
qed

lemma logs_never_suppressed_witness:
  "\<exists>ok lp' a' r. SmartDrv_LogAppend quiet_env VDIR (zero_param\<lparr>lp_pczPath1 := Some ''/m/d''\<rparr>, blank_agent) =
     Some (ok, lp', a') \<and> sent a' = [LogEvent r]"
proof -
  let ?lp = "zero_param\<lparr>lp_pczPath1 := Some ''/m/d''\<rparr>"
  have u: "unstamped blank_agent" by (simp add: unstamped_def blank_agent_def zero_check_def)
  have b: "\<not> IsLogByPassProcess ?lp" by (simp add: IsLogByPassProcess_def zero_param_def)
  have m: "k_mem quiet_env" by (simp add: quiet_env_def)
  have "ready quiet_env (?lp, blank_agent)"
    using u m by (simp add: ready_def short_names_def zero_param_def blank_agent_def wf_kext_boot)
  then obtain ok lp' a' where "SmartDrv_LogAppend quiet_env VDIR (?lp, blank_agent) = Some (ok, lp', a')"
    using LogAppend_quiet by fastforce
  moreover have "sent blank_agent = []" by (simp add: blank_agent_def)
  ultimately show ?thesis using logs_never_suppressed [OF u b m] by metis
qed

end
