(* ===== verification/Agent.thy ===== *)
theory Agent
  imports KauthListener KextLife
begin

text \<open>
  The agent as a whole: the messages, mount changes and file events it handles, one after the
  other under its locks, as a step relation over its state; what holds in every state it
  reaches from \<open>DrvKext_Init\<close>.
\<close>

subsection \<open>Inputs\<close>

datatype input =
    Message command_message
  | MountsChanged "(string \<times> string) list" "string \<Rightarrow> (bool \<times> bool) option list option"
  | FileClosed u32 string string

definition agent_FetchVolumes :: "kenv \<Rightarrow> (string \<times> string) list \<Rightarrow>
    (string \<Rightarrow> (bool \<times> bool) option list option) \<Rightarrow> agent \<Rightarrow> agent option" where
  "agent_FetchVolumes env ms udev a =
     map_option (\<lambda>w. with_world w a) (FetchVolumes (k_mark env) udev (Some ms) (vol_world.truncate a))"

fun handle :: "kenv \<Rightarrow> input \<Rightarrow> agent \<Rightarrow> agent option" where
  "handle env (Message m) a =
     map_option (\<lambda>(r, k). a\<lparr>kx := k\<rparr>) (SmartCmd_Parser_CM (k_mem env) (Some m) (kx a))"
| "handle env (MountsChanged ms udev) a = agent_FetchVolumes env ms udev a"
| "handle env (FileClosed pid path prog) a =
     map_option snd (event_process env pid FAN_CLOSE_WRITE (Some path) prog a)"

text \<open>What the code relies on: messages that fit the tables, mounts with names that fit and room
  for their entries, paths of ordinary length.\<close>

fun input_ok :: "input \<Rightarrow> agent \<Rightarrow> bool" where
  "input_ok (Message m) a \<longleftrightarrow> msg_ok m"
| "input_ok (MountsChanged ms udev) a \<longleftrightarrow>
     mounts_ok (wanted_mounts ms) \<and> (\<forall>(f, d) \<in> set (wanted_mounts ms). length d + 1 < MAX_BASE_SIZE) \<and>
     length (controls (kx a)) + length (wanted_mounts ms) \<le> MAX_DEVICE"
| "input_ok (FileClosed pid path prog) a \<longleftrightarrow>
     5 \<le> length path \<and> length path < LOG_FILE_LEN \<and> length (base_name prog) < LOG_PROC_LEN"

inductive agent_step :: "kenv \<Rightarrow> agent \<Rightarrow> agent \<Rightarrow> bool" for env where
  "input_ok i a \<Longrightarrow> handle env i a = Some a' \<Longrightarrow> agent_step env a a'"

inductive_cases agent_stepE: "agent_step env a a'"

inductive reachable :: "kenv \<Rightarrow> agent \<Rightarrow> bool" for env where
  boot: "kx a = kext_boot \<Longrightarrow> checks a = replicate MAX_CHECK zero_check \<Longrightarrow> reachable env a"
| step: "reachable env a \<Longrightarrow> agent_step env a a' \<Longrightarrow> reachable env a'"

subsection \<open>The invariant\<close>

text \<open>Tables within their bounds, and every volume's due entry in the control table.\<close>

definition agent_inv :: "agent \<Rightarrow> bool" where
  "agent_inv a \<longleftrightarrow> wf_kext (kx a) \<and> unstamped a \<and> search_paths_ok (kx a) \<and>
     set (entries (kx a)) \<subseteq> set (controls (kx a))"

lemma search_base: "search_paths_ok k \<Longrightarrow> base_paths_ok k"
  by (auto simp: search_paths_ok_def base_paths_ok_def)

lemma entries_cong: "VolCtx k' = VolCtx k \<Longrightarrow> DrvCtx k' = DrvCtx k \<Longrightarrow> entries k' = entries k"
  using table_cong(3) [of k' k] by (simp add: entries_def volumes_def)

lemma with_world_truncate [simp]: "with_world (vol_world.truncate a) a = a"
  by (simp add: with_world_def vol_world.defs)

lemma kx_truncate [simp]: "kx (vol_world.truncate a) = kx a"
  by (simp add: vol_world.defs)

lemma IsControlDeviceType_world:
  "IsControlDeviceType spool path mark w = Some (b, w') \<Longrightarrow> w' = w"
  by (auto simp: IsControlDeviceType_def IsMediaPath_UsbStor_def IsMediaPath_CDStor_def
      IsMediaPath_SFolder_def bind_eq_Some_conv split: if_splits)

lemma GetMountPath_total: "length path < cap \<Longrightarrow> GetMountPath cap path \<noteq> None"
  by (auto simp: GetMountPath_def strncpy0_def slash_at_def dest: strpos_bound
      split: option.split)

definition mount_dir :: "string \<Rightarrow> string" where
  "mount_dir path = the (GetMountPath MAX_PATH path)"

definition controlled :: "string \<Rightarrow> string \<Rightarrow> drv_kext \<Rightarrow> bool" where
  "controlled spool path k \<longleftrightarrow> IsCupsDirectory spool path \<or>
     control_bus (bus_of (List.find (\<lambda>v. covers (czBasePath v) (mount_dir path)) (volumes k)))"

lemma IsControlDeviceType_eq:
  assumes "length path < MAX_PATH" and "wf_kext (kx w)" and "search_paths_ok (kx w)"
  shows "IsControlDeviceType spool path mark w = Some (controlled spool path (kx w), w)"
proof -
  have m: "GetMountPath MAX_PATH path = Some (mount_dir path)"
    using GetMountPath_total [OF assms(1)] by (auto simp: mount_dir_def)
  show ?thesis
    unfolding IsControlDeviceType_def m bind.bind_lunit VolCtx_Search_BusType_eq [OF assms(2,3)]
    by (simp add: controlled_def IsVolumesDirectory_def IsMediaPath_UsbStor_def
        IsMediaPath_CDStor_def IsMediaPath_SFolder_def)
qed

lemma agent_IsControlDeviceType_eq:
  assumes "length path < MAX_PATH" and "wf_kext (kx a)" and "search_paths_ok (kx a)"
  shows "agent_IsControlDeviceType env path a = Some (controlled (czCupsSpoolPath a) path (kx a), a)"
  using IsControlDeviceType_eq [of path "vol_world.truncate a"] assms
  by (simp add: agent_IsControlDeviceType_def)

lemma print_paths_frame [simp]:
  "kx (print_paths proc path a) = kx a" "checks (print_paths proc path a) = checks a"
  "sent (print_paths proc path a) = sent a" "file_events (print_paths proc path a) = file_events a"
  "unstamped (print_paths proc path a) = unstamped a"
  by (simp_all add: print_paths_def Let_def file_events_def unstamped_def)

text \<open>The verdict on a closed file, and the events sent for it.\<close>

definition close_verdict :: "string \<Rightarrow> string \<Rightarrow> agent \<Rightarrow> verdict" where
  "close_verdict proc path a =
     (if controlled (czCupsSpoolPath (print_paths proc path a)) path (kx a)
      then copy_verdict path (kx a) else Keep)"

lemma FileClose_verdict:
  assumes "agent_inv a" and "k_mem env" and "5 \<le> length path" and "length path < LOG_FILE_LEN"
    and "lp_pczProcName lp = Some proc" and "length proc < LOG_PROC_LEN"
  shows "\<exists>ok lp' a' es. Kauth_FileOp_FileClose env pid proc path KAUTH_FILEOP_CLOSE_MODIFIED (lp, a) =
       Some (ok, lp', a') \<and> kx a' = kx a \<and> unstamped a' \<and> file_events a' = es @ file_events a \<and>
     follows env (kx a) pid path (close_verdict proc path a) ok es"
proof -
  let ?a = "print_paths proc path a"
  let ?lp = "lp\<lparr>lp_nAction := ACTION_CLOSE, lp_pczPath1 := Some path\<rparr>"
  have inv: "wf_kext (kx ?a)" "search_paths_ok (kx ?a)" "unstamped ?a" "length path < MAX_PATH"
    using assms(1,4) by (simp_all add: agent_inv_def MAX_PATH_def)
  have ctl: "agent_IsControlDeviceType env path ?a = Some (controlled (czCupsSpoolPath ?a) path (kx a), ?a)"
    using agent_IsControlDeviceType_eq [OF inv(4,1,2), of env] by simp
  have f: "and KAUTH_FILEOP_CLOSE_MODIFIED KAUTH_FILEOP_CLOSE_MODIFIED \<noteq> 0"
    by (simp add: KAUTH_FILEOP_CLOSE_MODIFIED_def)
  show ?thesis
  proof (cases "controlled (czCupsSpoolPath ?a) path (kx a)")
    case True
    have "ready env (?lp, ?a)" using assms inv by (simp add: ready_def short_names_def)
    then obtain ok s' es where "CtrlCheck_Contents env pid path POLICY_COPY (?lp, ?a) = Some (ok, s')"
        "kx (snd s') = kx a" "unstamped (snd s')" "file_events (snd s') = es @ file_events a"
        "follows env (kx a) pid path (copy_verdict path (kx a)) ok es"
      using CtrlCheck_copy [of env "(?lp, ?a)" path pid] assms(3,4) inv(2) by auto
    then show ?thesis using True f ctl
      by (cases s') (auto simp: Kauth_FileOp_FileClose_def Let_def close_verdict_def)
  next
    case False
    then show ?thesis using f ctl inv(3)
      by (auto simp: Kauth_FileOp_FileClose_def Let_def close_verdict_def intro: follows.keep)
  qed
qed

lemma event_process_verdict:
  assumes "agent_inv a" and "k_mem env" and "5 \<le> length path" and "length path < LOG_FILE_LEN"
    and "length (base_name prog) < LOG_PROC_LEN"
  shows "\<exists>ok a' es. event_process env pid FAN_CLOSE_WRITE (Some path) prog a = Some (FAN_ALLOW, a') \<and>
     kx a' = kx a \<and> unstamped a' \<and> file_events a' = es @ file_events a \<and>
     follows env (kx a) pid path (close_verdict (base_name prog) path a) ok es"
proof -
  let ?lp = "zero_param\<lparr>lp_nProcessId := pid, lp_pczProcName := Some (base_name prog),
     lp_nAction := KAUTH_FILEOP_CLOSE, lp_nLogType := 1\<rparr>"
  have m: "and FAN_CLOSE_WRITE FAN_CLOSE_WRITE \<noteq> 0" by (simp add: FAN_CLOSE_WRITE_def)
  obtain ok lp' a' es where "Kauth_FileOp_FileClose env pid (base_name prog) path
        KAUTH_FILEOP_CLOSE_MODIFIED (?lp, a) = Some (ok, lp', a')"
      "kx a' = kx a" "unstamped a'" "file_events a' = es @ file_events a"
      "follows env (kx a) pid path (close_verdict (base_name prog) path a) ok es"
    using FileClose_verdict [OF assms(1-4) _ assms(5), where pid = pid and lp = ?lp] by fastforce
  then show ?thesis using m by (auto simp: event_process_def Let_def)
qed

subsection \<open>Every input keeps the invariant\<close>

lemma FetchVolumes_inv:
  assumes "agent_inv a" and "input_ok (MountsChanged ms udev) a"
  shows "\<exists>a'. agent_FetchVolumes env ms udev a = Some a' \<and> agent_inv a' \<and>
     volumes (kx a') = map (mount_volume udev) (wanted_mounts ms) \<and>
     controls (kx a') = controls (kx a) @ entries (kx a') \<and> DrvCtx (kx a') = DrvCtx (kx a)"
proof -
  let ?w = "vol_world.truncate a"
  obtain w' where w': "FetchVolumes (k_mark env) udev (Some ms) ?w = Some w'" "wf_kext (kx w')"
      "volumes (kx w') = map (mount_volume udev) (wanted_mounts ms)"
      "controls (kx w') = controls (kx a) @
         concat (map (\<lambda>m. opt_list (ctrl_entry (kx a) (mount_volume udev m))) (wanted_mounts ms))"
      "DrvCtx (kx w') = DrvCtx (kx a)"
    using FetchVolumes_eq [of ?w ms "k_mark env" udev] assms by (auto simp: agent_inv_def)
  have "entries (kx w') = concat (map (\<lambda>m. opt_list (ctrl_entry (kx a) (mount_volume udev m))) (wanted_mounts ms))"
    using table_cong(3) [OF w'(5)] by (simp add: entries_def w'(3) comp_def)
  then have c: "controls (kx w') = controls (kx a) @ entries (kx w')" using w'(4) by simp
  have "search_paths_ok (kx w')"
    using assms(2) by (auto simp: search_paths_ok_def w'(3) mount_volume_def new_volume_def)
  then have "agent_inv (with_world w' a)"
    using assms(1) w'(2) c by (auto simp: agent_inv_def with_world_def unstamped_def)
  then show ?thesis using w' c by (auto simp: agent_FetchVolumes_def with_world_def)
qed

lemma handle_inv:
  assumes "agent_inv a" and "input_ok i a" and "k_mem env"
  shows "\<exists>a'. handle env i a = Some a' \<and> agent_inv a'"
proof (cases i)
  case (Message m)
  have "base_paths_ok (kx a)" using assms(1) by (intro search_base) (simp add: agent_inv_def)
  then obtain r k' where k': "SmartCmd_Parser_CM (k_mem env) (Some m) (kx a) = Some (r, k')"
      "frame_ok (kx a) k'"
    using Parser_ok [of "kx a" m "k_mem env"] assms Message by (auto simp: agent_inv_def)
  then have v: "volumes k' = volumes (kx a)" by (simp add: frame_ok_def volumes_def)
  have "set (entries k') \<subseteq> set (controls k')"
    using k'(2) assms(1) entries_cong [of k' "kx a"] by (auto simp: frame_ok_def agent_inv_def)
  then show ?thesis using k' assms(1) v Message
    by (auto simp: agent_inv_def frame_ok_def search_paths_ok_def unstamped_def)
next
  case (MountsChanged ms udev)
  then show ?thesis using FetchVolumes_inv [of a ms udev env] assms by auto
next
  case (FileClosed pid path prog)
  then show ?thesis using event_process_verdict [OF assms(1,3), of path prog pid] assms(1,2)
    by (auto simp: agent_inv_def)
qed

lemma agent_inv_boot:
  assumes "kx a = kext_boot" and "checks a = replicate MAX_CHECK zero_check"
  shows "agent_inv a"
proof -
  have "volumes kext_boot = []" by (simp add: volumes_def kext_boot_def)
  then show ?thesis
    using assms wf_kext_boot
    by (simp add: agent_inv_def unstamped_def zero_check_def search_paths_ok_def entries_def)
qed

lemma reachable_inv: "reachable env a \<Longrightarrow> k_mem env \<Longrightarrow> agent_inv a"
proof (induction rule: reachable.induct)
  case (boot a)
  then show ?case by (intro agent_inv_boot)
next
  case (step a a')
  from step.hyps(2) obtain i where "input_ok i a" "handle env i a = Some a'" by (rule agent_stepE)
  then show ?case using handle_inv [of a i env] step.IH step.prems by auto
qed

subsection \<open>Properties\<close>

text \<open>C8: In every state the agent reaches from its initialisation by messages, mount changes
  and file events of the stated sizes, the next such input is handled without an access outside
  an array or a buffer, and afterwards all tables are within their bounds and the control table
  still holds the due entry of every mounted volume.\<close>

theorem agent_always_safe:
  assumes "reachable env a" and "k_mem env" and "input_ok i a"
  shows "\<exists>a'. handle env i a = Some a' \<and> wf_kext (kx a') \<and> set (entries (kx a')) \<subseteq> set (controls (kx a'))"
  using handle_inv [OF reachable_inv [OF assms(1,2)] assms(3,2)] by (auto simp: agent_inv_def)

definition env0 :: kenv where
  "env0 = \<lparr>k_ask = (\<lambda>_ _. Some 1), k_stat = (\<lambda>_. Some 10), k_now = 0, k_mem = True, k_mark = (\<lambda>_. True)\<rparr>"

definition agent0 :: agent where
  "agent0 = \<lparr>kx = kext_boot, monitors = [], mark_reqs = [], checks = replicate MAX_CHECK zero_check,
     czCupsSpoolPath = [], czCupsSpoolPathDump = [], czCupsTempPath = [], sent = []\<rparr>"

lemma reachable_agent0: "reachable env agent0"
  by (rule reachable.boot) (simp_all add: agent0_def)

lemma k_mem_env0: "k_mem env0"
  by (simp add: env0_def)

lemma agent_always_safe_witness:
  "\<exists>a'. handle env0 (FileClosed 7 ''/mnt/usb/a.doc'' ''/bin/cp'') agent0 = Some a' \<and> wf_kext (kx a') \<and>
     set (entries (kx a')) \<subseteq> set (controls (kx a'))"
  by (rule agent_always_safe [OF reachable_agent0 k_mem_env0])
     (simp add: base_name_def sms_strrchr_def)

text \<open>A USB drive mounted on \<open>/mnt/usb\<close>, then one drive policy, for instance one that blocks USB drives,
  then an empty list of exempt folders.\<close>

definition usb_policy :: attached_device_ex where
  "usb_policy = \<lparr>cDevice = \<lparr>bLoggingOn = 0, bDisableAll = 1, bDisableRead = 0, bDisableWrite = 0,
     nReserved1 = 0, DeviceNames = []\<rparr>, ulStorDevType = 8\<rparr>"

definition drive_message :: "attached_device_ex \<Rightarrow> command_message" where
  "drive_message d = \<lparr>Size = 304, Command = cmd_SetDrivePolicy, Data = DevicesEx [d]\<rparr>"

definition folder_message :: command_message where
  "folder_message = \<lparr>Size = 8, Command = cmd_SetPermitFolderName, Data = Names []\<rparr>"

definition usb_mounts :: "(string \<times> string) list" where
  "usb_mounts = [(''/dev/sdb1'', ''/mnt/usb'')]"

definition usb_udev :: "string \<Rightarrow> (bool \<times> bool) option list option" where
  "usb_udev f = Some [Some (False, True)]"

definition usb_volume :: volume_device where
  "usb_volume = new_volume ''/dev/sdb1'' ''/mnt/usb'' BusTypeUsb"

lemma usb_wanted: "wanted_mounts usb_mounts = usb_mounts"
  by (simp add: wanted_mounts_def usb_mounts_def mount_wanted_def)

lemma usb_reached_by:
  assumes "k_mem env"
  shows "\<exists>a. reachable env a \<and> volumes (kx a) = [usb_volume] \<and> policies (kx a) = [d] \<and>
     excepts (kx a) = [] \<and> controls (kx a) = entries (kx a) \<and>
     nAllowFolder (kx a) = 0"
proof -
  have inv0: "agent_inv agent0" using reachable_inv [OF reachable_agent0 assms] .
  have ctrl0: "controls (kx agent0) = []" by (simp add: agent0_def controls_def kext_boot_def)
  have ok1: "input_ok (MountsChanged usb_mounts usb_udev) agent0"
    by (simp add: usb_wanted ctrl0) (simp add: usb_mounts_def mounts_ok_def)
  obtain a1 where a1: "agent_FetchVolumes env usb_mounts usb_udev agent0 = Some a1" "agent_inv a1"
      "volumes (kx a1) = map (mount_volume usb_udev) (wanted_mounts usb_mounts)"
      "DrvCtx (kx a1) = DrvCtx (kx agent0)"
    using FetchVolumes_inv [OF inv0 ok1, of env] by blast
  have r1: "reachable env a1"
    by (rule reachable.step [OF reachable_agent0])
       (rule agent_step.intros [OF ok1], simp add: a1(1))
  have v1: "volumes (kx a1) = [usb_volume]"
    unfolding a1(3) usb_wanted
    by (simp add: usb_mounts_def mount_volume_def usb_volume_def usb_udev_def get_storage_type_def
        bus_defs)
  have ok2: "input_ok (Message (drive_message d)) a1"
    by (simp add: msg_ok_def drive_message_def sized_def sizeof_defs)
  have bp: "base_paths_ok (kx a1)" "wf_kext (kx a1)"
    using a1(2) by (auto simp: agent_inv_def intro: search_base)
  have dat: "Data (drive_message d) = DevicesEx [d]"
      "sized (drive_message d) (length [d]) SIZEOF_ATTACHED_DEVICE_EX"
    by (simp_all add: drive_message_def sized_def sizeof_defs)
  obtain k2 where k2: "SmartCmd_SetDrivePolicy (Some (drive_message d)) (kx a1) = Some (0, k2)" "wf_kext k2"
      "policies k2 = [d]" "excepts k2 = excepts (kx a1)" "VolCtx k2 = VolCtx (kx a1)"
      "controls k2 = entries k2"
    using SetDrivePolicy_ok [OF bp(2,1) dat(1) _ dat(2)] by auto
  have h2: "handle env (Message (drive_message d)) a1 = Some (a1\<lparr>kx := k2\<rparr>)"
    using k2(1) by (simp add: SmartCmd_Parser_CM_def drive_message_def)
  have r2: "reachable env (a1\<lparr>kx := k2\<rparr>)"
    by (rule reachable.step [OF r1]) (rule agent_step.intros [OF ok2 h2])
  have "excepts (kx a1) = []"
    using a1(4) by (simp add: excepts_def agent0_def kext_boot_def)
  moreover have "volumes k2 = [usb_volume]" using v1 k2(5) by (simp add: volumes_def)
  moreover have "DrvCtx (k2\<lparr>nAllowFolder := n, AllowFolder := t\<rparr>) = DrvCtx k2" for n t by simp
  moreover have "SmartCmd_SetPermitFolderName (Some folder_message) k2 =
      Some (0, k2\<lparr>nAllowFolder := 0, AllowFolder := names_table MAX_ALLOW_FOLDERNAME []\<rparr>)"
    by (subst SetPermitFolderName_eq [of _ "[]"]) (simp_all add: folder_message_def sized_def)
  then have "handle env (Message folder_message) (a1\<lparr>kx := k2\<rparr>) =
      Some (a1\<lparr>kx := k2\<lparr>nAllowFolder := 0, AllowFolder := names_table MAX_ALLOW_FOLDERNAME []\<rparr>\<rparr>)"
    by (simp add: SmartCmd_Parser_CM_def folder_message_def cmd_defs)
  moreover have "input_ok (Message folder_message) (a1\<lparr>kx := k2\<rparr>)"
    by (simp add: msg_ok_def folder_message_def sized_def)
  ultimately have "reachable env
      (a1\<lparr>kx := k2\<lparr>nAllowFolder := 0, AllowFolder := names_table MAX_ALLOW_FOLDERNAME []\<rparr>\<rparr>)"
    using reachable.step [OF r2] agent_step.intros by blast
  moreover have "entries (k2\<lparr>nAllowFolder := n, AllowFolder := t\<rparr>) = entries k2" for n t
    by (rule entries_cong) simp_all
  moreover have "volumes (k2\<lparr>nAllowFolder := n, AllowFolder := t\<rparr>) = volumes k2"
      "controls (k2\<lparr>nAllowFolder := n, AllowFolder := t\<rparr>) = controls k2"
      "policies (k2\<lparr>nAllowFolder := n, AllowFolder := t\<rparr>) = policies k2"
      "excepts (k2\<lparr>nAllowFolder := n, AllowFolder := t\<rparr>) = excepts k2" for n t
    by (simp_all add: table_defs)
  ultimately show ?thesis
    using k2 \<open>volumes k2 = [usb_volume]\<close> \<open>excepts (kx a1) = []\<close>
    by (intro exI [of _ "a1\<lparr>kx := k2\<lparr>nAllowFolder := 0, AllowFolder := names_table MAX_ALLOW_FOLDERNAME []\<rparr>\<rparr>"])
       simp
qed

lemmas usb_reached = usb_reached_by [OF k_mem_env0, of usb_policy]

text \<open>What the agent then finds for a file on the drive.\<close>

lemma usb_file:
  assumes "volumes (kx a) = [usb_volume]" "policies (kx a) = [d]" "excepts (kx a) = []"
    "controls (kx a) = entries (kx a)" "nAllowFolder (kx a) = 0" "ulStorDevType d = 8" "dev_active d"
  shows "device ''/mnt/usb/a.doc'' (kx a) = Some (with_name ''/mnt/usb'' d)" "\<not> exempt ''/mnt/usb/a.doc'' (kx a)"
    "controlled spool ''/mnt/usb/a.doc'' (kx a)"
proof -
  have "dev_active (d\<lparr>cDevice := (cDevice d)\<lparr>DeviceNames := n\<rparr>\<rparr>)" for n using assms(7) by (simp add: dev_active_def)
  then have e: "entries (kx a) = [with_name ''/mnt/usb'' d]"
    using assms by (simp add: entries_def ctrl_entry_def ctrl_choice_def usb_volume_def
        new_volume_def effective_bus_def drive_policy_applies_def bus_defs with_name_def)
  then show "device ''/mnt/usb/a.doc'' (kx a) = Some (with_name ''/mnt/usb'' d)"
    by (simp add: device_def assms(4) with_name_def lies_in_def)
  show "\<not> exempt ''/mnt/usb/a.doc'' (kx a)"
    by (simp add: exempt_def IsAllowedFolderFileExt_def assms(5))
  have "mount_dir ''/mnt/usb/a.doc'' = ''/mnt/usb/a.doc''"
    by (simp add: mount_dir_def GetMountPath_def slash_at_def MAX_PATH_def)
  then show "controlled spool ''/mnt/usb/a.doc'' (kx a)"
    by (simp add: controlled_def assms(1) usb_volume_def new_volume_def covers_def strncaseeq_def
        bus_of_def control_bus_def)
qed

lemma usb_blocked:
  "\<exists>a. reachable env0 a \<and> close_verdict (base_name ''/bin/cp'') ''/mnt/usb/a.doc'' a = Remove"
proof -
  obtain a where a: "reachable env0 a" "volumes (kx a) = [usb_volume]" "policies (kx a) = [usb_policy]"
      "excepts (kx a) = []" "controls (kx a) = entries (kx a)" "nAllowFolder (kx a) = 0"
    using usb_reached by blast
  note f = usb_file [OF a(2-6)]
  have "copy_verdict ''/mnt/usb/a.doc'' (kx a) = Remove"
    using f(1,2) by (simp add: copy_verdict_def write_blocked_def on_device_def device_tests with_name_def
        usb_policy_def dev_active_def)
  with f(3) a(1) show ?thesis
    by (intro exI [of _ a]) (simp add: close_verdict_def usb_policy_def dev_active_def)
qed

text \<open>C9: A file closed after writing gets exactly the verdict of the tables: on a volume that is
  not controlled, or whose entry allows reading and writing, nothing is asked for the file; where
  writing is blocked and the path is not exempt its deletion is requested; where its content is to
  be inspected and it is not empty the supervisor is asked, and the deletion is requested unless
  the answer arrives and is not a denial. The event itself is always allowed.\<close>

theorem closed_file_verdict:
  assumes "reachable env a" and "k_mem env" and "5 \<le> length path" and "length path < LOG_FILE_LEN"
    and "length (base_name prog) < LOG_PROC_LEN"
  shows "\<exists>ok a' es. event_process env pid FAN_CLOSE_WRITE (Some path) prog a = Some (FAN_ALLOW, a') \<and>
     file_events a' = es @ file_events a \<and>
     follows env (kx a) pid path (close_verdict (base_name prog) path a) ok es"
  using event_process_verdict [OF reachable_inv [OF assms(1,2)] assms(2-5)] by blast

lemma closed_file_verdict_witness:
  "\<exists>a ok a' es. reachable env0 a \<and>
     event_process env0 7 FAN_CLOSE_WRITE (Some ''/mnt/usb/a.doc'') ''/bin/cp'' a = Some (FAN_ALLOW, a') \<and>
     file_events a' = es @ file_events a \<and> follows env0 (kx a) 7 ''/mnt/usb/a.doc'' Remove ok es"
proof -
  obtain a where a: "reachable env0 a" "close_verdict (base_name ''/bin/cp'') ''/mnt/usb/a.doc'' a = Remove"
    using usb_blocked by blast
  show ?thesis
    using closed_file_verdict [OF a(1) k_mem_env0, of "''/mnt/usb/a.doc''" "''/bin/cp''" 7] a
    by (auto simp: base_name_def sms_strrchr_def)
qed

text \<open>The list of exempt processes is not consulted on the path that is in use on Linux: for
  a file closed by an exempt process (here the agent's own process) the callback with the check
  does nothing, while the event loop, which calls the file handler directly, still requests the
  deletion.\<close>

theorem exempt_process_still_blocked:
  assumes "reachable env a" and "k_mem env" and "5 \<le> length path" and "length path < LOG_FILE_LEN"
    and "length (base_name prog) < LOG_PROC_LEN"
    and "close_verdict (base_name prog) path a = Remove"
  shows "Kauth_Callback_FileOp env (nAgentPID (kx a)) act (Some path) flag a = Some (KAUTH_RESULT_DEFER, a) \<and>
     (\<exists>a'. event_process env (nAgentPID (kx a)) FAN_CLOSE_WRITE (Some path) prog a = Some (FAN_ALLOW, a') \<and>
       file_events a' = FileDeleteEvent path # file_events a)"
proof -
  have inv: "agent_inv a" using assms(1,2) by (rule reachable_inv)
  then have "IsAllowedProcessId (nAgentPID (kx a)) [] (kx a) = Some True"
    by (subst IsAllowedProcessId_eq) (auto simp: agent_inv_def allowed_process_def)
  then have "Kauth_Callback_FileOp env (nAgentPID (kx a)) act (Some path) flag a = Some (KAUTH_RESULT_DEFER, a)"
    by (simp add: Kauth_Callback_FileOp_def)
  moreover obtain ok a' es where ev: "event_process env (nAgentPID (kx a)) FAN_CLOSE_WRITE (Some path) prog a =
       Some (FAN_ALLOW, a')" "file_events a' = es @ file_events a"
      "follows env (kx a) (nAgentPID (kx a)) path Remove ok es"
    using event_process_verdict [OF inv assms(2-5), of "nAgentPID (kx a)"] unfolding assms(6) by blast
  moreover from ev(3) have "es = [FileDeleteEvent path]" by (auto elim: follows_RemoveE)
  ultimately show ?thesis by simp
qed

lemma exempt_process_still_blocked_witness:
  "\<exists>a a'. Kauth_Callback_FileOp env0 (nAgentPID (kx a)) 2 (Some ''/mnt/usb/a.doc'') 2 a = Some (KAUTH_RESULT_DEFER, a) \<and>
     event_process env0 (nAgentPID (kx a)) FAN_CLOSE_WRITE (Some ''/mnt/usb/a.doc'') ''/bin/cp'' a = Some (FAN_ALLOW, a') \<and>
     file_events a' = FileDeleteEvent ''/mnt/usb/a.doc'' # file_events a"
proof -
  obtain a where a: "reachable env0 a" "close_verdict (base_name ''/bin/cp'') ''/mnt/usb/a.doc'' a = Remove"
    using usb_blocked by blast
  show ?thesis
    using exempt_process_still_blocked [OF a(1) k_mem_env0 _ _ _ a(2), of 2 2]
    by (auto simp: base_name_def sms_strrchr_def)
qed

end
