(* ===== verification/DriveChain.thy ===== *)
theory DriveChain
  imports DeviceMan Agent
begin

text \<open>
  From a rule of the supervisor to the verdict on a file: the drive rules that \<open>CPIDeviceMan\<close> sends
  (\<open>DeviceMan\<close>), the message the agent's server gets (\<open>AgentServer\<close>), the control table its handler
  builds (\<open>SmartCmd\<close>) and the test of a closed file (\<open>KauthListener\<close>) put together. No definition of
  this theory models further code: they name what the parts say together.
\<close>

subsection \<open>A channel that carries one message\<close>

text \<open>A connection that takes \<open>n\<close> bytes of data in one write, and a client of the server with room
  for them.\<close>

definition channel_ready :: "esf_cfg \<Rightarrow> esf \<Rightarrow> comm \<Rightarrow> link \<Rightarrow> nat \<Rightarrow> bool" where
  "channel_ready cfg s c ln n \<longleftrightarrow>
     cfg_mem cfg \<and> 0 < m_nESFCtlId s \<and> isActive (cfg_ps cfg) \<and> \<not> bigEndian (cfg_support cfg) \<and>
     \<not> bigEndian (csupport c) \<and> tcpState c \<noteq> TCPSTATE_NOTCONNECTED \<and> listSend c = [] \<and>
     listRecv c = [] \<and> remainedRecvBufSize c = 0 \<and> 10688 \<le> length (tcpRecvBuffer c) \<and>
     0 \<le> l_socket ln \<and> l_connect ln \<and> 28 \<le> length (l_mem ln) \<and> l_writes ln = [int (n + 32)]"

subsection \<open>The entry of a removable drive\<close>

definition removable_bus :: "u32 \<Rightarrow> bool" where
  "removable_bus b \<longleftrightarrow> b = BusTypeUsb \<or> b = BusType1394 \<or> b = BusTypeThunderBolt"

text \<open>What a file on a removable drive gets under a rule.\<close>

definition rule_verdict :: "sec_rule \<Rightarrow> bool \<Rightarrow> verdict" where
  "rule_verdict r ex =
     (if ex \<or> \<not> disableWrite r then Keep
      else if disableRead r \<or> reserved1 r = 1 then Remove else Inspect)"

lemma drive_device_code:
  assumes "isDriveRule r" and "deviceEx r = new_device_ex"
  shows "ulStorDevType (drive_device r) \<in> {device_v6_code DEVICE_V6_COPY, device_v6_code DEVICE_V6_USB}
    \<longleftrightarrow> virtualType r = Drive_Removable"
  using assms
  by (auto simp: drive_device_def isDriveRule_def getData_def Let_def vt)

lemma removable_applies:
  "removable_bus b \<Longrightarrow> drive_policy_applies b c \<longleftrightarrow>
     c \<in> {device_v6_code DEVICE_V6_COPY, device_v6_code DEVICE_V6_USB}"
  by (auto simp: removable_bus_def drive_policy_applies_def)

lemma find_drive_device:
  assumes "\<forall>r \<in> set l. isDriveRule r \<longrightarrow> deviceEx r = new_device_ex" and "removable_bus b"
  shows "List.find (\<lambda>d. drive_policy_applies b (ulStorDevType d)) (map drive_device (filter isDriveRule l)) =
    map_option drive_device (List.find (\<lambda>r. virtualType r = Drive_Removable) l)"
  using assms(1)
proof (induction l)
  case Nil
  then show ?case by simp
next
  case (Cons r l)
  have "virtualType r = Drive_Removable \<Longrightarrow> isDriveRule r" by (simp add: isDriveRule_def)
  with Cons show ?case
    using drive_device_code [of r] by (auto simp: removable_applies [OF assms(2)])
qed

lemma removable_device:
  assumes "virtualType r = Drive_Removable" and "deviceEx r = new_device_ex"
  shows "drive_device r = \<lparr>cDevice = \<lparr>bLoggingOn = of_cbool (enableLog r), bDisableAll = 0,
      bDisableRead = of_cbool (disableRead r), bDisableWrite = of_cbool (disableWrite r),
      nReserved1 = removable_reserved r, DeviceNames = v6_name (removable_kind r)\<rparr>,
    ulStorDevType = v6_code (removable_kind r)\<rparr>"
  using getData_removable [OF assms] by (simp add: drive_device_def)

text \<open>The only volume above a path decides about it.\<close>

lemma find_only_volume:
  assumes "v \<in> set vs" and "\<And>w. w \<in> set vs \<Longrightarrow> f w \<noteq> None \<Longrightarrow> P (the (f w)) \<Longrightarrow> w = v"
    and "\<And>d. f v = Some d \<Longrightarrow> P d"
  shows "List.find P (concat (map (\<lambda>v. opt_list (f v)) vs)) = f v"
  using assms
proof (induction vs)
  case Nil
  then show ?case by simp
next
  case (Cons w vs)
  show ?case
  proof (cases "w = v")
    case True
    show ?thesis
    proof (cases "f v")
      case None
      have "\<not> P d" if "d \<in> set (concat (map (\<lambda>v. opt_list (f v)) vs))" for d
      proof
        assume "P d"
        obtain u where u: "u \<in> set vs" "d \<in> set (opt_list (f u))" using \<open>d \<in> _\<close> by auto
        then have "f u = Some d" by (cases "f u") simp_all
        with \<open>P d\<close> u have "u = v" using Cons.prems(2) [of u] by simp
        with \<open>f u = Some d\<close> None show False by simp
      qed
      then show ?thesis using True None by (auto simp: find_None_iff)
    next
      case (Some d)
      then show ?thesis using True Cons.prems(3) by simp
    qed
  next
    case False
    then have "f w = None \<or> \<not> P (the (f w))" using Cons.prems(2) [of w] by auto
    moreover have "List.find P (concat (map (\<lambda>v. opt_list (f v)) vs)) = f v"
      using Cons.prems False by (intro Cons.IH) auto
    ultimately show ?thesis by (cases "f w") simp_all
  qed
qed

lemma removable_entry_verdict:
  assumes "wf_kext k" and "excepts k = []" and "DrvPolicy.controls k = entries k"
    and "List.find (\<lambda>d. drive_policy_applies (effective_bus v) (ulStorDevType d)) (policies k) = Some (drive_device r)"
    and "virtualType r = Drive_Removable" and "deviceEx r = new_device_ex"
    and "v \<in> set (volumes k)" and "lies_in (czBasePath v) path"
    and "\<And>w. w \<in> set (volumes k) \<Longrightarrow> lies_in (czBasePath w) path \<Longrightarrow> w = v"
  shows "copy_verdict path k = rule_verdict r (exempt path k)"
proof -
  have nm: "DeviceNames (cDevice d) = czBasePath w" if "ctrl_entry k w = Some d" for w d
    using that assms(2)
    by (auto simp: ctrl_entry_def ctrl_choice_def with_name_def split: option.splits if_splits)
  have "device path k = ctrl_entry k v"
    unfolding device_def assms(3) entries_def
  proof (rule find_only_volume [OF assms(7)])
    fix w
    assume "w \<in> set (volumes k)" and "ctrl_entry k w \<noteq> None"
      and "lies_in (DeviceNames (cDevice (the (ctrl_entry k w)))) path"
    then show "w = v" using nm [of w] assms(9) by auto
  next
    fix d
    assume "ctrl_entry k v = Some d"
    then show "lies_in (DeviceNames (cDevice d)) path" using nm assms(8) by simp
  qed
  also have "\<dots> = (let d = with_name (czBasePath v) (drive_device r) in if dev_active d then Some d else None)"
    using assms(2,4) by (simp add: ctrl_entry_def ctrl_choice_def)
  finally have d: "device path k = (let d = with_name (czBasePath v) (drive_device r) in
      if dev_active d then Some d else None)" .
  show ?thesis
    unfolding copy_verdict_def question_defs d Let_def rule_verdict_def
    using removable_device [OF assms(5,6)]
    by (auto simp: with_name_def dev_active_def device_tests removable_reserved_def)
qed

subsection \<open>From the rule to the verdict\<close>

lemma rules_enforced:
  assumes "channel_ready cfg s c ln (296 * length (filter isDriveRule l))"
    and "\<forall>r \<in> set l. isDriveRule r \<longrightarrow> deviceEx r = new_device_ex"
    and "length (filter isDriveRule l) \<le> MAX_POLICY"
    and "List.find (\<lambda>r. virtualType r = Drive_Removable) l = Some r"
    and "wf_kext k" and "base_paths_ok k" and "excepts k = []"
    and "v \<in> set (volumes k)" and "removable_bus (effective_bus v)" and "lies_in (czBasePath v) path"
    and "\<And>w. w \<in> set (volumes k) \<Longrightarrow> lies_in (czBasePath w) path \<Longrightarrow> w = v"
  shows "\<exists>out rep c' k' s'.
    serve_client mem \<lparr>io_select = 1, io_reads = [ReadData out], io_writes = [[28]]\<rparr> c k = Some (rep, Some c', k') \<and>
    applyPolicyDrive cfg n l (s\<lparr>esf_links := ln\<lparr>l_reads := [ReadData rep]\<rparr> # ls\<rparr>) = Some (True, l, s') \<and>
    copy_verdict path k' = rule_verdict r (exempt path k') \<and>
    wf_kext k' \<and> volumes k' = volumes k \<and> DrvPolicy.controls k' = entries k'"
proof -
  have r: "r \<in> set l" "virtualType r = Drive_Removable"
    using assms(4) by (auto simp: find_Some_iff)
  then have dr: "isDriveRule r" by (simp add: isDriveRule_def)
  with r have ne: "filter isDriveRule l \<noteq> []" by (auto simp: filter_empty_conv)
  obtain out rep c' k' s' where x:
      "serve_client mem \<lparr>io_select = 1, io_reads = [ReadData out], io_writes = [[28]]\<rparr> c k = Some (rep, Some c', k')"
      "applyPolicyDrive cfg n l (s\<lparr>esf_links := ln\<lparr>l_reads := [ReadData rep]\<rparr> # ls\<rparr>) = Some (True, l, s')"
      "wf_kext k'" "policies k' = map drive_device (filter isDriveRule l)" "excepts k' = excepts k"
      "VolCtx k' = VolCtx k" "DrvPolicy.controls k' = entries k'"
    using drive_rules_delivered [OF ne assms(2,3), of cfg s k c ln mem n ls] assms(1,5,6)
    unfolding channel_ready_def by blast
  have vs: "volumes k' = volumes k" using x(6) by (simp add: volumes_def)
  have "copy_verdict path k' = rule_verdict r (exempt path k')"
    using x(3) _ x(7)
  proof (rule removable_entry_verdict)
    show "excepts k' = []" using x(5) assms(7) by simp
    show "List.find (\<lambda>d. drive_policy_applies (effective_bus v) (ulStorDevType d)) (policies k') = Some (drive_device r)"
      using find_drive_device [OF assms(2,9)] assms(4) by (simp add: x(4))
    show "virtualType r = Drive_Removable" by (rule r(2))
    show "deviceEx r = new_device_ex" using assms(2) r(1) dr by blast
    show "v \<in> set (volumes k')" unfolding vs by (rule assms(8))
    show "lies_in (czBasePath v) path" by (rule assms(10))
    show "w = v" if "w \<in> set (volumes k')" "lies_in (czBasePath w) path" for w
      using that assms(11) unfolding vs by blast
  qed
  with x vs show ?thesis by blast
qed

subsection \<open>From the policy to the event\<close>

lemma controlled_removable:
  assumes "List.find (\<lambda>w. covers (czBasePath w) (mount_dir path)) (volumes k) = Some v"
    and "removable_bus (effective_bus v)"
  shows "controlled spool path k"
proof -
  have "control_bus (ulBusType v)"
    using assms(2) by (auto simp: removable_bus_def effective_bus_def GetBusTypeFromVolume_def control_bus_def
        bus_defs split: if_splits)
  then show ?thesis using assms(1) by (simp add: controlled_def bus_of_def)
qed

lemma find_hd: "filter P l \<noteq> [] \<Longrightarrow> List.find P l = Some (hd (filter P l))"
  by (induction l) auto

lemma removable_verdict_nonempty: "removable_verdict bw l mp m \<noteq> []"
  by (simp add: removable_verdict_def split: option.split)

text \<open>What the policies say about removable drives is what happens to a file: with one media
  policy in use, the rules of the current policies, sent over a working channel, change the
  agent's tables so that a file closed on a USB drive that no other volume hides, and that is in
  no exception, gets the verdict of the rule that has precedence. Writing allowed: nothing is
  asked. Writing and reading blocked, or the rule marked to deny: its deletion is requested.
  Otherwise the supervisor is asked to inspect it.\<close>

lemma policy_reaches_file:
  assumes a: "reachable env a" "k_mem env" "excepts (kx a) = []"
    and pol: "\<forall>p \<in> set (current_list pm). policy_ok p \<and> p_enableDeviceRule p"
      "filter used_media (current_list pm) = [mp]" "p_class mp = PolicyMedia m"
    and l: "l = snd (getCurrentRule (makeDeviceRule bw pm))"
      "\<forall>r \<in> set l. isDriveRule r \<longrightarrow> deviceEx r = new_device_ex"
      "length (filter isDriveRule l) \<le> MAX_POLICY"
    and ch: "channel_ready cfg s c ln (296 * length (filter isDriveRule l))"
    and v: "v \<in> set (volumes (kx a))" "removable_bus (effective_bus v)" "lies_in (czBasePath v) path"
      "\<And>w. w \<in> set (volumes (kx a)) \<Longrightarrow> lies_in (czBasePath w) path \<Longrightarrow> w = v"
      "List.find (\<lambda>w. covers (czBasePath w) (mount_dir path)) (volumes (kx a)) = Some v"
    and p: "5 \<le> length path" "length path < LOG_FILE_LEN" "length (base_name prog) < LOG_PROC_LEN"
  shows "\<exists>out rep c' k' s' ok a' es.
    serve_client mem \<lparr>io_select = 1, io_reads = [ReadData out], io_writes = [[28]]\<rparr> c (kx a) = Some (rep, Some c', k') \<and>
    applyPolicyDrive cfg n l (s\<lparr>esf_links := ln\<lparr>l_reads := [ReadData rep]\<rparr> # ls\<rparr>) = Some (True, l, s') \<and>
    event_process env pid FAN_CLOSE_WRITE (Some path) prog (a\<lparr>kx := k'\<rparr>) = Some (FAN_ALLOW, a') \<and>
    file_events a' = es @ file_events a \<and>
    follows env k' pid path
      (rule_verdict (hd (removable_verdict bw (current_list pm) mp m)) (exempt path k')) ok es"
proof -
  let ?r = "hd (removable_verdict bw (current_list pm) mp m)"
  have inv: "agent_inv a" using a(1,2) by (rule reachable_inv)
  have "filter is_removable l = removable_verdict bw (current_list pm) mp m"
    unfolding l(1) using pol by (rule removable_rules)
  then have r: "List.find (\<lambda>r. virtualType r = Drive_Removable) l = Some ?r"
    using find_hd [of is_removable l] removable_verdict_nonempty [of bw "current_list pm" mp m]
    by (simp add: is_removable_def [abs_def])
  obtain out rep c' k' s' where x:
      "serve_client mem \<lparr>io_select = 1, io_reads = [ReadData out], io_writes = [[28]]\<rparr> c (kx a) = Some (rep, Some c', k')"
      "applyPolicyDrive cfg n l (s\<lparr>esf_links := ln\<lparr>l_reads := [ReadData rep]\<rparr> # ls\<rparr>) = Some (True, l, s')"
      "copy_verdict path k' = rule_verdict ?r (exempt path k')" "wf_kext k'" "volumes k' = volumes (kx a)"
      "DrvPolicy.controls k' = entries k'"
    using rules_enforced [OF ch l(2,3) r _ _ a(3) v(1-4), of mem n ls] inv search_base
    by (auto simp: agent_inv_def)
  let ?a = "a\<lparr>kx := k'\<rparr>"
  have inv': "agent_inv ?a"
    using inv x(4-6) by (simp add: agent_inv_def search_paths_ok_def unstamped_def)
  have "controlled (czCupsSpoolPath (print_paths (base_name prog) path ?a)) path k'"
    using v(2,5) by (intro controlled_removable [of _ _ v]) (simp_all add: x(5))
  then have cv: "close_verdict (base_name prog) path ?a = rule_verdict ?r (exempt path k')"
    using x(3) by (simp add: close_verdict_def)
  obtain ok a' es where "event_process env pid FAN_CLOSE_WRITE (Some path) prog ?a = Some (FAN_ALLOW, a')"
      "file_events a' = es @ file_events ?a" "follows env k' pid path (rule_verdict ?r (exempt path k')) ok es"
    using event_process_verdict [OF inv' a(2) p, of pid] unfolding cv by fastforce
  moreover have "file_events ?a = file_events a" by (simp add: file_events_def)
  ultimately show ?thesis using x(1,2) by (metis (no_types, lifting))
qed

definition big_client :: comm where
  "big_client = sample_client\<lparr>tcpRecvBuffer := replicate 10688 0\<rparr>"

lemma sample_channel: "channel_ready sample_cfg sample_esf big_client (sample_link n) n"
  by (simp add: channel_ready_def sample_esf_defs sample_active big_client_def)

lemma lone_media_rules:
  assumes "p_use q" and "p_dlpType q = dlptypeControl" and "p_dlpSubType q = dlpsubtypeMediaControl"
    and "p_enableDeviceRule q" and "p_class q = PolicyMedia m"
  shows "validateDeviceRule [q] = [q]" and "snd (getCurrentRule (online_man [q])) = ruleList m"
proof -
  have c: "\<not> is_copy (p_dlpSubType q)" "dlpsubtypeSharedFolderPreventPlus \<noteq> p_dlpSubType q"
    using assms(3) by (simp_all add: is_copy_def dlp)
  have "setEnableDeviceRule sub q = q" if "sub \<noteq> p_dlpSubType q" for sub
    using that c(1) by (simp add: setEnableDeviceRule_def)
  then have d: "disableDeviceRuleByMediaControl sub t cb [q] = [q]" if "sub \<noteq> p_dlpSubType q" for sub t cb
    using that by (simp add: disableDeviceRuleByMediaControl_def)
  have "dlpsubtypeCopyPreventPlus \<noteq> p_dlpSubType q" using assms(3) by (simp add: dlp)
  moreover have "prevent_scan [q] (False, False) = (False, False)"
    using c by simp
  ultimately show "validateDeviceRule [q] = [q]"
    by (simp add: validateDeviceRule_def d c(2) disableDeviceRuleByPreventPlus_def)
  show "snd (getCurrentRule (online_man [q])) = ruleList m"
    using assms by (simp add: getCurrentRule_def policy_rules_def rule_active_def is_copyex_rule_def Let_def dlp)
qed

lemma lone_policy_rules:
  "snd (getCurrentRule (makeDeviceRule False (online_man [policy_of (PolicyMedia m)]))) =
     snd (media_addDeviceRule m (CPISecRule False 0))"
proof -
  define p where "p = policy_of (PolicyMedia m)"
  define q where "q = made False p"
  have p: "p_use p" "p_class p = PolicyMedia m" "p_rule p = CPISecRule False 0"
      "p_dlpType p = dlptypeControl" "p_dlpSubType p = dlpsubtypeMediaControl" "p_enableDeviceRule p"
    by (simp_all add: p_def policy_of_def)
  have q: "p_class q = PolicyMedia (m\<lparr>ruleList := snd (media_addDeviceRule m (CPISecRule False 0))\<rparr>)"
    unfolding q_def by (simp only: made_media [OF p(1,2)] p(3))
  have "makeDeviceRule_list False [p] = [q]" by (simp add: makeDeviceRule_list_def p(1) q_def made_def)
  moreover have "validateDeviceRule [q] = [q]" "snd (getCurrentRule (online_man [q])) =
      snd (media_addDeviceRule m (CPISecRule False 0))"
    using lone_media_rules [OF _ _ _ _ q] p by (simp_all add: q_def)
  moreover have "validateDeviceRule (makeDeviceRule_list False []) = []"
    by (simp add: makeDeviceRule_list_def validateDeviceRule_def disableDeviceRuleByMediaControl_def
        disableDeviceRuleByPreventPlus_def media_found_def Let_def)
  ultimately show ?thesis
    by (simp add: makeDeviceRule_def online_man_def p_def [symmetric] makeDeviceRule_list_def)
qed

lemma media_drive_rules:
  "length (filter isDriveRule (snd (media_addDeviceRule m r))) \<le> 5"
  "\<forall>x \<in> set (snd (media_addDeviceRule m r)). deviceEx x = deviceEx r"
  by (auto simp: media_rules_eq Let_def media_rule_def isDriveRule_def vt)

end
