(* ===== verification/Registration.thy ===== *)
theory Registration
  imports DeviceMan
begin

text \<open>
  The life of the DLP agent as the supervisor sees it: its registration (\<open>PIAgentStub.cpp\<close>), the queue
  of events and their handlers (\<open>PIEventHandler.cpp\<close>, \<open>PIEvent.cpp\<close>, \<open>CPIParam\<close> of \<open>PIObject.cpp\<close>), the
  actions they run (\<open>PIActionRegister\<close>, \<open>PIActionUnregister\<close>, \<open>PIActionProcessTTL\<close>,
  \<open>PIActionOnChangeOnOfflineMode\<close>, \<open>PIActionReloadPolicy\<close>) and the heartbeat
  (\<open>PIActionHeartbeatCheck.cpp\<close>). Time is counted in seconds and is an argument; so are the
  configuration and the contents of the policy files.
\<close>

subsection \<open>The parameters of an event\<close>

definition addParam :: "string \<Rightarrow> string \<Rightarrow> string" where
  "addParam p param = (if 0 < length param then param @ ''^'' else param) @ p"

text \<open>\<open>std::getline\<close> until the stream is empty: no token after a last delimiter.\<close>

function getlines :: "string \<Rightarrow> string list" where
  "getlines s = (if s = [] then []
     else takeWhile (\<lambda>c. c \<noteq> CHR ''^'') s # getlines (drop (Suc (length (takeWhile (\<lambda>c. c \<noteq> CHR ''^'') s))) s))"
  by pat_completeness auto
termination by (relation "measure length") auto

declare getlines.simps [simp del]

definition param_parse :: "string \<Rightarrow> bool \<times> string list" where
  "param_parse param = (getlines param \<noteq> [], getlines param)"

definition param_at :: "string list \<Rightarrow> int \<Rightarrow> string" where
  "param_at l index = (if index < 0 \<or> int (length l) \<le> index then [] else l ! nat index)"

subsection \<open>The stub of the agent\<close>

text \<open>The time stamp is \<open>None\<close> while its structure is zeroed.\<close>

record agent_stub =
  as_name :: string
  as_pid :: int
  as_timeStamp :: "int option"
  as_maxTimeSpan :: int

definition stub_clear :: agent_stub where
  "stub_clear = \<lparr>as_name = [], as_pid = 0, as_timeStamp = None, as_maxTimeSpan = 0\<rparr>"

definition pressTimeStamp :: "int \<Rightarrow> agent_stub \<Rightarrow> agent_stub" where
  "pressTimeStamp now st = st\<lparr>as_timeStamp := Some now\<rparr>"

definition isOutDated :: "int \<Rightarrow> agent_stub \<Rightarrow> bool" where
  "isOutDated now st =
     (case as_timeStamp st of None \<Rightarrow> True
      | Some t \<Rightarrow> if as_pid st = 0 then True else now - t > as_maxTimeSpan st * 3)"

definition isRegistered :: "agent_stub \<Rightarrow> bool" where
  "isRegistered st \<longleftrightarrow> as_pid st \<noteq> 0"

definition isRegistered_pid :: "int \<Rightarrow> agent_stub \<Rightarrow> bool" where
  "isRegistered_pid pid st \<longleftrightarrow> as_pid st = pid"

subsection \<open>The supervisor\<close>

datatype em_event = EVENT_NONE | EVENT_INIT_PISUPERVISOR | EVENT_UNINIT_PISUPERVISOR | EVENT_UNREGISTER
  | EVENT_CHANGED_ONOFFLINEMODE | EVENT_CHANGED_DLPPOLICY | EVENT_CHANGED_DEVICE | EVENT_EXECUTE | EVENT_TTL
  | EVENT_CHANGED_AGENT_STATUS | EVENT_POST_AGENT_STATUS | EVENT_REGISTER

text \<open>Actions on other components, in the order they are run.\<close>

datatype outer_action = RunInitializeData | RunOpenClientIPC | RunProcessDeviceLog | RunApplyPolicy
  | RunCheckAgent string | RunControlDevice | RunReloadUSBSerial

record supervisor =
  s_pm :: policy_man
  s_stub :: agent_stub
  vectorEvent :: "(em_event \<times> string) list"
  s_sig :: bool
  hb_running :: bool
  hb_isContinue :: bool
  ttlCycleCheck :: int
  s_run :: "outer_action list"

text \<open>What the configuration and the policy files hold.\<close>

record sup_env =
  e_ttlCycle :: int
  e_blockWriteAll :: bool
  e_online :: "dlp_policy list"
  e_offline :: "dlp_policy list"
  e_common :: "dlp_policy list"
  e_media :: "(string \<times> media_data) list"

definition addEvent :: "em_event \<Rightarrow> string \<Rightarrow> supervisor \<Rightarrow> supervisor" where
  "addEvent e param s = s\<lparr>s_sig := True, vectorEvent := vectorEvent s @ [(e, param)]\<rparr>"

definition outer :: "outer_action \<Rightarrow> supervisor \<Rightarrow> supervisor" where
  "outer x s = s\<lparr>s_run := s_run s @ [x]\<rparr>"

definition stub_set :: "string \<Rightarrow> int \<Rightarrow> int \<Rightarrow> int \<Rightarrow> supervisor \<Rightarrow> supervisor" where
  "stub_set name pid maxTimeSpan now s =
     addEvent EVENT_REGISTER [] (s\<lparr>s_stub := pressTimeStamp now
       ((s_stub s)\<lparr>as_name := name, as_pid := pid, as_maxTimeSpan := maxTimeSpan\<rparr>)\<rparr>)"

subsection \<open>Policies\<close>

text \<open>\<open>clear\<close> leaves the mode as it is; the drives are those of the media file.\<close>

definition pm_load :: "sup_env \<Rightarrow> policy_man \<Rightarrow> policy_man" where
  "pm_load e pm =
     (let pm1 = validateDLPPolicyXml (pm\<lparr>onlinePolicyList := e_online e, offlinePolicyList := e_offline e,
            commonPolicyList := e_common e, enableMediaControlBlockLog := False\<rparr>)
      in pm1\<lparr>enableMediaControlBlockLog := isEnableBlockLog pm1\<rparr>)"

definition reload_media :: "sup_env \<Rightarrow> policy_man \<Rightarrow> policy_man" where
  "reload_media e pm =
     (case as_Copy (getCurrentDLPPolicy dlptypePreventPlus dlpsubtypeCopyPreventPlus pm) of
        Some c \<Rightarrow> if policy_getMediaPermitType c = Some mdPermitAll then pm\<lparr>mediaList := []\<rparr>
                  else pm\<lparr>mediaList := e_media e\<rparr>
      | None \<Rightarrow> pm\<lparr>mediaList := e_media e\<rparr>)"

text \<open>The file \<open>translatePolicy\<close> also writes is not read by the supervisor.\<close>

definition translatePolicy :: "sup_env \<Rightarrow> policy_man \<Rightarrow> policy_man" where
  "translatePolicy e pm = makeDeviceRule (e_blockWriteAll e) pm"

definition setOnlineMode :: "policy_man \<Rightarrow> policy_man" where
  "setOnlineMode pm = pm\<lparr>isOnline := True\<rparr>"

definition setOfflineMode :: "policy_man \<Rightarrow> policy_man" where
  "setOfflineMode pm = pm\<lparr>isOnline := False\<rparr>"

subsection \<open>Actions\<close>

definition run_Register :: "sup_env \<Rightarrow> int \<Rightarrow> string \<Rightarrow> supervisor \<Rightarrow> supervisor" where
  "run_Register e now param s =
     (let s1 = stub_set ''PIAgent'' (atoi param) (e_ttlCycle e) now s in
      if \<not> isOnline (s_pm s1) then addEvent EVENT_CHANGED_ONOFFLINEMODE ''online'' s1 else s1)"

definition run_Unregister :: "string \<Rightarrow> supervisor \<Rightarrow> supervisor" where
  "run_Unregister param s =
     (let s1 = s\<lparr>s_stub := stub_clear\<rparr> in
      if isOnline (s_pm s1) then addEvent EVENT_CHANGED_ONOFFLINEMODE ''offline'' s1 else s1)"

definition run_ProcessTTL :: "sup_env \<Rightarrow> int \<Rightarrow> string \<Rightarrow> supervisor \<Rightarrow> supervisor" where
  "run_ProcessTTL e now param s =
     (let l = snd (param_parse param); pid = atoi (param_at l 0); mode = param_at l 1;
          s1 = (if pid = 0 then s
                else if as_pid (s_stub s) = pid then s\<lparr>s_stub := pressTimeStamp now (s_stub s)\<rparr>
                else stub_set ''PIAgent'' pid (e_ttlCycle e) now s)
      in if (mode = ''online'') \<noteq> isOnline (s_pm s1) then addEvent EVENT_CHANGED_ONOFFLINEMODE mode s1 else s1)"

definition run_OnChangeOnOfflineMode :: "sup_env \<Rightarrow> string \<Rightarrow> supervisor \<Rightarrow> supervisor" where
  "run_OnChangeOnOfflineMode e param s =
     s\<lparr>s_pm := translatePolicy e (if param = ''online'' then setOnlineMode (s_pm s) else setOfflineMode (s_pm s))\<rparr>"

definition run_ReloadPolicy :: "sup_env \<Rightarrow> supervisor \<Rightarrow> supervisor" where
  "run_ReloadPolicy e s =
     outer RunReloadUSBSerial (s\<lparr>s_pm := reload_media e (translatePolicy e (pm_load e (s_pm s)))\<rparr>)"

text \<open>The thread of the heartbeat marks itself as running when it starts.\<close>

definition run_HeartbeatCheck :: "supervisor \<Rightarrow> supervisor" where
  "run_HeartbeatCheck s =
     (if hb_running s then s else s\<lparr>hb_running := True, hb_isContinue := True, ttlCycleCheck := 0\<rparr>)"

definition stop_HeartbeatCheck :: "supervisor \<Rightarrow> supervisor" where
  "stop_HeartbeatCheck s = s\<lparr>hb_isContinue := False, hb_running := False\<rparr>"

text \<open>One turn of its loop, a second long.\<close>

definition heartbeat :: "sup_env \<Rightarrow> int \<Rightarrow> supervisor \<Rightarrow> supervisor" where
  "heartbeat e now s =
     (if \<not> hb_running s then s
      else if \<not> hb_isContinue s then s\<lparr>hb_running := False\<rparr>
      else if e_ttlCycle e \<le> 0 then s
      else if ttlCycleCheck s + 1 < e_ttlCycle e then s\<lparr>ttlCycleCheck := ttlCycleCheck s + 1\<rparr>
      else
        let s0 = s\<lparr>ttlCycleCheck := 0\<rparr>;
            (needOfflinePolicy, s1) =
              (if \<not> isRegistered (s_stub s0) then (True, s0)
               else if isOutDated now (s_stub s0) then (True, s0\<lparr>s_stub := stub_clear\<rparr>)
               else (False, s0))
        in if needOfflinePolicy \<and> isOnline (s_pm s1)
           then addEvent EVENT_CHANGED_ONOFFLINEMODE ''offline'' s1 else s1)"

subsection \<open>Events\<close>

fun on_event :: "sup_env \<Rightarrow> int \<Rightarrow> em_event \<times> string \<Rightarrow> supervisor \<Rightarrow> supervisor" where
  "on_event e now (EVENT_INIT_PISUPERVISOR, p) s =
     outer RunControlDevice (outer (RunCheckAgent p) (outer RunApplyPolicy (run_ReloadPolicy e
       (outer RunProcessDeviceLog (outer RunOpenClientIPC (outer RunInitializeData s))))))"
| "on_event e now (EVENT_UNREGISTER, p) s = stop_HeartbeatCheck (run_Unregister p s)"
| "on_event e now (EVENT_CHANGED_ONOFFLINEMODE, p) s = outer RunApplyPolicy (run_OnChangeOnOfflineMode e p s)"
| "on_event e now (EVENT_CHANGED_DLPPOLICY, p) s = outer RunApplyPolicy (run_ReloadPolicy e s)"
| "on_event e now (EVENT_CHANGED_DEVICE, p) s = outer RunApplyPolicy s"
| "on_event e now (EVENT_TTL, p) s = run_ProcessTTL e now p s"
| "on_event e now (EVENT_REGISTER, p) s = outer (RunCheckAgent ''register'') s"
| "on_event e now (_, p) s = s"

text \<open>One turn of \<open>run\<close>: the queue is copied and cleared, then its events are handled; events the
  handlers add wait for the next turn. Without a signal the thread sleeps.\<close>

definition dispatch :: "sup_env \<Rightarrow> int \<Rightarrow> supervisor \<Rightarrow> supervisor" where
  "dispatch e now s =
     (if \<not> s_sig s then s
      else fold (on_event e now) (vectorEvent s) (s\<lparr>vectorEvent := [], s_sig := False\<rparr>))"

subsection \<open>Requests of the agent\<close>

definition onSyncRegister :: "sup_env \<Rightarrow> int \<Rightarrow> string \<Rightarrow> supervisor \<Rightarrow> bool \<times> supervisor" where
  "onSyncRegister e now param s =
     (let s1 = run_HeartbeatCheck (run_Register e now param s)
      in (isRegistered_pid (atoi param) (s_stub s1), s1))"

definition onAsyncTTL :: "string \<Rightarrow> string \<Rightarrow> supervisor \<Rightarrow> supervisor" where
  "onAsyncTTL p0 p1 s = addEvent EVENT_TTL (addParam p1 (addParam p0 [])) s"

text \<open>The event thread starts with the event that initialises the supervisor.\<close>

definition sup_boot :: "policy_man \<Rightarrow> supervisor" where
  "sup_boot pm = addEvent EVENT_INIT_PISUPERVISOR []
     \<lparr>s_pm = pm\<lparr>isOnline := False\<rparr>, s_stub = stub_clear, vectorEvent = [], s_sig = False,
      hb_running = False, hb_isContinue = True, ttlCycleCheck = 0, s_run = []\<rparr>"

datatype sup_input = Register string | Unregister string | OnOffline string | PolicyChanged
  | TTL string string | Turn | Second

fun sup_handle :: "sup_env \<Rightarrow> sup_input \<Rightarrow> int \<times> supervisor \<Rightarrow> int \<times> supervisor" where
  "sup_handle e (Register p) (now, s) = (now, snd (onSyncRegister e now p s))"
| "sup_handle e (Unregister p) (now, s) = (now, addEvent EVENT_UNREGISTER p s)"
| "sup_handle e (OnOffline p) (now, s) = (now, addEvent EVENT_CHANGED_ONOFFLINEMODE p s)"
| "sup_handle e PolicyChanged (now, s) = (now, addEvent EVENT_CHANGED_DLPPOLICY [] s)"
| "sup_handle e (TTL p0 p1) (now, s) = (now, onAsyncTTL p0 p1 s)"
| "sup_handle e Turn (now, s) = (now, dispatch e now s)"
| "sup_handle e Second (now, s) = (now + 1, heartbeat e (now + 1) s)"

inductive sup_step :: "sup_env \<Rightarrow> int \<times> supervisor \<Rightarrow> int \<times> supervisor \<Rightarrow> bool" for e where
  "sup_step e c (sup_handle e i c)"

inductive_cases sup_stepE: "sup_step e c c'"

inductive sup_reachable :: "sup_env \<Rightarrow> int \<times> supervisor \<Rightarrow> bool" for e where
  boot: "sup_reachable e (t, sup_boot pm)"
| step: "sup_reachable e c \<Longrightarrow> sup_step e c c' \<Longrightarrow> sup_reachable e c'"

subsection \<open>Parameters are read back\<close>

lemma getlines_Nil [simp]: "getlines [] = []"
  by (simp add: getlines.simps)

lemma getlines_last: "CHR ''^'' \<notin> set p \<Longrightarrow> p \<noteq> [] \<Longrightarrow> getlines p = [p]"
proof -
  assume p: "CHR ''^'' \<notin> set p" "p \<noteq> []"
  then have t: "takeWhile (\<lambda>c. c \<noteq> CHR ''^'') p = p" by (auto simp: takeWhile_eq_all_conv)
  have "getlines p = p # getlines (drop (Suc (length p)) p)" using getlines.simps [of p] p(2) unfolding t by simp
  then show ?thesis by simp
qed

lemma getlines_cons: "CHR ''^'' \<notin> set p \<Longrightarrow> getlines (p @ CHR ''^'' # r) = p # getlines r"
  by (subst getlines.simps) (simp add: takeWhile_stop)

lemma fold_addParam:
  "q \<noteq> [] \<Longrightarrow> fold addParam ps q = q @ concat (map (\<lambda>p. CHR ''^'' # p) ps)"
  by (induction ps arbitrary: q) (simp_all add: addParam_def)

lemma getlines_params:
  assumes "CHR ''^'' \<notin> set p" and "\<forall>q \<in> set ps. CHR ''^'' \<notin> set q" and "last (p # ps) \<noteq> []"
  shows "getlines (p @ concat (map (\<lambda>q. CHR ''^'' # q) ps)) = p # ps"
  using assms
proof (induction ps arbitrary: p)
  case Nil
  then show ?case by (simp add: getlines_last)
next
  case (Cons q ps)
  then show ?case by (auto simp: getlines_cons)
qed

lemma params_read_back:
  assumes "p \<noteq> []" and "\<forall>q \<in> set (p # ps). CHR ''^'' \<notin> set q" and "last (p # ps) \<noteq> []"
  shows "param_parse (fold addParam (p # ps) []) = (True, p # ps)"
  using assms getlines_params [of p ps]
  by (simp add: param_parse_def fold_addParam addParam_def)

text \<open>The parameters of an event are read back as they were added, if none contains the
  delimiter and the first and the last are not empty. An empty first parameter vanishes and the
  others move up: the mode of a report without process id is taken for the process id.\<close>

theorem event_params_roundtrip:
  assumes "p \<noteq> []" and "\<forall>q \<in> set (p # ps). CHR ''^'' \<notin> set q" and "last (p # ps) \<noteq> []"
  shows "param_parse (fold addParam (p # ps) []) = (True, p # ps) \<and>
     param_parse (fold addParam ([] # p # ps) []) = (True, p # ps)"
  using params_read_back [OF assms] by (simp add: addParam_def)

lemma event_params_roundtrip_witness:
  "param_parse (fold addParam [''812'', ''online''] []) = (True, [''812'', ''online'']) \<and>
   param_parse (fold addParam [[], ''812'', ''online''] []) = (True, [''812'', ''online''])"
  using event_params_roundtrip [of "''812''" "[''online'']"] by simp

subsection \<open>What the handlers keep\<close>

lemma mode_kept [simp]:
  "isOnline (translatePolicy e pm) = isOnline pm" "isOnline (pm_load e pm) = isOnline pm"
  "isOnline (reload_media e pm) = isOnline pm"
  by (simp_all add: translatePolicy_def makeDeviceRule_def pm_load_def Let_def validateDLPPolicyXml_def
      reload_media_def split: option.split)

text \<open>A registered agent has been heard of, the counter of the heartbeat is below the cycle, and
  a queue that is not empty is signalled.\<close>

definition sup_inv :: "sup_env \<Rightarrow> int \<times> supervisor \<Rightarrow> bool" where
  "sup_inv e c \<longleftrightarrow>
     (case c of (now, s) \<Rightarrow>
        (isRegistered (s_stub s) \<longrightarrow> (\<exists>t \<le> now. as_timeStamp (s_stub s) = Some t) \<and>
           as_maxTimeSpan (s_stub s) = e_ttlCycle e) \<and>
        0 \<le> ttlCycleCheck s \<and> (0 < e_ttlCycle e \<longrightarrow> ttlCycleCheck s < e_ttlCycle e) \<and>
        (vectorEvent s \<noteq> [] \<longrightarrow> s_sig s))"

named_theorems sup

declare addEvent_def [sup] outer_def [sup] stub_set_def [sup] run_Register_def [sup] run_Unregister_def [sup]
  run_ProcessTTL_def [sup] run_OnChangeOnOfflineMode_def [sup] run_ReloadPolicy_def [sup]
  run_HeartbeatCheck_def [sup] stop_HeartbeatCheck_def [sup] pressTimeStamp_def [sup] stub_clear_def [sup]
  isRegistered_def [sup] onSyncRegister_def [sup] onAsyncTTL_def [sup] Let_def [sup]

lemma sup_inv_event: "sup_inv e (now, s) \<Longrightarrow> sup_inv e (now, on_event e now ev s)"
  by (cases "(e, now, ev, s)" rule: on_event.cases) (auto simp: sup_inv_def sup)

lemma sup_inv_events: "sup_inv e (now, s) \<Longrightarrow> sup_inv e (now, fold (on_event e now) evs s)"
  by (induction evs arbitrary: s) (simp_all add: sup_inv_event)

lemma sup_inv_heartbeat: "sup_inv e (now, s) \<Longrightarrow> sup_inv e (now + 1, heartbeat e (now + 1) s)"
  by (auto simp: sup_inv_def heartbeat_def sup split: if_splits)

lemma sup_inv_handle: "sup_inv e c \<Longrightarrow> sup_inv e (sup_handle e i c)"
proof (cases c)
  case (Pair now s)
  assume inv: "sup_inv e c"
  show ?thesis
  proof (cases i)
    case Turn
    have "sup_inv e (now, s\<lparr>vectorEvent := [], s_sig := False\<rparr>)" using inv Pair by (simp add: sup_inv_def)
    then show ?thesis using inv Pair Turn sup_inv_events by (simp add: dispatch_def)
  next
    case Second
    then show ?thesis using inv Pair sup_inv_heartbeat by simp
  qed (use inv Pair in \<open>auto simp: sup_inv_def sup\<close>)
qed

lemma sup_reachable_inv: "sup_reachable e c \<Longrightarrow> sup_inv e c"
proof (induction rule: sup_reachable.induct)
  case (boot t pm)
  then show ?case by (simp add: sup_inv_def sup_boot_def sup)
next
  case (step c c')
  from step.hyps(2) obtain i where "c' = sup_handle e i c" by (rule sup_stepE)
  then show ?case using sup_inv_handle [OF step.IH] by simp
qed

subsection \<open>Silence\<close>

text \<open>A second in which nobody asks for anything.\<close>

definition quiet_second :: "sup_env \<Rightarrow> int \<times> supervisor \<Rightarrow> int \<times> supervisor" where
  "quiet_second e c = sup_handle e Turn (sup_handle e Second c)"

text \<open>While the policies are on line: no check has seen the agent later than three cycles after it
  was last heard of.\<close>

definition waiting :: "sup_env \<Rightarrow> int \<Rightarrow> int \<times> supervisor \<Rightarrow> bool" where
  "waiting e t0 c \<longleftrightarrow>
     (case c of (now, s) \<Rightarrow>
        hb_running s \<and> hb_isContinue s \<and> vectorEvent s = [] \<and> 0 \<le> ttlCycleCheck s \<and> ttlCycleCheck s < e_ttlCycle e \<and>
        (isOnline (s_pm s) \<longrightarrow> now - ttlCycleCheck s \<le> t0 + 3 * e_ttlCycle e \<and>
          (isRegistered (s_stub s) \<longrightarrow> (\<exists>t \<le> t0. as_timeStamp (s_stub s) = Some t) \<and>
             as_maxTimeSpan (s_stub s) = e_ttlCycle e)))"

lemma waiting_second:
  assumes "waiting e t0 (now, s)"
  shows "waiting e t0 (quiet_second e (now, s)) \<and> fst (quiet_second e (now, s)) = now + 1"
  using assms
  by (auto simp: waiting_def quiet_second_def heartbeat_def dispatch_def isOutDated_def setOfflineMode_def sup
      split: if_splits)

lemma waiting_seconds:
  "waiting e t0 (t0, s) \<Longrightarrow> waiting e t0 ((quiet_second e ^^ n) (t0, s)) \<and> fst ((quiet_second e ^^ n) (t0, s)) = t0 + int n"
proof (induction n)
  case (Suc n)
  then show ?case using waiting_second [of e t0 "t0 + int n" "snd ((quiet_second e ^^ n) (t0, s))"]
    by (cases "(quiet_second e ^^ n) (t0, s)") auto
qed simp

text \<open>When the agent falls silent, the supervisor changes to the off line policies within four
  heartbeat cycles and stays there, whatever state it had reached, provided its heartbeat is
  running.\<close>

lemma silent_agent_goes_offline:
  assumes "sup_reachable e (now, s)" and "0 < e_ttlCycle e" and "hb_running s" and "hb_isContinue s"
    and "vectorEvent s = []" and "4 * e_ttlCycle e \<le> int n"
  shows "\<not> isOnline (s_pm (snd ((quiet_second e ^^ n) (now, s))))"
proof -
  have "waiting e now (now, s)"
    using sup_reachable_inv [OF assms(1)] assms(2-5) by (auto simp: waiting_def sup_inv_def)
  then have w: "waiting e now ((quiet_second e ^^ n) (now, s))" "fst ((quiet_second e ^^ n) (now, s)) = now + int n"
    using waiting_seconds by blast+
  show ?thesis
  proof
    assume "isOnline (s_pm (snd ((quiet_second e ^^ n) (now, s))))"
    with w have "now + int n - ttlCycleCheck (snd ((quiet_second e ^^ n) (now, s))) \<le> now + 3 * e_ttlCycle e"
        "ttlCycleCheck (snd ((quiet_second e ^^ n) (now, s))) < e_ttlCycle e"
      by (auto simp: waiting_def split: prod.splits)
    with assms(6) show False by linarith
  qed
qed

subsection \<open>An agent that registers by its reports\<close>

text \<open>The heartbeat is started by the registration only.\<close>

lemma not_running_second:
  "\<not> hb_running s \<Longrightarrow> \<not> s_sig s \<Longrightarrow> (quiet_second e ^^ n) (now, s) = (now + int n, s)"
  by (induction n) (simp_all add: quiet_second_def heartbeat_def dispatch_def)

lemma ttl_registers:
  assumes "atoi p \<noteq> 0" and "CHR ''^'' \<notin> set p"
  shows "\<exists>s. sup_handle e Turn (sup_handle e Turn (sup_handle e (TTL p ''online'')
       (sup_handle e Turn (now, sup_boot pm)))) = (now, s) \<and>
     isOnline (s_pm s) \<and> as_pid (s_stub s) = atoi p \<and> as_timeStamp (s_stub s) = Some now \<and>
     \<not> hb_running s \<and> \<not> s_sig s"
proof -
  have "p \<noteq> []" using assms(1) by (auto simp: atoi_def digits_value_def)
  then have l: "getlines (p @ CHR ''^'' # ''online'') = [p, ''online'']"
    using assms(2) by (simp add: getlines_cons getlines_last)
  show ?thesis
    using assms(1) \<open>p \<noteq> []\<close>
    by (simp add: dispatch_def sup_boot_def sup addParam_def param_parse_def l param_at_def setOnlineMode_def)
qed

text \<open>An agent that is already running when the supervisor starts registers by its periodic
  report, which does not start the heartbeat. If it then falls silent, the supervisor keeps it
  registered and stays with the on line policies for ever.\<close>

theorem ttl_registration_never_expires:
  assumes "atoi p \<noteq> 0" and "CHR ''^'' \<notin> set p"
  shows "let c = sup_handle e Turn (sup_handle e Turn (sup_handle e (TTL p ''online'')
       (sup_handle e Turn (now, sup_boot pm))))
    in \<forall>n. isOnline (s_pm (snd ((quiet_second e ^^ n) c))) \<and> isRegistered (s_stub (snd ((quiet_second e ^^ n) c)))"
proof -
  obtain s where s: "sup_handle e Turn (sup_handle e Turn (sup_handle e (TTL p ''online'')
       (sup_handle e Turn (now, sup_boot pm)))) = (now, s)"
      "isOnline (s_pm s)" "as_pid (s_stub s) = atoi p" "\<not> hb_running s" "\<not> s_sig s"
    using ttl_registers [OF assms] by blast
  show ?thesis
    unfolding s(1) Let_def using s(2-5) assms(1) by (simp add: not_running_second isRegistered_def)
qed

lemma atoi_812: "atoi ''812'' = 812"
  by (simp add: atoi_def digits_value_def is_digit_def digit_value_def white_space_def Let_def)

definition idle_man :: policy_man where
  "idle_man = \<lparr>onlinePolicyList = [], offlinePolicyList = [], commonPolicyList = [], isOnline = False,
     enableMediaControlBlockLog = False, mediaList = []\<rparr>"

definition idle_env :: sup_env where
  "idle_env = \<lparr>e_ttlCycle = 10, e_blockWriteAll = False, e_online = [], e_offline = [], e_common = [], e_media = []\<rparr>"

lemma ttl_registration_never_expires_witness:
  "let c = sup_handle idle_env Turn (sup_handle idle_env Turn (sup_handle idle_env (TTL ''812'' ''online'')
       (sup_handle idle_env Turn (0, sup_boot idle_man))))
    in \<forall>n. isOnline (s_pm (snd ((quiet_second idle_env ^^ n) c))) \<and>
         isRegistered (s_stub (snd ((quiet_second idle_env ^^ n) c)))"
  by (rule ttl_registration_never_expires) (simp_all add: atoi_812)

lemma register_runs_heartbeat:
  "let c = sup_handle idle_env Turn (sup_handle idle_env (Register ''812'') (sup_handle idle_env Turn (0, sup_boot idle_man)))
   in sup_reachable idle_env c \<and> fst c = 0 \<and> hb_running (snd c) \<and> hb_isContinue (snd c) \<and> vectorEvent (snd c) = [] \<and>
      isOnline (s_pm (snd c))"
  unfolding Let_def
  by (intro conjI sup_reachable.step [OF _ sup_step.intros] sup_reachable.boot)
     (simp_all add: dispatch_def sup_boot_def sup atoi_812 setOnlineMode_def)

end
