(* ===== verification/DeviceLog.thy ===== *)
theory DeviceLog
  imports DeviceMan LogCheck "HOL-Library.Multiset"
begin

text \<open>
  The logs of the agent on their way to the DLP agent: what the supervisor makes of a record
  (\<open>PIDeviceLog.cpp\<close>, the log functions of \<open>PIDeviceMan.cpp\<close>), the cache that holds back duplicates,
  and the two threads that send logs and keep those that could not be sent
  (\<open>PIActionProcessDeviceLog.cpp\<close>) in the table of \<open>PISQLiteStub.cpp\<close>. A log time is its second. The
  XML text of a log is an argument, made by the markup library; so are the results of sending and of
  the database. \<open>None\<close> is undefined behaviour.
\<close>

subsection \<open>A log\<close>

record device_log =
  dl_policyType :: u32
  dl_accessType :: u32
  dl_recordType :: u32
  dl_logTime :: int
  dl_logType :: u32
  dl_logAction :: u32
  dl_disableResult :: bool
  dl_processId :: u32
  dl_processName :: string
  dl_deviceName :: string
  dl_fileName :: string
  dl_virtualType :: string
  dl_guid :: string
  dl_deviceType :: int

definition LOG_FILEOP :: u8 where "LOG_FILEOP = 1"
definition MEDIA_USB :: u32 where "MEDIA_USB = 0x0008"
definition MEDIA_CAMERA :: u32 where "MEDIA_CAMERA = 0xA000"
definition MEDIA_RNDIS :: u32 where "MEDIA_RNDIS = 0xB000"
definition MEDIA_AIRDROP :: u32 where "MEDIA_AIRDROP = 0xC000"
definition EXCEPT_FLAG_POLCY :: u32 where "EXCEPT_FLAG_POLCY = 0x20000"
definition accessRead :: u32 where "accessRead = 1"
definition accessWrite :: u32 where "accessWrite = 2"
definition typeNone :: int where "typeNone = 1"
definition typeDevice :: int where "typeDevice = 1"
definition typeDrive :: int where "typeDrive = 2"
definition typeNdis :: int where "typeNdis = 3"
definition typeProcess :: int where "typeProcess = 4"

definition GET_STORDEVICETYPE :: "u32 \<Rightarrow> u32" where
  "GET_STORDEVICETYPE x = and x 0x0000FFFF"

definition GET_EXCEPTION_FLAG :: "u32 \<Rightarrow> u32" where
  "GET_EXCEPTION_FLAG x = and x 0x000F0000"

definition MAKE_LOGEX_POLICYTYPE :: "u32 \<Rightarrow> u32 \<Rightarrow> u32" where
  "MAKE_LOGEX_POLICYTYPE flag t = or (and t 0xFFFF) (push_bit 16 (and flag 0xFFFF))"

definition dl_clear :: device_log where
  "dl_clear = \<lparr>dl_policyType = 0, dl_accessType = 0, dl_recordType = 0, dl_logTime = 0, dl_logType = 0,
     dl_logAction = 0, dl_disableResult = False, dl_processId = 0, dl_processName = [], dl_deviceName = [],
     dl_fileName = [], dl_virtualType = [], dl_guid = [], dl_deviceType = typeNone\<rparr>"

definition em_types :: "em_type list" where
  "em_types = [COPYPREVENT, CDDVD, FLOPPY, USB, NETDRIVE, SERIAL, PARALLEL, IEEE1394, MTP, PTP, ANDROID,
     APPLE, PRINTPREVENT, BLUETOOTH, PROCESS, CAMERA]"

text \<open>The first device type with a code; the field stays as it is when there is none.\<close>

definition setDeviceTypeByPolicyType :: "u32 \<Rightarrow> device_log \<Rightarrow> device_log" where
  "setDeviceTypeByPolicyType policyType d =
     (case List.find (\<lambda>t. v6_code t = GET_STORDEVICETYPE policyType) em_types of
        None \<Rightarrow> d
      | Some t \<Rightarrow>
          if t = COPYPREVENT then d
          else if t \<in> {CDDVD, FLOPPY, USB, NETDRIVE} then d\<lparr>dl_deviceType := typeDrive\<rparr>
          else if t = PROCESS then d\<lparr>dl_deviceType := typeProcess\<rparr>
          else d\<lparr>dl_deviceType := typeDevice\<rparr>)"

text \<open>The name given is not used.\<close>

definition setDeviceName :: "string \<Rightarrow> device_log \<Rightarrow> device_log" where
  "setDeviceName val d =
     (if dl_policyType d = EXCEPT_FLAG_POLCY
      then d\<lparr>dl_virtualType := bsl ''Drive'' ''Removable'', dl_deviceName := dl_fileName d\<rparr>
      else
        let t = GET_STORDEVICETYPE (dl_policyType d) in
        if t = MEDIA_CAMERA
        then d\<lparr>dl_accessType := accessWrite, dl_processName := ''kernel_task'',
               dl_virtualType := bsl ''Device'' ''Camera'', dl_deviceName := dl_fileName d\<rparr>
        else if t = MEDIA_RNDIS
        then d\<lparr>dl_accessType := accessWrite, dl_processName := ''kernel_task'',
               dl_virtualType := bsl ''NDIS'' ''WWAN'', dl_deviceName := dl_fileName d\<rparr>
        else if t = MEDIA_AIRDROP
        then d\<lparr>dl_virtualType := bsl ''Share'' ''AirDrop'', dl_deviceName := ''AirDrop''\<rparr>
        else if t = MEDIA_COPYPREVENT
        then d\<lparr>dl_virtualType := bsl ''Drive'' ''Removable'', dl_deviceName := dl_fileName d\<rparr>
        else d)"

definition getVirtualType :: "device_log \<Rightarrow> string" where
  "getVirtualType d =
     (if dl_virtualType d \<noteq> [] then dl_virtualType d
      else case List.find (\<lambda>t. v6_code t = GET_STORDEVICETYPE (dl_policyType d)) em_types of
          None \<Rightarrow> []
        | Some t \<Rightarrow>
            (case t of
               CDDVD \<Rightarrow> bsl ''Drive'' ''CD/DVD'' | FLOPPY \<Rightarrow> bsl ''Drive'' ''Floppy''
             | USB \<Rightarrow> bsl ''Drive'' ''RemovableMedia'' | NETDRIVE \<Rightarrow> bsl ''Drive'' ''NetDrive''
             | SERIAL \<Rightarrow> bsl ''Device'' ''Serial'' | PARALLEL \<Rightarrow> bsl ''Device'' ''Parallel''
             | IEEE1394 \<Rightarrow> bsl ''Device'' ''IEEE1394''
             | MTP \<Rightarrow> bsl ''Device'' ''USBMobile'' | PTP \<Rightarrow> bsl ''Device'' ''USBMobile''
             | ANDROID \<Rightarrow> bsl ''Device'' ''USBMobile'' | APPLE \<Rightarrow> bsl ''Device'' ''USBMobile''
             | BLUETOOTH \<Rightarrow> bsl ''Device'' ''Bluetooth'' | PROCESS \<Rightarrow> bsl ''Process'' ''Control''
             | _ \<Rightarrow> []))"

definition getOperation :: "device_log \<Rightarrow> string" where
  "getOperation d = (if dl_accessType d = accessRead then ''read''
     else if dl_accessType d = accessWrite then ''write'' else ''access'')"

definition getDeviceType :: "device_log \<Rightarrow> string" where
  "getDeviceType d = (if dl_deviceType d = typeDevice then ''device''
     else if dl_deviceType d = typeDrive then ''drive''
     else if dl_deviceType d = typeNdis then ''ndis''
     else if dl_deviceType d = typeProcess then ''process'' else [])"

subsection \<open>From a record of the agent\<close>

text \<open>A log about USB drives becomes one of the copy policy that blocks reading them altogether.\<close>

definition adjustSmartLog :: "policy_man \<Rightarrow> log_record \<Rightarrow> log_record" where
  "adjustSmartLog pm r =
     (if GET_STORDEVICETYPE (lr_PolicyType r) = MEDIA_USB then
        (case as_Copy (getCurrentDLPPolicy dlptypePreventPlus dlpsubtypeCopyPreventPlus pm) of
           None \<Rightarrow> r
         | Some c \<Rightarrow>
             if policy_isBlockReadAll c
             then r\<lparr>lr_PolicyType := MAKE_LOGEX_POLICYTYPE (GET_EXCEPTION_FLAG (lr_PolicyType r)) MEDIA_COPYPREVENT\<rparr>
             else r)
      else r)"

definition keeps_log :: "policy_man \<Rightarrow> log_record \<Rightarrow> bool" where
  "keeps_log pm r \<longleftrightarrow>
     \<not> (lr_LogType r = LOG_FILEOP \<and> lr_bDisableResult r = 1) \<and>
     \<not> (isMediaControlLog (GET_STORDEVICETYPE (lr_PolicyType r)) \<and> \<not> enableMediaControlBlockLog pm) \<and>
     GET_STORDEVICETYPE (lr_PolicyType r) \<noteq> MEDIA_PROCESS"

text \<open>\<open>now\<close>: the time the record arrives, which replaces the agent's. The numbers of the record are
  kept in wider variables; the agent leaves the record type 0. \<open>getValueAsBool (int)\<close> is whether the number is not 0.\<close>

definition smartdrvSmartLogNotify :: "policy_man \<Rightarrow> int \<Rightarrow> log_record \<Rightarrow> device_log option" where
  "smartdrvSmartLogNotify pm now r0 =
     (let r = adjustSmartLog pm r0 in
      if \<not> keeps_log pm r then None
      else Some (setDeviceName (lr_FileName r)
        ((setDeviceTypeByPolicyType (lr_PolicyType r) dl_clear)\<lparr>dl_policyType := lr_PolicyType r,
           dl_accessType := lr_AccessType r, dl_recordType := 0, dl_logTime := now,
           dl_logType := ucast (lr_LogType r), dl_logAction := ucast (lr_LogAction r),
           dl_disableResult := truthy (lr_bDisableResult r), dl_processId := lr_ProcessId r,
           dl_processName := lr_ProcName r, dl_fileName := lr_FileName r\<rparr>)))"

subsection \<open>Duplicates\<close>

definition getMaxTimeSpan :: int where "getMaxTimeSpan = 60"

definition dl_isOutDated :: "int \<Rightarrow> int \<Rightarrow> device_log \<Rightarrow> bool" where
  "dl_isOutDated now maxTimeSpan d \<longleftrightarrow> now - dl_logTime d > maxTimeSpan"

definition isDuplicated :: "device_log \<Rightarrow> device_log \<Rightarrow> bool" where
  "isDuplicated d c \<longleftrightarrow>
     dl_policyType d = dl_policyType c \<and> dl_accessType d = dl_accessType c \<and> dl_recordType d = dl_recordType c \<and>
     dl_logType d = dl_logType c \<and> dl_logAction d = dl_logAction c \<and> dl_disableResult d = dl_disableResult c \<and>
     dl_processId d = dl_processId c \<and> dl_processName d = dl_processName c \<and>
     dl_deviceName d = dl_deviceName c \<and> dl_fileName d = dl_fileName c"

text \<open>The loop over the cache: \<open>i\<close> is the index, \<open>lastOut\<close> the last outdated one, -1 at first.\<close>

fun cache_loop :: "int \<Rightarrow> device_log \<Rightarrow> nat \<Rightarrow> int \<Rightarrow> device_log list \<Rightarrow> bool \<times> int" where
  "cache_loop now d i lastOut [] = (False, lastOut)"
| "cache_loop now d i lastOut (c # cs) =
     (if dl_isOutDated now getMaxTimeSpan c then cache_loop now d (Suc i) (int i) cs
      else if isDuplicated d c then (True, lastOut)
      else cache_loop now d (Suc i) lastOut cs)"

definition isDuplicatedDeviceLog :: "int \<Rightarrow> device_log \<Rightarrow> device_log list \<Rightarrow> bool \<times> device_log list" where
  "isDuplicatedDeviceLog now d cache =
     (case cache_loop now d 0 (-1) cache of (result, lastOut) \<Rightarrow>
        let cache1 = (if -1 < lastOut
              then (if int (length cache) - 1 = lastOut then [] else drop (nat lastOut + 1) cache) else cache)
        in (result, if result then cache1 else cache1 @ [d]))"

subsection \<open>Sending and keeping\<close>

text \<open>A row of the table: number, time, text.\<close>

record log_state =
  lg_queue :: "device_log list"
  lg_sig :: bool
  lg_cache :: "device_log list"
  lg_seq :: int
  lg_table :: "(int \<times> int \<times> string) list"

definition addDeviceLog :: "device_log \<Rightarrow> log_state \<Rightarrow> log_state" where
  "addDeviceLog d st = st\<lparr>lg_sig := True, lg_queue := lg_queue st @ [d]\<rparr>"

text \<open>The loop over a batch; \<open>rs\<close> are the results of the sends, a missing one is a failure. The
  result: what was sent, what was held back, the logs from the first failure on, the cache.\<close>

fun log_batch :: "(device_log \<Rightarrow> string) \<Rightarrow> int \<Rightarrow> bool list \<Rightarrow> device_log list \<Rightarrow> device_log list
    \<Rightarrow> string list \<times> device_log list \<times> device_log list \<times> device_log list" where
  "log_batch xml now rs [] cache = ([], [], [], cache)"
| "log_batch xml now rs (d # ds) cache =
     (case (if dl_policyType d \<noteq> MEDIA_AIRDROP then isDuplicatedDeviceLog now d cache else (False, cache)) of
        (dup, cache1) \<Rightarrow>
          if dup then
            (case log_batch xml now rs ds cache1 of (s, h, u, c) \<Rightarrow> (s, d # h, u, c))
          else if rs \<noteq> [] \<and> hd rs then
            (case log_batch xml now (tl rs) ds cache1 of (s, h, u, c) \<Rightarrow> (xml d # s, h, u, c))
          else ([], [], d # ds, cache1))"

text \<open>\<open>push_back\<close> numbers the rows; \<open>ok\<close> says whether the insertion of a number succeeds.\<close>

fun save_rows :: "(device_log \<Rightarrow> string) \<Rightarrow> (int \<Rightarrow> bool) \<Rightarrow> device_log list \<Rightarrow> int \<times> (int \<times> int \<times> string) list
    \<Rightarrow> int \<times> (int \<times> int \<times> string) list" where
  "save_rows xml ok [] (n, t) = (n, t)"
| "save_rows xml ok (d # ds) (n, t) =
     save_rows xml ok ds (n + 1, if ok (n + 1) then t @ [(n + 1, dl_logTime d, xml d)] else t)"

text \<open>The connection is not checked: when it cannot be opened it is an uninitialised pointer.\<close>

definition saveDeviceLog :: "(device_log \<Rightarrow> string) \<Rightarrow> bool \<Rightarrow> (int \<Rightarrow> bool) \<Rightarrow> device_log list \<Rightarrow> log_state \<Rightarrow> log_state option" where
  "saveDeviceLog xml opened ok ds st =
     (if ds = [] then Some st
      else if \<not> opened then None
      else case save_rows xml ok ds (lg_seq st, lg_table st) of (n, t) \<Rightarrow> Some (st\<lparr>lg_seq := n, lg_table := t\<rparr>))"

text \<open>One turn of \<open>fnLog\<close>: what was sent, what was held back, the state.\<close>

definition fnLog :: "(device_log \<Rightarrow> string) \<Rightarrow> int \<Rightarrow> bool list \<Rightarrow> bool \<Rightarrow> (int \<Rightarrow> bool) \<Rightarrow> log_state
    \<Rightarrow> (string list \<times> device_log list \<times> log_state) option" where
  "fnLog xml now rs opened ok st =
     (if \<not> lg_sig st then Some ([], [], st)
      else case log_batch xml now rs (lg_queue st) (lg_cache st) of (s, h, u, c) \<Rightarrow> do {
        st1 \<leftarrow> saveDeviceLog xml opened ok u (st\<lparr>lg_queue := [], lg_sig := False, lg_cache := c\<rparr>);
        Some (s, h, st1)
      })"

text \<open>\<open>getAll\<close>: by time, without rows that have no text.\<close>

definition getAll :: "(int \<times> int \<times> string) list \<Rightarrow> (int \<times> int \<times> string) list" where
  "getAll t = filter (\<lambda>(n, tm, x). x \<noteq> []) (sort_key (\<lambda>(n, tm, x). tm) t)"

definition db_erase :: "int \<Rightarrow> int \<Rightarrow> (int \<times> int \<times> string) list \<Rightarrow> (int \<times> int \<times> string) list" where
  "db_erase n tm t = filter (\<lambda>(n', tm', x). \<not> (n' = n \<and> tm' = tm)) t"

fun send_rows :: "bool list \<Rightarrow> (int \<Rightarrow> bool) \<Rightarrow> (int \<times> int \<times> string) list \<Rightarrow> (int \<times> int \<times> string) list
    \<Rightarrow> string list \<times> (int \<times> int \<times> string) list" where
  "send_rows rs ok [] t = ([], t)"
| "send_rows rs ok ((n, tm, x) # rows) t =
     (if rs \<noteq> [] \<and> hd rs then
        (case send_rows (tl rs) ok rows (if ok n then db_erase n tm t else t) of (s, t') \<Rightarrow> (x # s, t'))
      else ([], t))"

text \<open>One turn of \<open>fnSavedLog\<close>, with \<open>sendSavedDeviceLog\<close>; \<open>opened\<close>: both connections open.\<close>

definition fnSavedLog :: "bool \<Rightarrow> bool list \<Rightarrow> bool \<Rightarrow> (int \<Rightarrow> bool) \<Rightarrow> log_state \<Rightarrow> (string list \<times> log_state) option" where
  "fnSavedLog registered rs opened ok st =
     (let rows = (if registered \<and> opened then getAll (lg_table st) else []) in
      if rows = [] then Some ([], st)
      else case send_rows rs ok rows (lg_table st) of (s, t) \<Rightarrow> Some (s, st\<lparr>lg_table := t\<rparr>))"

subsection \<open>Duplicates held back\<close>

text \<open>The specification looks at every log passed on so far; the code only at its cache.\<close>

fun dup_run :: "device_log list \<Rightarrow> (int \<times> device_log) list \<Rightarrow> bool list" where
  "dup_run cache [] = []"
| "dup_run cache ((now, d) # xs) =
     (case isDuplicatedDeviceLog now d cache of (dup, cache') \<Rightarrow> dup # dup_run cache' xs)"

fun dup_spec :: "device_log list \<Rightarrow> (int \<times> device_log) list \<Rightarrow> bool list" where
  "dup_spec passed [] = []"
| "dup_spec passed ((now, d) # xs) =
     (let dup = (\<exists>c\<in>set passed. now - dl_logTime c \<le> 60 \<and> isDuplicated d c)
      in dup # dup_spec (if dup then passed else passed @ [d]) xs)"

lemma cache_loop_scan:
  "cache_loop now d i k (out @ cs) = cache_loop now d (i + length out) (if out = [] then k else int (i + length out) - 1) cs"
  if "\<forall>c\<in>set out. dl_isOutDated now 60 c"
  using that by (induction out arbitrary: i k) (auto simp: getMaxTimeSpan_def algebra_simps)

lemma cache_loop_fresh:
  "\<forall>c\<in>set cs. \<not> dl_isOutDated now 60 c \<Longrightarrow> cache_loop now d i k cs = (\<exists>c\<in>set cs. isDuplicated d c, k)"
  by (induction cs arbitrary: i) (auto simp: getMaxTimeSpan_def)

lemma outdated_prefix:
  "sorted (map dl_logTime cs) \<Longrightarrow> \<forall>c\<in>set (dropWhile (dl_isOutDated now w) cs). \<not> dl_isOutDated now w c"
  by (induction cs) (auto simp: dl_isOutDated_def)

lemma cache_spec:
  fixes now :: int
  assumes "sorted (map dl_logTime cache)"
  defines "fresh \<equiv> dropWhile (dl_isOutDated now 60) cache"
  shows "isDuplicatedDeviceLog now d cache =
    (\<exists>c\<in>set fresh. isDuplicated d c, if \<exists>c\<in>set fresh. isDuplicated d c then fresh else fresh @ [d])"
proof -
  let ?out = "takeWhile (dl_isOutDated now 60) cache"
  have split: "cache = ?out @ fresh" by (simp add: fresh_def)
  have len: "length cache = length ?out + length fresh" by (metis split length_append)
  have "cache_loop now d 0 (-1) cache =
      cache_loop now d (length ?out) (if ?out = [] then -1 else int (length ?out) - 1) fresh"
    by (subst split, subst cache_loop_scan) (auto dest: set_takeWhileD)
  also have "\<dots> = (\<exists>c\<in>set fresh. isDuplicated d c, if ?out = [] then -1 else int (length ?out) - 1)"
    using cache_loop_fresh [OF outdated_prefix [OF assms(1)]] unfolding fresh_def .
  finally have loop: "cache_loop now d 0 (-1) cache =
    (\<exists>c\<in>set fresh. isDuplicated d c, if ?out = [] then -1 else int (length ?out) - 1)" .
  have rest: "drop (length ?out) cache = fresh"
    unfolding fresh_def by (simp add: dropWhile_eq_drop)
  have cut: "(if -1 < (if ?out = [] then -1 else int (length ?out) - 1)
      then (if int (length cache) - 1 = (if ?out = [] then -1 else int (length ?out) - 1) then []
            else drop (nat (if ?out = [] then -1 else int (length ?out) - 1) + 1) cache) else cache) = fresh"
  proof (cases "?out = []")
    case True then show ?thesis using split by simp
  next
    case False
    then have n: "0 < length ?out" by simp
    then have "nat (int (length ?out) - 1) + 1 = length ?out" by linarith
    moreover have "int (length cache) - 1 = int (length ?out) - 1 \<longleftrightarrow> fresh = []" using len by auto
    ultimately show ?thesis using False n rest by simp
  qed
  show ?thesis
    unfolding isDuplicatedDeviceLog_def loop prod.case Let_def cut by simp
qed

text \<open>The cache is what has not been found outdated of the logs passed on.\<close>

definition recent :: "int \<Rightarrow> device_log list \<Rightarrow> device_log list \<Rightarrow> bool" where
  "recent now cache passed \<longleftrightarrow>
     (\<exists>old. passed = old @ cache \<and> (\<forall>c\<in>set old. dl_isOutDated now 60 c))"

lemma recent_step:
  assumes "recent t cache passed" "t \<le> now" "sorted (map dl_logTime passed)"
    "isDuplicatedDeviceLog now d cache = (dup, cache')"
  shows "dup = (\<exists>c\<in>set passed. now - dl_logTime c \<le> 60 \<and> isDuplicated d c)"
    and "recent now cache' (if dup then passed else passed @ [d])"
proof -
  obtain old where old: "passed = old @ cache" "\<forall>c\<in>set old. dl_isOutDated t 60 c"
    using assms(1) unfolding recent_def by blast
  have old_now: "\<forall>c\<in>set old. dl_isOutDated now 60 c"
    using old(2) assms(2) by (auto simp: dl_isOutDated_def)
  define gone fresh where gone: "gone = takeWhile (dl_isOutDated now 60) cache"
    and fresh: "fresh = dropWhile (dl_isOutDated now 60) cache"
  have cache: "cache = gone @ fresh" by (simp add: gone fresh)
  have sorted: "sorted (map dl_logTime cache)" using assms(3) old(1) by (simp add: sorted_append)
  have new: "\<forall>c\<in>set fresh. \<not> dl_isOutDated now 60 c"
    unfolding fresh by (rule outdated_prefix [OF sorted])
  have out: "\<forall>c\<in>set (old @ gone). dl_isOutDated now 60 c"
    using old_now unfolding gone by (auto dest: set_takeWhileD)
  have spec: "dup = (\<exists>c\<in>set fresh. isDuplicated d c)" "cache' = (if dup then fresh else fresh @ [d])"
    using cache_spec [OF sorted, of now d] assms(4) by (simp_all add: fresh)
  have all: "passed = (old @ gone) @ fresh" using old(1) cache by simp
  show "dup = (\<exists>c\<in>set passed. now - dl_logTime c \<le> 60 \<and> isDuplicated d c)"
    unfolding spec(1) all using out new by (force simp: dl_isOutDated_def not_less)
  show "recent now cache' (if dup then passed else passed @ [d])"
    unfolding recent_def using all out spec(2) by (intro exI [of _ "old @ gone"]) auto
qed

lemma dup_run_spec:
  assumes "recent t cache passed" "sorted (map dl_logTime passed)"
    "sorted (t # map fst xs)" "sorted (map (dl_logTime \<circ> snd) xs)"
    "\<forall>c\<in>set passed. \<forall>x\<in>set xs. dl_logTime c \<le> dl_logTime (snd x)"
  shows "dup_run cache xs = dup_spec passed xs"
  using assms
proof (induction xs arbitrary: t cache passed)
  case (Cons x xs)
  obtain now d where x: "x = (now, d)" by fastforce
  obtain dup cache' where r: "isDuplicatedDeviceLog now d cache = (dup, cache')" by fastforce
  let ?passed = "if dup then passed else passed @ [d]"
  have "t \<le> now" using Cons.prems(3) x by simp
  note step = recent_step [OF Cons.prems(1) this Cons.prems(2) r]
  have "dup_run cache' xs = dup_spec ?passed xs"
    by (rule Cons.IH [OF step(2)]) (use Cons.prems x in \<open>auto simp: sorted_append\<close>)
  then show ?case using step(1) unfolding x by (simp add: r Let_def)
qed simp

text \<open>C7: Duplicates. Whether a log is held back is decided by the cache of \<open>isDuplicatedDeviceLog\<close>, which
  drops what it finds outdated; as long as times do not run backwards, the decisions are exactly those
  of the complete history: a log is held back if and only if a log with the same fields was passed on
  and is at most 60 seconds old.\<close>

theorem duplicates_held_back:
  assumes "sorted (map fst xs)" "sorted (map (dl_logTime \<circ> snd) xs)"
  shows "dup_run [] xs = dup_spec [] xs"
proof -
  have "recent (case xs of [] \<Rightarrow> 0 | x # _ \<Rightarrow> fst x) [] []" by (simp add: recent_def)
  then show ?thesis by (rule dup_run_spec) (use assms in \<open>cases xs; force\<close>)+
qed

theorem duplicates_held_back_witness:
  "dup_run [] [(0, dl_clear), (60, dl_clear\<lparr>dl_logTime := 60\<rparr>), (61, dl_clear\<lparr>dl_logTime := 61\<rparr>)] =
     [False, True, False]"
  by (subst duplicates_held_back) (simp_all add: isDuplicated_def dl_clear_def)

subsection \<open>No log lost\<close>

text \<open>What happens to the two threads: a log arrives, one turn of \<open>fnLog\<close> at a time with the results of
  its sends, one turn of \<open>fnSavedLog\<close>. The database works.\<close>

datatype log_event = NewLog device_log | LogTurn int "bool list" | SavedTurn bool "bool list"

fun log_event_step :: "(device_log \<Rightarrow> string) \<Rightarrow> log_event \<Rightarrow> log_state
    \<Rightarrow> (string list \<times> device_log list \<times> log_state) option" where
  "log_event_step xml (NewLog d) st = Some ([], [], addDeviceLog d st)"
| "log_event_step xml (LogTurn now rs) st = fnLog xml now rs True (\<lambda>_. True) st"
| "log_event_step xml (SavedTurn registered rs) st =
     do { (s, st') \<leftarrow> fnSavedLog registered rs True (\<lambda>_. True) st; Some (s, [], st') }"

fun log_run :: "(device_log \<Rightarrow> string) \<Rightarrow> log_event list \<Rightarrow> log_state
    \<Rightarrow> (string list \<times> device_log list \<times> log_state) option" where
  "log_run xml [] st = Some ([], [], st)"
| "log_run xml (e # es) st = do {
     (s, h, st1) \<leftarrow> log_event_step xml e st;
     (s', h', st2) \<leftarrow> log_run xml es st1;
     Some (s @ s', h @ h', st2)
   }"

definition new_logs :: "log_event list \<Rightarrow> device_log list" where
  "new_logs es = concat (map (\<lambda>e. case e of NewLog d \<Rightarrow> [d] | _ \<Rightarrow> []) es)"

definition log_boot :: log_state where
  "log_boot = \<lparr>lg_queue = [], lg_sig = False, lg_cache = [], lg_seq = 0, lg_table = []\<rparr>"

definition texts :: "(int \<times> int \<times> string) list \<Rightarrow> string multiset" where
  "texts t = mset (map (snd \<circ> snd) t)"

text \<open>A queue with logs has its signal, the numbers of the rows are distinct and none is above the last
  one given, and no row is without text.\<close>

definition log_inv :: "log_state \<Rightarrow> bool" where
  "log_inv st \<longleftrightarrow> (lg_queue st \<noteq> [] \<longrightarrow> lg_sig st) \<and> distinct (map fst (lg_table st)) \<and>
     (\<forall>r\<in>set (lg_table st). fst r \<le> lg_seq st \<and> snd (snd r) \<noteq> [])"

lemma log_batch_all:
  "log_batch xml now rs ds cache = (s, h, u, c) \<Longrightarrow>
     image_mset xml (mset ds) = mset s + image_mset xml (mset h) + image_mset xml (mset u)"
  by (induction xml now rs ds cache arbitrary: s h u c rule: log_batch.induct)
    (auto split: prod.splits if_splits)

lemma save_rows_all:
  assumes "\<forall>d. xml d \<noteq> []" "distinct (map fst t)" "\<forall>r\<in>set t. fst r \<le> n \<and> snd (snd r) \<noteq> []"
    "save_rows xml (\<lambda>_. True) ds (n, t) = (n', t')"
  shows "distinct (map fst t') \<and> (\<forall>r\<in>set t'. fst r \<le> n' \<and> snd (snd r) \<noteq> []) \<and>
    texts t' = texts t + image_mset xml (mset ds)"
  using assms
proof (induction ds arbitrary: n t)
  case (Cons d ds)
  have rec: "save_rows xml (\<lambda>_. True) ds (n + 1, t @ [(n + 1, dl_logTime d, xml d)]) = (n', t')"
    using Cons.prems(4) by simp
  have "n + 1 \<notin> set (map fst t)" using Cons.prems(3) by fastforce
  then have dist: "distinct (map fst (t @ [(n + 1, dl_logTime d, xml d)]))"
    using Cons.prems(2) by simp
  have le: "\<forall>r\<in>set (t @ [(n + 1, dl_logTime d, xml d)]). fst r \<le> n + 1 \<and> snd (snd r) \<noteq> []"
    using Cons.prems(1,3) by fastforce
  from Cons.IH [OF Cons.prems(1) dist le rec] show ?case by (simp add: texts_def)
qed (simp add: texts_def)

lemma erase_row:
  "distinct (map fst t) \<Longrightarrow> (n, tm, x) \<in> set t \<Longrightarrow> mset t = add_mset (n, tm, x) (mset (db_erase n tm t))"
proof (induction t)
  case (Cons r t)
  show ?case
  proof (cases "r = (n, tm, x)")
    case True
    then have "n \<notin> fst ` set t" using Cons.prems(1) by simp
    then have "db_erase n tm t = t" by (force simp: db_erase_def filter_id_conv)
    then show ?thesis using True by (simp add: db_erase_def)
  next
    case False
    then have "(n, tm, x) \<in> set t" using Cons.prems(2) by auto
    moreover from this have "fst r \<noteq> n"
      using Cons.prems(1) image_eqI [of n fst "(n, tm, x)" "set t"] by auto
    ultimately show ?thesis using Cons by (cases r) (simp add: db_erase_def)
  qed
qed simp

lemma db_erase_keeps:
  "distinct (map fst t) \<Longrightarrow> distinct (map fst (db_erase n tm t))"
  "set (db_erase n tm t) \<subseteq> set t"
  by (induction t) (auto simp: db_erase_def)

lemma send_rows_all:
  assumes "distinct (map fst rows)" "set rows \<subseteq> set t" "distinct (map fst t)"
    "send_rows rs (\<lambda>_. True) rows t = (s, t')"
  shows "texts t = mset s + texts t' \<and> distinct (map fst t') \<and> set t' \<subseteq> set t"
  using assms
proof (induction rows arbitrary: rs t s)
  case (Cons r rows)
  obtain n tm x where r: "r = (n, tm, x)" by (cases r)
  show ?case
  proof (cases "rs \<noteq> [] \<and> hd rs")
    case True
    obtain s1 where rec: "send_rows (tl rs) (\<lambda>_. True) rows (db_erase n tm t) = (s1, t')" and s: "s = x # s1"
      using Cons.prems(4) True r by (auto split: prod.splits)
    have row: "mset t = add_mset (n, tm, x) (mset (db_erase n tm t))"
      by (rule erase_row) (use Cons.prems r in auto)
    have sub: "set rows \<subseteq> set (db_erase n tm t)"
      using Cons.prems(1,2) r by (force simp: db_erase_def)
    have "distinct (map fst rows)" using Cons.prems(1) by simp
    from Cons.IH [OF this sub db_erase_keeps(1) [OF Cons.prems(3)] rec] db_erase_keeps(2) [of n tm t] s row
    show ?thesis by (auto simp: texts_def)
  next
    case False
    then have "s = []" "t' = t" using Cons.prems(4) r by (simp_all split: if_splits)
    then show ?thesis using Cons.prems(3) by simp
  qed
qed (simp add: texts_def)

lemma getAll_rows:
  assumes "distinct (map fst t)"
  shows "distinct (map fst (getAll t))" "set (getAll t) \<subseteq> set t"
proof -
  have "mset (map fst (sort_key (\<lambda>(n, tm, x). tm) t)) = mset (map fst t)" by simp
  then have "distinct (map fst (sort_key (\<lambda>(n, tm, x). tm) t))"
    using assms mset_eq_imp_distinct_iff by blast
  then show "distinct (map fst (getAll t))" unfolding getAll_def by (rule distinct_map_filter)
qed (auto simp: getAll_def)

lemma fnLog_all:
  assumes "\<forall>d. xml d \<noteq> []" "log_inv st" "fnLog xml now rs True (\<lambda>_. True) st = Some (s, h, st')"
  shows "log_inv st' \<and> image_mset xml (mset (lg_queue st)) + texts (lg_table st) =
    mset s + image_mset xml (mset h) + image_mset xml (mset (lg_queue st')) + texts (lg_table st')"
proof (cases "lg_sig st")
  case False then show ?thesis using assms(2,3) by (auto simp: fnLog_def)
next
  case True
  obtain u c where b: "log_batch xml now rs (lg_queue st) (lg_cache st) = (s, h, u, c)"
    using assms(3) True by (auto simp: fnLog_def bind_eq_Some_conv split: prod.splits)
  obtain n' t' where r: "save_rows xml (\<lambda>_. True) u (lg_seq st, lg_table st) = (n', t')" by fastforce
  have inv: "distinct (map fst (lg_table st))"
    "\<forall>r\<in>set (lg_table st). fst r \<le> lg_seq st \<and> snd (snd r) \<noteq> []"
    using assms(2) by (simp_all add: log_inv_def)
  have st': "lg_queue st' = [] \<and> lg_seq st' = n' \<and> lg_table st' = t'"
    using assms(3) True b r by (auto simp: fnLog_def saveDeviceLog_def split: if_splits)
  show ?thesis
    using save_rows_all [OF assms(1) inv r] log_batch_all [OF b] st'
    by (simp add: log_inv_def ac_simps)
qed

lemma fnSavedLog_all:
  assumes "log_inv st" "fnSavedLog registered rs True (\<lambda>_. True) st = Some (s, st')"
  shows "log_inv st' \<and> lg_queue st' = lg_queue st \<and> texts (lg_table st) = mset s + texts (lg_table st')"
proof (cases "registered \<and> getAll (lg_table st) \<noteq> []")
  case False then show ?thesis using assms by (auto simp: fnSavedLog_def split: if_splits)
next
  case True
  obtain t' where r: "send_rows rs (\<lambda>_. True) (getAll (lg_table st)) (lg_table st) = (s, t')"
    and st': "st' = st\<lparr>lg_table := t'\<rparr>"
    using assms(2) True by (auto simp: fnSavedLog_def split: prod.splits)
  have "distinct (map fst (lg_table st))" using assms(1) by (simp add: log_inv_def)
  from send_rows_all [OF getAll_rows [OF this] this r] show ?thesis
    using assms(1) unfolding st' log_inv_def by auto
qed

lemma log_run_all:
  assumes "\<forall>d. xml d \<noteq> []" "log_inv st" "log_run xml es st = Some (s, h, st')"
  shows "log_inv st' \<and>
    image_mset xml (mset (lg_queue st)) + texts (lg_table st) + image_mset xml (mset (new_logs es)) =
    mset s + image_mset xml (mset h) + image_mset xml (mset (lg_queue st')) + texts (lg_table st')"
  using assms(2,3)
proof (induction es arbitrary: st s h)
  case (Cons e es)
  obtain s1 h1 st1 s2 h2 where e: "log_event_step xml e st = Some (s1, h1, st1)"
    and es: "log_run xml es st1 = Some (s2, h2, st')" and sh: "s = s1 @ s2" "h = h1 @ h2"
    using Cons.prems(2) by (auto simp: bind_eq_Some_conv)
  have "log_inv st1 \<and> image_mset xml (mset (lg_queue st)) + texts (lg_table st) + image_mset xml (mset (new_logs [e])) =
      mset s1 + image_mset xml (mset h1) + image_mset xml (mset (lg_queue st1)) + texts (lg_table st1)"
  proof (cases e)
    case (NewLog d)
    then have "s1 = []" "h1 = []" "st1 = addDeviceLog d st" using e by simp_all
    then show ?thesis using Cons.prems(1) NewLog by (simp add: addDeviceLog_def log_inv_def new_logs_def)
  next
    case (LogTurn now rs) then show ?thesis
      using fnLog_all [OF assms(1) Cons.prems(1)] e by (simp add: new_logs_def)
  next
    case (SavedTurn registered rs) then show ?thesis
      using fnSavedLog_all [OF Cons.prems(1)] e by (auto simp: new_logs_def bind_eq_Some_conv ac_simps)
  qed
  moreover have "mset (new_logs (e # es)) = mset (new_logs [e]) + mset (new_logs es)" by (simp add: new_logs_def)
  ultimately show ?case
    using Cons.IH [OF _ es] unfolding sh by (simp add: ac_simps)
qed (simp add: new_logs_def)

lemma log_run_total: "\<exists>r. log_run xml es st = Some r"
proof (induction es arbitrary: st)
  case (Cons e es)
  have "log_event_step xml e st \<noteq> None"
    by (cases e) (auto simp: fnLog_def saveDeviceLog_def fnSavedLog_def Let_def split: prod.split)
  then obtain s h st1 where e: "log_event_step xml e st = Some (s, h, st1)" by auto
  obtain s' h' st2 where "log_run xml es st1 = Some (s', h', st2)" using Cons.IH [of st1] by auto
  then show ?case using e by simp
qed simp

text \<open>C5: No log lost. Whatever order logs arrive and the two threads run in, and whichever sends
  fail: as long as the database works, the texts of the logs received are, counted with repetition,
  those sent, those held back as duplicates, those waiting in the queue and those kept in the table.
  Nothing is lost and nothing is sent twice.\<close>

theorem no_log_lost:
  assumes "\<forall>d. xml d \<noteq> []"
  shows "\<exists>sent held st. log_run xml es log_boot = Some (sent, held, st) \<and>
    image_mset xml (mset (new_logs es)) =
      mset sent + image_mset xml (mset held) + image_mset xml (mset (lg_queue st)) + texts (lg_table st)"
proof -
  obtain sent held st where run: "log_run xml es log_boot = Some (sent, held, st)"
    using log_run_total [of xml es log_boot] by auto
  have "log_inv log_boot" by (simp add: log_inv_def log_boot_def)
  from log_run_all [OF assms this run] show ?thesis
    using run by (simp add: log_boot_def texts_def)
qed

definition a_log :: "int \<Rightarrow> string \<Rightarrow> device_log" where
  "a_log t p = dl_clear\<lparr>dl_logTime := t, dl_fileName := p\<rparr>"

theorem no_log_lost_witness:
  defines "xml \<equiv> \<lambda>d. CHR ''<'' # dl_fileName d"
    and "es \<equiv> [NewLog (a_log 1 ''a''), NewLog (a_log 2 ''a''), NewLog (a_log 3 ''b''), NewLog (a_log 4 ''c''),
      LogTurn 5 [True, False], SavedTurn True [True, False], NewLog (a_log 9 ''d'')]"
  shows "\<exists>st. log_run xml es log_boot = Some ([''<a'', ''<b''], [a_log 2 ''a''], st) \<and>
    {#''<a'', ''<a'', ''<b'', ''<c'', ''<d''#} =
      mset [''<a'', ''<b''] + {#''<a''#} + image_mset xml (mset (lg_queue st)) + texts (lg_table st)"
proof -
  have "\<exists>st. log_run xml es log_boot = Some ([''<a'', ''<b''], [a_log 2 ''a''], st)"
    unfolding xml_def es_def by (simp add: fnLog_def fnSavedLog_def saveDeviceLog_def getAll_def addDeviceLog_def
      log_boot_def isDuplicatedDeviceLog_def isDuplicated_def dl_isOutDated_def a_log_def dl_clear_def
      MEDIA_AIRDROP_def getMaxTimeSpan_def)
  moreover have "image_mset xml (mset (new_logs es)) = {#''<a'', ''<a'', ''<b'', ''<c'', ''<d''#}"
    by (simp add: es_def new_logs_def xml_def a_log_def)
  ultimately show ?thesis using no_log_lost [of xml es] by (auto simp: xml_def a_log_def)
qed

text \<open>Exception flag. \<open>adjustSmartLog\<close> means to keep the exception flag of a record it turns into one
  of the copy policy. \<open>GET_EXCEPTION_FLAG\<close> does not shift the flag down and \<open>MAKE_LOGEX_POLICYTYPE\<close>
  keeps only the low half of what it is given, so the flag is always gone, and a log of an
  excepted drive is reported like any other.\<close>

theorem exception_flag_lost:
  "MAKE_LOGEX_POLICYTYPE (GET_EXCEPTION_FLAG flags) t = and t 0xFFFF \<and>
   (lr_PolicyType (adjustSmartLog pm r) = lr_PolicyType r \<or>
    lr_PolicyType (adjustSmartLog pm r) = MEDIA_COPYPREVENT)"
proof
  show lost: "MAKE_LOGEX_POLICYTYPE (GET_EXCEPTION_FLAG flags) t = and t 0xFFFF" for flags t
    by (simp add: MAKE_LOGEX_POLICYTYPE_def GET_EXCEPTION_FLAG_def and.assoc)
  show "lr_PolicyType (adjustSmartLog pm r) = lr_PolicyType r \<or>
    lr_PolicyType (adjustSmartLog pm r) = MEDIA_COPYPREVENT"
    by (simp add: adjustSmartLog_def lost MEDIA_COPYPREVENT_def split: option.split)
qed

end
