(* ===== verification/ScanService.thy ===== *)
theory ScanService
  imports DriveChain Registration DeviceLog
begin

text \<open>
  What the supervisor does with the packets it receives: \<open>CPIActionOpenClientIPC\<close> hands them to the
  handlers of registration and of the agent's events (\<open>CESFControl::JobEvent_FileScan\<close>,
  \<open>JobEvent_FileDelete\<close>, \<open>JobEvent_SmartLogNotify\<close>), which ask the DLP agent over a connection of
  their own (\<open>PIAgentStub.cpp\<close>). Files are their contents by path; what system calls return is an
  argument. The code is that of the Linux build. \<open>None\<close> is undefined behaviour.
\<close>

subsection \<open>The structures of the events\<close>

record notification =
  sn_nSize :: u32
  sn_nAction :: u32
  sn_nResult :: u32
  sn_nPID :: u32
  sn_pVnode :: u64
  sn_pWakeup :: u64
  sn_pParam :: u64
  sn_pParam02 :: u64
  sn_pParam03 :: u64
  sn_czFilePath :: string
  sn_czQtFilePath :: string

fun f32 :: "field \<Rightarrow> u32" where "f32 (F32 w) = w" | "f32 _ = 0"
fun f64 :: "field \<Rightarrow> u64" where "f64 (F64 w) = w" | "f64 _ = 0"
fun fstr :: "field \<Rightarrow> string" where "fstr (FStr n s) = s" | "fstr _ = []"

definition notification_layout :: "ftype list" where
  "notification_layout = [L32, L32, L32, L32, L64, L64, L64, L64, L64, LStr 1024, LStr 1024]"

definition notification_fields :: "notification \<Rightarrow> field list" where
  "notification_fields n = [F32 (sn_nSize n), F32 (sn_nAction n), F32 (sn_nResult n), F32 (sn_nPID n),
     F64 (sn_pVnode n), F64 (sn_pWakeup n), F64 (sn_pParam n), F64 (sn_pParam02 n), F64 (sn_pParam03 n),
     FStr 1024 (sn_czFilePath n), FStr 1024 (sn_czQtFilePath n)]"

definition notification_of :: "field list \<Rightarrow> notification" where
  "notification_of fs = \<lparr>sn_nSize = f32 (fs ! 0), sn_nAction = f32 (fs ! 1), sn_nResult = f32 (fs ! 2),
     sn_nPID = f32 (fs ! 3), sn_pVnode = f64 (fs ! 4), sn_pWakeup = f64 (fs ! 5), sn_pParam = f64 (fs ! 6),
     sn_pParam02 = f64 (fs ! 7), sn_pParam03 = f64 (fs ! 8), sn_czFilePath = fstr (fs ! 9),
     sn_czQtFilePath = fstr (fs ! 10)\<rparr>"

definition notification_ok :: "notification \<Rightarrow> bool" where
  "notification_ok n \<longleftrightarrow> name_ok 1024 (sn_czFilePath n) \<and> name_ok 1024 (sn_czQtFilePath n)"

interpretation notification_codec: struct_codec notification_layout notification_fields notification_of notification_ok
  by unfold_locales
    (auto simp: notification_layout_def notification_fields_def notification_of_def notification_ok_def name_ok_def
      struct_size_def numeral_eq_Suc)

text \<open>A log record: fields, two bytes, fields. The members the supervisor does not read are \<open>t\<close>, the
  time of the agent, and zeros.\<close>

definition log_head :: "ftype list" where "log_head = [L32, L32, L32, L32, L32, L32, LStr 32]"
definition log_tail :: "ftype list" where "log_tail = [L32, L32, L32, L64, L64, L32, LStr 260, LStr 260]"

definition log_bytes :: "string \<Rightarrow> log_record \<Rightarrow> u8 list" where
  "log_bytes t r =
     enc_fields [F32 610, F32 (lr_PolicyType r), F32 602, F32 (lr_AccessType r), F32 0, F32 0, FStr 32 t] @
     [lr_LogType r, lr_LogAction r] @
     enc_fields [F32 0, F32 0, F32 0, F64 0, F64 (lr_bDisableResult r), F32 (lr_ProcessId r),
       FStr 260 (lr_ProcName r), FStr 260 (lr_FileName r)]"

definition log_of_bytes :: "u8 list \<Rightarrow> log_record option" where
  "log_of_bytes bs = do {
     (h, r1) \<leftarrow> dec_fields log_head bs;
     (case r1 of
        a # b # r2 \<Rightarrow> do {
          (t, r3) \<leftarrow> dec_fields log_tail r2;
          Some \<lparr>lr_PolicyType = f32 (h ! 1), lr_AccessType = f32 (h ! 3), lr_LogType = a, lr_LogAction = b,
            lr_bDisableResult = f64 (t ! 4), lr_ProcessId = f32 (t ! 5), lr_ProcName = fstr (t ! 6),
            lr_FileName = fstr (t ! 7)\<rparr>
        }
      | _ \<Rightarrow> None)
   }"

lemma log_of_bytes_log_bytes:
  assumes "name_ok 32 t" "name_ok 260 (lr_ProcName r)" "name_ok 260 (lr_FileName r)"
  shows "log_of_bytes (log_bytes t r) = Some r"
proof -
  let ?h = "[F32 610, F32 (lr_PolicyType r), F32 602, F32 (lr_AccessType r), F32 0, F32 0, FStr 32 t]"
  let ?t = "[F32 0, F32 0, F32 0, F64 0, F64 (lr_bDisableResult r), F32 (lr_ProcessId r),
    FStr 260 (lr_ProcName r), FStr 260 (lr_FileName r)]"
  have "dec_fields log_head (enc_fields ?h @ rest) = Some (?h, rest)" for rest
    using dec_enc_fields [of ?h rest] assms(1) by (simp add: log_head_def name_ok_def)
  moreover have "dec_fields log_tail (enc_fields ?t) = Some (?t, [])"
    using dec_enc_fields [of ?t "[]"] assms(2,3) by (simp add: log_tail_def name_ok_def)
  ultimately show ?thesis by (simp add: log_of_bytes_def log_bytes_def)
qed

subsection \<open>Asking the DLP agent\<close>

definition PIAGENT_PORT :: nat where "PIAGENT_PORT = 7789"

text \<open>What one packet of the supervisor depends on: the configuration, the time, the connection to the
  DLP agent, the calls of the file system.\<close>

record sv_calls =
  sc_env :: sup_env
  sc_now :: int
  sc_support :: packet_support
  sc_link :: link
  sc_exists :: "string \<Rightarrow> bool"
  sc_date :: string
  sc_openQt :: bool
  sc_malloc :: bool
  sc_openSrc :: bool
  sc_read :: int
  sc_write :: int
  sc_fresh :: "u8 list"
  sc_unlink :: bool

text \<open>On Linux the communicator keeps its own byte order; whether the exchange succeeded, the
  response, the bytes written.\<close>

definition sendToPIAgent :: "link \<Rightarrow> packet \<Rightarrow> u32 \<Rightarrow> (bool \<times> u32 \<times> u8 list) option" where
  "sendToPIAgent l packet response = do {
     (returnValue, c, out) \<leftarrow> esf_exchange l
        ((new_comm (l_mem l))\<lparr>ipString := ''127.0.0.1'', tcpPort := PIAGENT_PORT\<rparr>) packet;
     response' \<leftarrow> last_response (listRecv c) response;
     Some (returnValue, response', out)
   }"

definition agent_packet :: "sv_calls \<Rightarrow> u32 \<Rightarrow> packet" where
  "agent_packet cs cmd = setCommand cmd (CPIPacket\<lparr>psupport := sc_support cs\<rparr>)"

definition analyzeFileForCopyPreventPlus :: "sv_calls \<Rightarrow> agent_stub \<Rightarrow> string \<Rightarrow> string \<Rightarrow> u32 \<Rightarrow> u32 \<Rightarrow> u32
    \<Rightarrow> (bool \<times> u32 \<times> u8 list) option" where
  "analyzeFileForCopyPreventPlus cs st filePath tempFilePath deviceCategory pid response =
     (if \<not> isRegistered st then Some (False, response, [])
      else do {
        (i1, p1) \<leftarrow> add_string filePath (agent_packet cs 1701);
        (i2, p2) \<leftarrow> add_string tempFilePath p1;
        (i3, p3) \<leftarrow> add_uint deviceCategory p2;
        (i4, p4) \<leftarrow> add_uint pid p3;
        sendToPIAgent (sc_link cs) p4 response
      })"

text \<open>Without one of the two actions the command stays 0.\<close>

definition analyzeFileForPreventPlus :: "sv_calls \<Rightarrow> agent_stub \<Rightarrow> string \<Rightarrow> string \<Rightarrow> u32 \<Rightarrow> u32 \<Rightarrow> u32
    \<Rightarrow> (bool \<times> u32 \<times> u8 list) option" where
  "analyzeFileForPreventPlus cs st filePath orgfilePath pid action response =
     (if \<not> isRegistered st then Some (False, response, [])
      else do {
        let cmd = (if action = DeviceMan.ActionTypePrint then 2001 else if action = DeviceMan.ActionTypeUpload then 2003 else 0);
        (i1, p1) \<leftarrow> add_string filePath (agent_packet cs cmd);
        (i2, p2) \<leftarrow> add_string orgfilePath p1;
        (i3, p3) \<leftarrow> add_uint pid p2;
        sendToPIAgent (sc_link cs) p3 response
      })"

definition notifyFileDelete :: "sv_calls \<Rightarrow> agent_stub \<Rightarrow> string \<Rightarrow> u32 \<Rightarrow> u32 \<Rightarrow> (bool \<times> u32 \<times> u8 list) option" where
  "notifyFileDelete cs st filePath pid response =
     (if \<not> isRegistered st then Some (False, response, [])
      else do {
        (i1, p1) \<leftarrow> add_string filePath (agent_packet cs 1801);
        (i2, p2) \<leftarrow> add_uint pid p1;
        sendToPIAgent (sc_link cs) p2 response
      })"

definition notifyDiskFull :: "sv_calls \<Rightarrow> agent_stub \<Rightarrow> string \<Rightarrow> string \<Rightarrow> u32 \<Rightarrow> (bool \<times> u32 \<times> u8 list) option" where
  "notifyDiskFull cs st jobStatus filePath response =
     (if \<not> isRegistered st then Some (False, response, [])
      else do {
        (i1, p1) \<leftarrow> add_string jobStatus (agent_packet cs 2548);
        (i2, p2) \<leftarrow> add_string filePath p1;
        sendToPIAgent (sc_link cs) p2 response
      })"

definition notifyNeedFullDiskAccessAuth :: "sv_calls \<Rightarrow> agent_stub \<Rightarrow> u32 \<Rightarrow> (bool \<times> u32 \<times> u8 list) option" where
  "notifyNeedFullDiskAccessAuth cs st response =
     (if \<not> isRegistered st then Some (False, response, [])
      else sendToPIAgent (sc_link cs) (agent_packet cs 1300) response)"

definition setDeviceLog :: "sv_calls \<Rightarrow> agent_stub \<Rightarrow> string \<Rightarrow> (bool \<times> u32 \<times> u8 list) option" where
  "setDeviceLog cs st deviceLog =
     (if \<not> isRegistered st then Some (False, 0, [])
      else do {
        (i1, p1) \<leftarrow> add_string deviceLog (agent_packet cs 1207);
        sendToPIAgent (sc_link cs) p1 0
      })"

definition notifyEvent :: "sv_calls \<Rightarrow> agent_stub \<Rightarrow> nat \<Rightarrow> string \<Rightarrow> (bool \<times> u32 \<times> u8 list) option" where
  "notifyEvent cs st eventId param =
     (if \<not> isRegistered st then Some (False, 0, [])
      else do {
        (i1, p1) \<leftarrow> add_string (decimal eventId) (agent_packet cs 1208);
        (i2, p2) \<leftarrow> add_string param p1;
        sendToPIAgent (sc_link cs) p2 0
      })"

text \<open>The questions of \<open>DeviceMan\<close>: the answer is 0 to begin with and stays so when there is none.\<close>

fun ask_agent :: "sv_calls \<Rightarrow> agent_stub \<Rightarrow> query \<Rightarrow> u32 option" where
  "ask_agent cs st (AnalyzeContent path org pid action) =
     map_option (\<lambda>(ok, r, out). r) (analyzeFileForPreventPlus cs st path org pid action 0)"
| "ask_agent cs st (AnalyzeCopy path temp category pid) =
     map_option (\<lambda>(ok, r, out). r) (analyzeFileForCopyPreventPlus cs st path temp category pid 0)"
| "ask_agent cs st (NotifyFileDelete path pid) = map_option (\<lambda>(ok, r, out). r) (notifyFileDelete cs st path pid 0)"
| "ask_agent cs st (NotifyDiskFull job path) = map_option (\<lambda>(ok, r, out). r) (notifyDiskFull cs st job path 0)"

subsection \<open>The events of the agent\<close>

definition RESULT_ALLOW :: u32 where "RESULT_ALLOW = 1"

definition cmd_FileScan :: u32 where "cmd_FileScan = 1101"
definition cmd_FileDelete :: u32 where "cmd_FileDelete = 1103"
definition cmd_FileEventDiskFull :: u32 where "cmd_FileEventDiskFull = 1201"
definition cmd_SmartLogNotify :: u32 where "cmd_SmartLogNotify = 1301"

type_synonym files = "string \<Rightarrow> u8 list option"

record service =
  sv_sup :: supervisor
  sv_logs :: log_state
  sv_files :: files

text \<open>From the last slash on.\<close>

definition last_part :: "string \<Rightarrow> string option" where
  "last_part s = (if CHR ''/'' \<in> set s
     then Some (CHR ''/'' # rev (takeWhile (\<lambda>c. c \<noteq> CHR ''/'') (rev s))) else None)"

text \<open>The name of the copy: the date in the directory asked for, with everything from the first dot
  of the file name on. All of it is written into the 1024 bytes of the notification.\<close>

definition qt_name :: "string \<Rightarrow> bool \<Rightarrow> string \<Rightarrow> string \<Rightarrow> string" where
  "qt_name date print path qt =
     (case last_part path of None \<Rightarrow> qt
      | Some token \<Rightarrow> qt @ ''/'' @ date @ dropWhile (\<lambda>c. c \<noteq> CHR ''.'') token) @
     (if print then ''.pdf'' else [])"

text \<open>The copy has as many bytes as the event said, whatever could be read. The function never says
  \<open>TRUE\<close>; the directory it makes is not a file.\<close>

definition QtCopyFileUser :: "sv_calls \<Rightarrow> notification \<Rightarrow> files \<Rightarrow> (bool \<times> notification \<times> files) option" where
  "QtCopyFileUser cs n fs =
     (if sn_pParam n = 0 then Some (False, n, fs)
      else
        let qt = qt_name (sc_date cs) (sn_nAction n = DeviceMan.ActionTypePrint) (sn_czFilePath n) (sn_czQtFilePath n);
            n1 = n\<lparr>sn_czQtFilePath := qt\<rparr>;
            fs1 = fs(qt \<mapsto> []);
            none = fs1(qt := None);
            size = unat (sn_pParam n)
        in if 1024 \<le> length qt then None
           else if \<not> sc_openQt cs then Some (False, n1, fs)
           else if \<not> sc_malloc cs then Some (False, n1, none)
           else if \<not> sc_openSrc cs then Some (False, n1, none)
           else if sc_read cs < 0 then Some (False, n1, none)
           else if sc_write cs < 0 then Some (False, n1, none)
           else
             let content = (case fs1 (sn_czFilePath n) of None \<Rightarrow> [] | Some b \<Rightarrow> b);
                 buf = take (nat (sc_read cs)) content @ drop (length (take (nat (sc_read cs)) content)) (take size (sc_fresh cs))
             in Some (False, n1, fs1(qt \<mapsto> take (nat (sc_write cs)) buf)))"

text \<open>The events of files among those of \<open>smartdrvEventHandler\<close>; renaming, exchanging and the test
  for removable files do nothing.\<close>

definition file_event :: "(query \<Rightarrow> u32 option) \<Rightarrow> (string \<Rightarrow> bool) \<Rightarrow> policy_man \<Rightarrow> evt_param \<Rightarrow> evt_param option" where
  "file_event ask exists pm e =
     (if evt_Command e = cmd_FileScan then smartdrvFileScan ask exists pm e
      else if evt_Command e = cmd_FileDelete then smartdrvFileDelete ask pm e
      else if evt_Command e = cmd_FileEventDiskFull then smartdrvFileEventDiskFull ask e
      else Some e)"

text \<open>Whether there is a callback is an argument; it is set when the supervisor starts. The result code
  is \<open>nResult\<close> of the notification.\<close>

definition JobEvent_FileScan :: "sv_calls \<Rightarrow> bool \<Rightarrow> u32 \<Rightarrow> notification \<Rightarrow> service \<Rightarrow> (u32 \<times> service) option" where
  "JobEvent_FileScan cs callback cmd n s = do {
     (b, n1, fs1) \<leftarrow> QtCopyFileUser cs n (sv_files s);
     let e0 = \<lparr>evt_bAccess = False, evt_Command = cmd, evt_ProcessId = sn_nPID n, evt_FileSize = sn_pParam n,
        evt_filePath = sn_czFilePath n, evt_qtFilePath = sn_czQtFilePath n1, evt_ullReserved = sn_nAction n\<rparr>;
     (bAccess, fs2) \<leftarrow>
       (if callback then do {
          e \<leftarrow> file_event (ask_agent cs (s_stub (sv_sup s))) (sc_exists cs) (s_pm (sv_sup s)) e0;
          Some (evt_bAccess e, fs1)
        } else Some (b, fs1(sn_czQtFilePath n1 := None)));
     Some (if bAccess then RESULT_ALLOW else RESULT_DENY, s\<lparr>sv_files := fs2\<rparr>)
   }"

definition JobEvent_FileDelete :: "sv_calls \<Rightarrow> notification \<Rightarrow> service \<Rightarrow> (u32 \<times> service) option" where
  "JobEvent_FileDelete cs n s =
     (if \<not> sc_unlink cs then Some (RESULT_DENY, s)
      else Some (RESULT_ALLOW, s\<lparr>sv_files := (sv_files s)(sn_czFilePath n := None)\<rparr>))"

definition JobEvent_SmartLogNotify :: "sv_calls \<Rightarrow> bool \<Rightarrow> log_record \<Rightarrow> service \<Rightarrow> service" where
  "JobEvent_SmartLogNotify cs callback r s =
     (if \<not> callback then s
      else case smartdrvSmartLogNotify (s_pm (sv_sup s)) (sc_now cs) r of
          None \<Rightarrow> s
        | Some d \<Rightarrow> s\<lparr>sv_logs := addDeviceLog d (sv_logs s)\<rparr>)"

text \<open>An event is a message with a structure behind its header.\<close>

definition as_event :: "u8 list \<Rightarrow> (u32 \<times> u8 list) option" where
  "as_event bs = (if length bs < 8 then None else Some (of_le (take 4 (drop 4 bs)), drop 8 bs))"

definition as_notification :: "u8 list \<Rightarrow> (u32 \<times> notification) option" where
  "as_notification bs = do {
     (cmd, d) \<leftarrow> as_event bs;
     (fs, r) \<leftarrow> dec_fields notification_layout d;
     Some (cmd, notification_of fs)
   }"

subsection \<open>Requests\<close>

definition ipc_onSyncRegister :: "sv_calls \<Rightarrow> packet \<Rightarrow> service \<Rightarrow> (u32 \<times> string \<times> service) option" where
  "ipc_onSyncRegister cs p s = do {
     param \<leftarrow> get_string 0 p;
     let (ok, sup) = onSyncRegister (sc_env cs) (sc_now cs) param (sv_sup s);
     Some (if ok then 1 else 0, [], s\<lparr>sv_sup := sup\<rparr>)
   }"

definition ipc_onAsyncUnresiter :: "packet \<Rightarrow> service \<Rightarrow> (u32 \<times> string \<times> service) option" where
  "ipc_onAsyncUnresiter p s = do {
     param \<leftarrow> get_string 0 p;
     Some (1, [], s\<lparr>sv_sup := addEvent EVENT_UNREGISTER param (sv_sup s)\<rparr>)
   }"

definition ipc_onAsyncOnChangeOnOffline :: "packet \<Rightarrow> service \<Rightarrow> (u32 \<times> string \<times> service) option" where
  "ipc_onAsyncOnChangeOnOffline p s = do {
     param \<leftarrow> get_string 0 p;
     Some (1, [], s\<lparr>sv_sup := addEvent EVENT_CHANGED_ONOFFLINEMODE param (sv_sup s)\<rparr>)
   }"

definition ipc_onAsyncOnChangePolicy :: "service \<Rightarrow> (u32 \<times> string \<times> service) option" where
  "ipc_onAsyncOnChangePolicy s = Some (1, [], s\<lparr>sv_sup := addEvent EVENT_CHANGED_DLPPOLICY [] (sv_sup s)\<rparr>)"

definition ipc_onAsyncTTL :: "packet \<Rightarrow> service \<Rightarrow> (u32 \<times> string \<times> service) option" where
  "ipc_onAsyncTTL p s = do {
     p0 \<leftarrow> get_string 0 p;
     p1 \<leftarrow> get_string 1 p;
     Some (1, [], s\<lparr>sv_sup := onAsyncTTL p0 p1 (sv_sup s)\<rparr>)
   }"

text \<open>The quarantine is not built on Linux: nothing is done, the code stays 0.\<close>

definition ipc_onSyncQuarantineFile :: "packet \<Rightarrow> service \<Rightarrow> (u32 \<times> string \<times> service) option" where
  "ipc_onSyncQuarantineFile p s = do {
     orgFilePath \<leftarrow> get_string 0 p;
     encryptedFile \<leftarrow> get_string 1 p;
     Some (0, [], s)
   }"

definition ipc_onSyncDeleteQuarantinedFile :: "packet \<Rightarrow> service \<Rightarrow> (u32 \<times> string \<times> service) option" where
  "ipc_onSyncDeleteQuarantinedFile p s = do { filePath \<leftarrow> get_string 0 p; Some (0, [], s) }"

definition ipc_onSyncReleaseQuarantinedFile :: "packet \<Rightarrow> service \<Rightarrow> (u32 \<times> string \<times> service) option" where
  "ipc_onSyncReleaseQuarantinedFile p s = do {
     quarantinedFilePath \<leftarrow> get_string 0 p;
     targetPath \<leftarrow> get_string 1 p;
     orgFilePath \<leftarrow> get_string 2 p;
     Some (0, orgFilePath, s)
   }"

definition ipc_onSyncQuarantinePid :: "packet \<Rightarrow> service \<Rightarrow> (u32 \<times> string \<times> service) option" where
  "ipc_onSyncQuarantinePid p s = do { pid \<leftarrow> get_int 0 p; Some (0, [], s) }"

text \<open>A packet without a value is the null pointer to the job functions, which do nothing; a value too
  short for its structure is read beyond its end.\<close>

definition ipc_job :: "sv_calls \<Rightarrow> bool \<Rightarrow> u32 \<Rightarrow> packet \<Rightarrow> service \<Rightarrow> (u32 \<times> string \<times> service) option" where
  "ipc_job cs callback cmd p s =
     (case getBinary 0 p of
        None \<Rightarrow> Some (0, [], s)
      | Some bs \<Rightarrow>
          if cmd = cmd_SmartLogNotify then do {
            (c, d) \<leftarrow> as_event bs;
            r \<leftarrow> log_of_bytes d;
            Some (0, [], JobEvent_SmartLogNotify cs callback r s)
          }
          else do {
            (c, n) \<leftarrow> as_notification bs;
            (code, s1) \<leftarrow> (if cmd = cmd_FileScan then JobEvent_FileScan cs callback c n s
                           else JobEvent_FileDelete cs n s);
            Some (code, [], s1)
          })"

text \<open>The test of \<open>onTest\<close> is empty on Linux.\<close>

definition ipc_processPacket :: "sv_calls \<Rightarrow> bool \<Rightarrow> packet \<Rightarrow> service \<Rightarrow> (u32 \<times> string \<times> service) option" where
  "ipc_processPacket cs callback p s =
     (let cmd = command p in
      if cmd = 1 then Some (1, [], s)
      else if cmd = 1201 then ipc_onSyncRegister cs p s
      else if cmd = 1203 then ipc_onAsyncUnresiter p s
      else if cmd = 1204 then ipc_onAsyncOnChangeOnOffline p s
      else if cmd = 1205 then ipc_onAsyncOnChangePolicy s
      else if cmd = 1206 then ipc_onAsyncTTL p s
      else if cmd = 1209 then ipc_onSyncQuarantineFile p s
      else if cmd = 1210 then ipc_onSyncDeleteQuarantinedFile p s
      else if cmd = 1211 then ipc_onSyncReleaseQuarantinedFile p s
      else if cmd = 1212 \<or> cmd = 1213 then ipc_onSyncQuarantinePid p s
      else if cmd = 1214 \<or> cmd = 1215 then Some (0, [], s)
      else if cmd \<in> {cmd_SmartLogNotify, cmd_FileScan, cmd_FileDelete} then ipc_job cs callback cmd p s
      else Some (0, [], s))"

definition ipc_sendResponse :: "sv_calls \<Rightarrow> int list \<Rightarrow> comm \<Rightarrow> u32 \<Rightarrow> u32 \<Rightarrow> string \<Rightarrow> (u8 list \<times> comm) option" where
  "ipc_sendResponse cs ws c cmd code val = do {
     let p0 = setCommand cmd (CPIPacket\<lparr>psupport := (sc_support cs)\<lparr>unsignedType := False\<rparr>\<rparr>);
     (i, p1) \<leftarrow> add_int code p0;
     p2 \<leftarrow> (if 0 < length val then map_option snd (add_string val p1) else Some p1);
     (out, r, c') \<leftarrow> sendTCP ws (c\<lparr>listSend := listSend c @ [p2]\<rparr>);
     Some (out, c')
   }"

definition ipc_parseClientPacket :: "sv_calls \<Rightarrow> bool \<Rightarrow> int list \<Rightarrow> packet \<Rightarrow> comm \<Rightarrow> service
    \<Rightarrow> (u8 list \<times> comm \<times> service) option" where
  "ipc_parseClientPacket cs callback ws p c s = do {
     (code, val, s1) \<leftarrow> ipc_processPacket cs callback p s;
     (out, c1) \<leftarrow> ipc_sendResponse cs ws c (command p) code val;
     Some (out, c1, s1)
   }"

text \<open>The packets of one client, each with what it depends on.\<close>

fun ipc_serve_packets :: "bool \<Rightarrow> (sv_calls \<times> int list) list \<Rightarrow> packet list \<Rightarrow> comm \<Rightarrow> service
    \<Rightarrow> (u8 list \<times> comm \<times> service) option" where
  "ipc_serve_packets callback io [] c s = Some ([], c\<lparr>listRecv := []\<rparr>, s)"
| "ipc_serve_packets callback [] (p # ps) c s = None"
| "ipc_serve_packets callback ((cs, ws) # io) (p # ps) c s = do {
     (out, c1, s1) \<leftarrow> ipc_parseClientPacket cs callback ws p c s;
     (outs, c2, s2) \<leftarrow> ipc_serve_packets callback io ps c1 s1;
     Some (out @ outs, c2, s2)
   }"


subsection \<open>The answers of the DLP agent\<close>

text \<open>A connection on which the DLP agent answers \<open>x\<close>, and one that cannot be made.\<close>

definition agent_says :: "link \<Rightarrow> u32 \<Rightarrow> bool" where
  "agent_says l x \<longleftrightarrow> 0 \<le> l_socket l \<and> l_connect l \<and> l_writes l \<noteq> [] \<and> 0 < hd (l_writes l) \<and>
     (\<exists>q rs. l_reads l = ReadData (wire q) # rs \<and> answers q x \<and> packet_len q \<le> length (l_mem l))"

definition agent_away :: "link \<Rightarrow> bool" where
  "agent_away l \<longleftrightarrow> l_socket l < 0 \<or> \<not> l_connect l"

lemma sendToPIAgent_answer:
  assumes "agent_says l x" "packet_ok p"
  shows "\<exists>out. sendToPIAgent l p r = Some (True, x, out)"
proof -
  obtain w ws q rs where l: "0 \<le> l_socket l" "l_connect l" "l_writes l = w # ws" "0 < w"
    "l_reads l = ReadData (wire q) # rs" and q: "answers q x" "packet_len q \<le> length (l_mem l)"
    using assms(1) by (cases "l_writes l") (auto simp: agent_says_def)
  let ?c0 = "(new_comm (l_mem l))\<lparr>ipString := ''127.0.0.1'', tcpPort := PIAGENT_PORT,
     tcpFd := l_socket l, cstate := STATE_ACTIVE, tcpState := TCPSTATE_CONNECTED\<rparr>"
  let ?c = "?c0\<lparr>listSend := [], tcpState := TCPSTATE_CONNECTED\<rparr>"
  have "sendTCP (w # ws) (?c0\<lparr>listSend := listSend ?c0 @ [p]\<rparr>) = Some (take (nat w) (wire p), RESULT_OK, ?c)"
    using sendTCP_one [OF assms(2) _ l(4), of ?c0 ws] by simp
  moreover have "recvTCP (ReadData (concat (map wire [q])) # rs) ?c = Some (RESULT_OK,
      ?c\<lparr>tcpRecvBuffer := put_at (tcpRecvBuffer ?c) 0 (concat (map wire [q])),
        listRecv := listRecv ?c @ map (received (csupport ?c)) [q]\<rparr>)"
    using q by (intro recvTCP_packets) (simp_all add: answers_def)
  ultimately show ?thesis
    using l(1,2,3,5) answers_get_int [OF q(1)]
    by (simp add: sendToPIAgent_def esf_exchange_def initializeTCPClient_def connectTCP_def Let_def)
qed

lemma sendToPIAgent_away: "agent_away l \<Longrightarrow> sendToPIAgent l p r = Some (False, r, [])"
  by (auto simp: agent_away_def sendToPIAgent_def esf_exchange_def initializeTCPClient_def connectTCP_def Let_def)

text \<open>The packets stay small.\<close>

lemma add_string_small:
  assumes "packet_ok p" "packet_len p + length s + 5 < 2 ^ 31"
  obtains i p' where "add_string s p = Some (i, p')" "packet_ok p'" "packet_len p' = packet_len p + length s + 5"
  using assms add_string_eq [of s p] that by (auto simp: packet_ok_def packet_len_def value_ok_iff)

lemma add_uint_small:
  assumes "packet_ok p" "packet_len p + 8 < 2 ^ 31"
  obtains i p' where "add_uint x p = Some (i, p')" "packet_ok p'" "packet_len p' = packet_len p + 8"
  using assms addBinary_ok [of _ "4 :: u32" p] that
  by (cases "unsignedType (psupport p)")
    (auto simp: add_uint_def add_int_def packet_ok_def packet_len_def value_ok_iff)

lemma agent_packet_small: "packet_ok (agent_packet cs cmd)" "packet_len (agent_packet cs cmd) = 20"
  by (simp_all add: agent_packet_def setCommand_def CPIPacket_def packet_ok_def packet_len_def)

fun query_small :: "query \<Rightarrow> bool" where
  "query_small (AnalyzeContent p q _ _) \<longleftrightarrow> length p + length q < 2 ^ 20"
| "query_small (AnalyzeCopy p q _ _) \<longleftrightarrow> length p + length q < 2 ^ 20"
| "query_small (NotifyFileDelete p _) \<longleftrightarrow> length p < 2 ^ 20"
| "query_small (NotifyDiskFull p q) \<longleftrightarrow> length p + length q < 2 ^ 20"

lemma ask_agent_packet:
  assumes "isRegistered st" "query_small q"
  shows "\<exists>p. packet_ok p \<and> ask_agent cs st q = map_option (\<lambda>(ok, r, out). r) (sendToPIAgent (sc_link cs) p 0)"
proof (cases q)
  case (AnalyzeContent a b pid act)
  let ?p = "agent_packet cs (if act = DeviceMan.ActionTypePrint then 2001 else if act = DeviceMan.ActionTypeUpload then 2003 else 0)"
  obtain i1 p1 where 1: "add_string a ?p = Some (i1, p1)" "packet_ok p1" "packet_len p1 = 20 + length a + 5"
    by (rule add_string_small [of ?p a]) (use assms AnalyzeContent agent_packet_small in auto)
  obtain i2 p2 where 2: "add_string b p1 = Some (i2, p2)" "packet_ok p2" "packet_len p2 = packet_len p1 + length b + 5"
    by (rule add_string_small [of p1 b]) (use assms AnalyzeContent 1 in auto)
  obtain i3 p3 where 3: "add_uint pid p2 = Some (i3, p3)" "packet_ok p3"
    by (rule add_uint_small [of p2 pid]) (use assms AnalyzeContent 1 2 in auto)
  show ?thesis using assms(1) 1(1) 2(1) 3 AnalyzeContent
    by (intro exI [of _ p3]) (simp add: analyzeFileForPreventPlus_def)
next
  case (AnalyzeCopy a b cat pid)
  obtain i1 p1 where 1: "add_string a (agent_packet cs 1701) = Some (i1, p1)" "packet_ok p1" "packet_len p1 = 20 + length a + 5"
    by (rule add_string_small [of "agent_packet cs 1701" a]) (use assms AnalyzeCopy agent_packet_small in auto)
  obtain i2 p2 where 2: "add_string b p1 = Some (i2, p2)" "packet_ok p2" "packet_len p2 = packet_len p1 + length b + 5"
    by (rule add_string_small [of p1 b]) (use assms AnalyzeCopy 1 in auto)
  obtain i3 p3 where 3: "add_uint cat p2 = Some (i3, p3)" "packet_ok p3" "packet_len p3 = packet_len p2 + 8"
    by (rule add_uint_small [of p2 cat]) (use assms AnalyzeCopy 1 2 in auto)
  obtain i4 p4 where 4: "add_uint pid p3 = Some (i4, p4)" "packet_ok p4"
    by (rule add_uint_small [of p3 pid]) (use assms AnalyzeCopy 1 2 3 in auto)
  show ?thesis using assms(1) 1(1) 2(1) 3(1) 4 AnalyzeCopy
    by (intro exI [of _ p4]) (simp add: analyzeFileForCopyPreventPlus_def)
next
  case (NotifyFileDelete a pid)
  obtain i1 p1 where 1: "add_string a (agent_packet cs 1801) = Some (i1, p1)" "packet_ok p1" "packet_len p1 = 20 + length a + 5"
    by (rule add_string_small [of "agent_packet cs 1801" a]) (use assms NotifyFileDelete agent_packet_small in auto)
  obtain i2 p2 where 2: "add_uint pid p1 = Some (i2, p2)" "packet_ok p2"
    by (rule add_uint_small [of p1 pid]) (use assms NotifyFileDelete 1 in auto)
  show ?thesis using assms(1) 1(1) 2 NotifyFileDelete by (intro exI [of _ p2]) (simp add: notifyFileDelete_def)
next
  case (NotifyDiskFull a b)
  obtain i1 p1 where 1: "add_string a (agent_packet cs 2548) = Some (i1, p1)" "packet_ok p1" "packet_len p1 = 20 + length a + 5"
    by (rule add_string_small [of "agent_packet cs 2548" a]) (use assms NotifyDiskFull agent_packet_small in auto)
  obtain i2 p2 where 2: "add_string b p1 = Some (i2, p2)" "packet_ok p2"
    by (rule add_string_small [of p1 b]) (use assms NotifyDiskFull 1 in auto)
  show ?thesis using assms(1) 1(1) 2 NotifyDiskFull by (intro exI [of _ p2]) (simp add: notifyDiskFull_def)
qed

text \<open>What the supervisor takes for the answer: that of a registered agent, else 0.\<close>

definition agent_answer :: "sv_calls \<Rightarrow> agent_stub \<Rightarrow> u32 \<Rightarrow> bool" where
  "agent_answer cs st x \<longleftrightarrow> isRegistered st \<and> agent_says (sc_link cs) x \<or>
     x = 0 \<and> (\<not> isRegistered st \<or> agent_away (sc_link cs))"

lemma ask_agent_answer:
  assumes "agent_answer cs st x" "query_small q"
  shows "ask_agent cs st q = Some x"
proof (cases "isRegistered st")
  case True
  then obtain p where p: "packet_ok p"
    "ask_agent cs st q = map_option (\<lambda>(ok, r, out). r) (sendToPIAgent (sc_link cs) p 0)"
    using ask_agent_packet [OF _ assms(2)] by blast
  show ?thesis
  proof (cases "agent_says (sc_link cs) x")
    case says: True
    then show ?thesis using sendToPIAgent_answer [OF says p(1), of 0] p(2) by auto
  next
    case False
    then show ?thesis using assms(1) True p(2) by (auto simp: agent_answer_def sendToPIAgent_away)
  qed
next
  case False
  then have "x = 0" using assms(1) by (simp add: agent_answer_def)
  then show ?thesis using False
    by (cases q) (simp_all add: analyzeFileForPreventPlus_def analyzeFileForCopyPreventPlus_def
        notifyFileDelete_def notifyDiskFull_def)
qed

subsection \<open>Requests and answers\<close>

lemma ipc_sendResponse_reply:
  assumes "listSend c = []" "\<not> bigEndian (sc_support cs)"
  shows "ipc_sendResponse cs [28] c cmd code [] =
    Some (wire (reply cmd (uint code)), c\<lparr>listSend := [], tcpState := TCPSTATE_CONNECTED\<rparr>)"
proof -
  have "(sc_support cs)\<lparr>unsignedType := False\<rparr> = (psupport CPIPacket)\<lparr>unsignedType := False\<rparr>"
    using assms(2) by (cases "sc_support cs") (simp add: CPIPacket_def support_clear_def)
  then have "ipc_sendResponse cs [28] c cmd code [] = sendResponse [28] c cmd (uint code) []"
    by (simp add: ipc_sendResponse_def sendResponse_def)
  then show ?thesis using sendResponse_reply [OF assms(1)] by simp
qed

text \<open>The agent reads the code out of the answer.\<close>

lemma answer_returns:
  assumes "0 \<le> l_socket l" "l_connect l" "l_writes l \<noteq> []" "0 < hd (l_writes l)"
    "l_reads l = ReadData (wire (reply cmd (uint code))) # rs" "28 \<le> length (l_mem l)"
    "m \<noteq> []" "length m < 2 ^ 30"
  shows "SendEventDataToPISupervisor l cmd m = Some (Some code)"
proof -
  let ?q = "reply cmd (uint code)"
  obtain w ws where w: "l_writes l = w # ws" "0 < w" using assms(3,4) by (cases "l_writes l") auto
  have q: "answers ?q code"
    using reply_sendable [of support_clear cmd "uint code"]
    by (simp add: answers_def support_clear_def) (simp add: reply_def)
  let ?p = "CPIPacket\<lparr>command := cmd, vectorValue := [\<lparr>vsize = of_nat (length m), vbytes = m\<rparr>]\<rparr>"
  obtain c where c: "exchange l ((new_comm (l_mem l))\<lparr>ipString := ''127.0.0.1'', tcpPort := PISUPERVISOR_PORT\<rparr>) ?p =
      map_option (\<lambda>(r4, c4). (r4 = RESULT_OK, c4)) (recvTCP (l_reads l) c)"
    "listRecv c = []" "csupport c = support_clear" "remainedRecvBufSize c = 0" "tcpRecvBuffer c = l_mem l"
    using exchange_sent [OF assms(1,2) w addBinary_packet(2) [OF assms(8)]] by blast
  have "recvTCP (ReadData (concat (map wire [?q])) # rs) c = Some (RESULT_OK,
      c\<lparr>tcpRecvBuffer := put_at (tcpRecvBuffer c) 0 (concat (map wire [?q])),
        listRecv := listRecv c @ map (received (csupport c)) [?q]\<rparr>)"
    using q assms(6) c by (intro recvTCP_packets) (simp_all add: answers_def reply_len)
  then have "SendToPISupervisor l ?p 0 = Some (True, code)"
    using c(2,3) answers_get_int [OF q] by (simp add: SendToPISupervisor_def c(1) assms(5))
  then show ?thesis using assms(7) by (simp add: SendEventDataToPISupervisor_def addBinary_packet [OF assms(8)])
qed

lemma as_notification_message:
  assumes "notification_ok n"
  shows "as_notification (message_bytes cmd (enc_fields (notification_fields n))) = Some (cmd, n)"
  using notification_codec.dec_enc [OF assms, of "[]"] notification_codec.of_to [of n]
  by (simp add: as_notification_def as_event_def message_bytes_def pkt)

lemma request_binary:
  assumes "request_ok (cmd, m)"
  shows "getBinary 0 (received s (request (cmd, m))) = Some m" "command (received s (request (cmd, m))) = cmd"
  using assms by (auto simp: request_ok_def received_def as_sent_def request_def intro: getBinary_at)

lemma notification_message:
  assumes "notification_ok n"
  shows "length (message_bytes cmd (enc_fields (notification_fields n))) = 2112"
    "request_ok (cmd, message_bytes cmd (enc_fields (notification_fields n)))"
  using notification_codec.enc_length [OF assms]
  by (simp_all add: request_ok_def notification_layout_def struct_size_def)

subsection \<open>The verdict on a scanned file\<close>

text \<open>The notification after the copy was made.\<close>

definition copied :: "sv_calls \<Rightarrow> notification \<Rightarrow> notification" where
  "copied cs n = (if sn_pParam n = 0 then n
     else n\<lparr>sn_czQtFilePath := qt_name (sc_date cs) (sn_nAction n = DeviceMan.ActionTypePrint) (sn_czFilePath n) (sn_czQtFilePath n)\<rparr>)"

lemma QtCopyFileUser_copied:
  assumes "length (sn_czQtFilePath (copied cs n)) < 1024"
  shows "\<exists>fs'. QtCopyFileUser cs n fs = Some (False, copied cs n, fs')"
proof (cases "sn_pParam n = 0")
  case False
  then have "copied cs n = n\<lparr>sn_czQtFilePath := qt_name (sc_date cs) (sn_nAction n = DeviceMan.ActionTypePrint)
      (sn_czFilePath n) (sn_czQtFilePath n)\<rparr>" by (simp add: copied_def)
  with False assms show ?thesis by (simp add: QtCopyFileUser_def Let_def)
qed (simp add: QtCopyFileUser_def copied_def)

text \<open>Whether the DLP agent is asked about a file at all; if not, the media control decides.\<close>

definition scan_asked :: "sv_calls \<Rightarrow> policy_man \<Rightarrow> notification \<Rightarrow> bool" where
  "scan_asked cs pm n \<longleftrightarrow>
     (if sn_nAction n = DeviceMan.ActionTypePrint then True
      else if sn_nAction n = DeviceMan.ActionTypeUpload
      then sc_exists cs (if sn_czQtFilePath (copied cs n) = [] then sn_czFilePath n else sn_czQtFilePath (copied cs n))
      else isSharedFolder (sn_nAction n) \<or>
        getCurrentDLPPolicy dlptypePreventPlus dlpsubtypeCopyPreventPlus pm \<noteq> None)"

definition scan_allowed :: "sv_calls \<Rightarrow> policy_man \<Rightarrow> notification \<Rightarrow> u32 \<Rightarrow> bool" where
  "scan_allowed cs pm n x \<longleftrightarrow>
     (if scan_asked cs pm n then x \<noteq> 1
      else sn_nAction n = DeviceMan.ActionTypeUpload \<or> \<not> isMediaControlUSBReadAllowWriteBlock pm)"

lemma FileScan_verdict:
  assumes "length (sn_czQtFilePath (copied cs n)) < 1024" "length (sn_czFilePath n) < 1024" "sn_czFilePath n \<noteq> []"
    "agent_answer cs (s_stub (sv_sup s)) x"
  shows "\<exists>fs'. JobEvent_FileScan cs True cmd_FileScan n s =
    Some (if scan_allowed cs (s_pm (sv_sup s)) n x then RESULT_ALLOW else RESULT_DENY, s\<lparr>sv_files := fs'\<rparr>)"
proof -
  let ?n1 = "copied cs n" and ?pm = "s_pm (sv_sup s)" and ?ask = "ask_agent cs (s_stub (sv_sup s))"
  let ?e = "\<lparr>evt_bAccess = False, evt_Command = cmd_FileScan, evt_ProcessId = sn_nPID n, evt_FileSize = sn_pParam n,
    evt_filePath = sn_czFilePath n, evt_qtFilePath = sn_czQtFilePath ?n1, evt_ullReserved = sn_nAction n\<rparr>"
  have content: "?ask (AnalyzeContent p (sn_czFilePath n) pid act) = Some x"
    if "p \<in> {sn_czFilePath n, sn_czQtFilePath ?n1}" for p pid act
    by (rule ask_agent_answer [OF assms(4)]) (use that assms(1,2) in auto)
  have copy: "?ask (AnalyzeCopy (sn_czFilePath n) (sn_czQtFilePath ?n1) cat pid) = Some x" for pid cat
    by (rule ask_agent_answer [OF assms(4)]) (use assms(1,2) in auto)
  have pu: "DeviceMan.ActionTypePrint \<noteq> DeviceMan.ActionTypeUpload" by (simp add: DeviceMan.ActionTypePrint_def DeviceMan.ActionTypeUpload_def)
  have "smartdrvFileScan ?ask (sc_exists cs) ?pm ?e = Some (?e\<lparr>evt_bAccess := scan_allowed cs ?pm n x\<rparr>)"
    using assms(3) content copy pu
    by (auto simp: smartdrvFileScan_def scan_allowed_def scan_asked_def Let_def simp del: ask_agent.simps)
  moreover obtain fs' where "QtCopyFileUser cs n (sv_files s) = Some (False, ?n1, fs')"
    using QtCopyFileUser_copied [OF assms(1)] by blast
  ultimately show ?thesis
    by (intro exI [of _ fs']) (simp add: JobEvent_FileScan_def file_event_def Let_def del: ask_agent.simps)
qed

lemma scan_request:
  assumes "notification_ok n" "JobEvent_FileScan cs True cmd_FileScan n s = Some (code, s')"
    and "listSend c = []" "\<not> bigEndian (sc_support cs)"
  shows "ipc_parseClientPacket cs True [28] (received (csupport c)
      (request (cmd_FileScan, message_bytes cmd_FileScan (enc_fields (notification_fields n))))) c s =
    Some (wire (reply cmd_FileScan (uint code)), c\<lparr>listSend := [], tcpState := TCPSTATE_CONNECTED\<rparr>, s')"
  using assms(2) ipc_sendResponse_reply [OF assms(3,4)] request_binary [OF notification_message(2) [OF assms(1)]]
    as_notification_message [OF assms(1)]
  by (simp add: ipc_parseClientPacket_def ipc_processPacket_def ipc_job_def cmd_FileScan_def cmd_SmartLogNotify_def
      cmd_FileDelete_def)

lemma scan_answered:
  assumes "notification_ok n" and "sn_czFilePath n \<noteq> []" and "length (sn_czQtFilePath (copied cs n)) < 1024"
    and "isRegistered (s_stub (sv_sup s))" and "agent_says (sc_link cs) x"
    and "\<not> bigEndian (sc_support cs)" and "listSend c = []"
  defines "m \<equiv> message_bytes cmd_FileScan (enc_fields (notification_fields n))"
    and "verdict \<equiv> if scan_allowed cs (s_pm (sv_sup s)) n x then RESULT_ALLOW else RESULT_DENY"
  shows "\<exists>out c' fs'.
    ipc_parseClientPacket cs True [28] (received (csupport c) (request (cmd_FileScan, m))) c s =
      Some (out, c', s\<lparr>sv_files := fs'\<rparr>) \<and>
    (\<forall>l. 0 \<le> l_socket l \<and> l_connect l \<and> l_writes l = [2136] \<and> l_reads l = [ReadData out] \<and>
       28 \<le> length (l_mem l) \<longrightarrow> SendEventDataToPISupervisor l cmd_FileScan m = Some (Some verdict))"
proof -
  have "length (sn_czFilePath n) < 1024" using assms(1) by (simp add: notification_ok_def name_ok_def)
  moreover have "agent_answer cs (s_stub (sv_sup s)) x" using assms(4,5) by (simp add: agent_answer_def)
  ultimately obtain fs' where "JobEvent_FileScan cs True cmd_FileScan n s = Some (verdict, s\<lparr>sv_files := fs'\<rparr>)"
    using FileScan_verdict [OF assms(3) _ assms(2)] unfolding verdict_def by blast
  note r = scan_request [OF assms(1) this assms(7,6), folded m_def]
  have "length m = 2112" using notification_message(1) [OF assms(1)] by (simp add: m_def)
  then have "SendEventDataToPISupervisor l cmd_FileScan m = Some (Some verdict)"
    if "0 \<le> l_socket l" "l_connect l" "l_writes l = [2136]"
      "l_reads l = [ReadData (wire (reply cmd_FileScan (uint verdict)))]" "28 \<le> length (l_mem l)" for l
    using that by (intro answer_returns) auto
  with r show ?thesis by blast
qed

subsection \<open>Properties\<close>

text \<open>The question of the agent and its answer. For a file the agent wants scanned, what the
  supervisor writes back makes the agent store exactly the verdict: where the DLP agent is asked at
  all, the file is denied if and only if the DLP agent answers 1; where it is not asked, the media
  control decides. Nothing else of the supervisor changes but the copy of the file.\<close>

theorem scan_verdict_returned:
  assumes "notification_ok n" and "sn_czFilePath n \<noteq> []" and "length (sn_czQtFilePath (copied cs n)) < 1024"
    and "isRegistered (s_stub (sv_sup s))" and "agent_says (sc_link cs) x"
    and "\<not> bigEndian (sc_support cs)" and "listSend c = []"
  defines "m \<equiv> message_bytes cmd_FileScan (enc_fields (notification_fields n))"
    and "verdict \<equiv> if scan_allowed cs (s_pm (sv_sup s)) n x then RESULT_ALLOW else RESULT_DENY"
  shows "\<exists>out c' fs'.
    ipc_parseClientPacket cs True [28] (received (csupport c) (request (cmd_FileScan, m))) c s =
      Some (out, c', s\<lparr>sv_files := fs'\<rparr>) \<and>
    (\<forall>l. 0 \<le> l_socket l \<and> l_connect l \<and> l_writes l = [2136] \<and> l_reads l = [ReadData out] \<and>
       28 \<le> length (l_mem l) \<longrightarrow> SendEventDataToPISupervisor l cmd_FileScan m = Some (Some verdict))"
  unfolding m_def verdict_def using scan_answered [OF assms(1-7)] .

text \<open>C39: Without the DLP agent. An agent that is not registered, or whose port cannot be reached,
  counts as the answer 0: every file that would have been inspected is allowed, whatever its
  content. The link between agent and supervisor does the opposite (a silent supervisor denies).\<close>

theorem unreachable_agent_allows:
  assumes "length (sn_czQtFilePath (copied cs n)) < 1024" and "length (sn_czFilePath n) < 1024"
    and "sn_czFilePath n \<noteq> []" and "scan_asked cs (s_pm (sv_sup s)) n"
    and "\<not> isRegistered (s_stub (sv_sup s)) \<or> agent_away (sc_link cs)"
  shows "\<exists>fs'. JobEvent_FileScan cs True cmd_FileScan n s = Some (RESULT_ALLOW, s\<lparr>sv_files := fs'\<rparr>)"
proof -
  have "agent_answer cs (s_stub (sv_sup s)) 0" using assms(5) by (auto simp: agent_answer_def)
  from FileScan_verdict [OF assms(1-3) this] show ?thesis using assms(4) by (simp add: scan_allowed_def)
qed

text \<open>C40: A log record of the agent arrives in the queue of the supervisor's log thread as the log
  \<open>smartdrvSmartLogNotify\<close> makes of it, and the agent is answered 0.\<close>

theorem log_record_queued:
  assumes "name_ok 32 t" and "name_ok 260 (lr_ProcName r)" and "name_ok 260 (lr_FileName r)"
    and "\<not> bigEndian (sc_support cs)" and "listSend c = []"
  shows "ipc_parseClientPacket cs True [28] (received (csupport c)
      (request (cmd_SmartLogNotify, message_bytes cmd_SmartLogNotify (log_bytes t r)))) c s =
    Some (wire (reply cmd_SmartLogNotify 0), c\<lparr>listSend := [], tcpState := TCPSTATE_CONNECTED\<rparr>,
      case smartdrvSmartLogNotify (s_pm (sv_sup s)) (sc_now cs) r of None \<Rightarrow> s
      | Some d \<Rightarrow> s\<lparr>sv_logs := (sv_logs s)\<lparr>lg_sig := True, lg_queue := lg_queue (sv_logs s) @ [d]\<rparr>\<rparr>)"
proof -
  let ?m = "message_bytes cmd_SmartLogNotify (log_bytes t r)"
  have "length (log_bytes t r) = 610"
    using enc_fields_length [of "[F32 610, F32 (lr_PolicyType r), F32 602, F32 (lr_AccessType r), F32 0, F32 0, FStr 32 t]"]
      enc_fields_length [of "[F32 0, F32 0, F32 0, F64 0, F64 (lr_bDisableResult r), F32 (lr_ProcessId r),
        FStr 260 (lr_ProcName r), FStr 260 (lr_FileName r)]"] assms(1-3)
    by (simp add: log_bytes_def name_ok_def struct_size_def)
  then have "request_ok (cmd_SmartLogNotify, ?m)" by (simp add: request_ok_def)
  note b = request_binary [OF this]
  have "as_event ?m = Some (cmd_SmartLogNotify, log_bytes t r)" by (simp add: as_event_def message_bytes_def pkt)
  with b log_of_bytes_log_bytes [OF assms(1-3)] ipc_sendResponse_reply [OF assms(5,4), of cmd_SmartLogNotify 0]
  show ?thesis
    by (simp add: ipc_parseClientPacket_def ipc_processPacket_def ipc_job_def cmd_SmartLogNotify_def cmd_FileScan_def
        cmd_FileDelete_def JobEvent_SmartLogNotify_def addDeviceLog_def split: option.split)
qed

subsection \<open>Examples\<close>

definition shared_file :: notification where
  "shared_file = \<lparr>sn_nSize = 2104, sn_nAction = 0x21, sn_nResult = 0, sn_nPID = 55, sn_pVnode = 0, sn_pWakeup = 0,
     sn_pParam = 0, sn_pParam02 = 0, sn_pParam03 = 0, sn_czFilePath = ''/mnt/s/a.txt'', sn_czQtFilePath = []\<rparr>"

definition sample_calls :: "link \<Rightarrow> sv_calls" where
  "sample_calls l = \<lparr>sc_env = idle_env, sc_now = 7, sc_support = support_clear, sc_link = l, sc_exists = (\<lambda>_. True),
     sc_date = ''2024-01-01'', sc_openQt = True, sc_malloc = True, sc_openSrc = True, sc_read = 0, sc_write = 0,
     sc_fresh = [], sc_unlink = True\<rparr>"

definition sample_service :: "int \<Rightarrow> service" where
  "sample_service pid = \<lparr>sv_sup = (sup_boot idle_man)\<lparr>s_stub := stub_clear\<lparr>as_pid := pid\<rparr>\<rparr>, sv_logs = log_boot,
     sv_files = (\<lambda>_. None)\<rparr>"

lemma shared_file_facts:
  "notification_ok shared_file" "sn_czFilePath shared_file \<noteq> []" "copied cs shared_file = shared_file"
  "scan_asked cs pm shared_file" "length (sn_czQtFilePath shared_file) < 1024" "length (sn_czFilePath shared_file) < 1024"
  by (simp_all add: shared_file_def notification_ok_def name_ok_def copied_def scan_asked_def isSharedFolder_def
      DeviceMan.ActionTypePrint_def DeviceMan.ActionTypeUpload_def)

lemma deny_answers: "answers deny_packet 1" "packet_len deny_packet \<le> 100"
  by (simp_all add: answers_def sendable_def deny_packet_def CPIPacket_def packet_ok_def value_ok_iff packet_len_def)

theorem scan_verdict_returned_witness:
  "\<exists>out c' fs'. ipc_parseClientPacket (sample_calls SupervisorLink.sample_link) True [28]
      (received (csupport sample_client) (request (cmd_FileScan,
        message_bytes cmd_FileScan (enc_fields (notification_fields shared_file))))) sample_client (sample_service 812) =
      Some (out, c', (sample_service 812)\<lparr>sv_files := fs'\<rparr>) \<and>
    SendEventDataToPISupervisor (SupervisorLink.sample_link\<lparr>l_writes := [2136], l_reads := [ReadData out]\<rparr>) cmd_FileScan
      (message_bytes cmd_FileScan (enc_fields (notification_fields shared_file))) = Some (Some RESULT_DENY)"
proof -
  have "agent_says SupervisorLink.sample_link 1"
    unfolding agent_says_def using deny_answers by (auto simp: SupervisorLink.sample_link_def)
  moreover have "isRegistered (s_stub (sv_sup (sample_service 812)))"
    by (simp add: sample_service_def isRegistered_def)
  ultimately show ?thesis
    using scan_verdict_returned [of shared_file "sample_calls SupervisorLink.sample_link" "sample_service 812" 1 sample_client]
      shared_file_facts
    by (fastforce simp: sample_calls_def sample_client_def support_clear_def scan_allowed_def SupervisorLink.sample_link_def)
qed

theorem unreachable_agent_allows_witness:
  "\<exists>fs'. JobEvent_FileScan (sample_calls SupervisorLink.sample_link) True cmd_FileScan shared_file (sample_service 0) =
    Some (RESULT_ALLOW, (sample_service 0)\<lparr>sv_files := fs'\<rparr>)"
  by (rule unreachable_agent_allows)
    (simp_all add: shared_file_facts sample_service_def isRegistered_def stub_clear_def)

definition copy_log :: log_record where
  "copy_log = \<lparr>lr_PolicyType = 1, lr_AccessType = 1, lr_LogType = 2, lr_LogAction = 0x10, lr_bDisableResult = 0,
     lr_ProcessId = 55, lr_ProcName = ''cp'', lr_FileName = ''/mnt/c/a''\<rparr>"

theorem log_record_queued_witness:
  "\<exists>d. ipc_parseClientPacket (sample_calls SupervisorLink.sample_link) True [28] (received (csupport sample_client)
      (request (cmd_SmartLogNotify, message_bytes cmd_SmartLogNotify (log_bytes ''t'' copy_log)))) sample_client (sample_service 1) =
    Some (wire (reply cmd_SmartLogNotify 0), sample_client\<lparr>listSend := [], tcpState := TCPSTATE_CONNECTED\<rparr>,
      (sample_service 1)\<lparr>sv_logs := log_boot\<lparr>lg_sig := True, lg_queue := [d]\<rparr>\<rparr>) \<and> dl_fileName d = ''/mnt/c/a''"
proof -
  have n: "name_ok 32 ''t''" "name_ok 260 (lr_ProcName copy_log)" "name_ok 260 (lr_FileName copy_log)"
    by (simp_all add: name_ok_def copy_log_def)
  have c: "listSend sample_client = []" "\<not> bigEndian (sc_support (sample_calls SupervisorLink.sample_link))"
    by (simp_all add: sample_client_def sample_calls_def support_clear_def)
  have "\<exists>d. smartdrvSmartLogNotify pm now copy_log = Some d \<and> dl_fileName d = ''/mnt/c/a''" for pm now
    by (simp add: smartdrvSmartLogNotify_def adjustSmartLog_def keeps_log_def isMediaControlLog_def copy_log_def
        GET_STORDEVICETYPE_def MEDIA_USB_def MEDIA_COPYPREVENT_def MEDIA_PROCESS_def LOG_FILEOP_def setDeviceName_def
        EXCEPT_FLAG_POLCY_def MEDIA_CAMERA_def MEDIA_RNDIS_def MEDIA_AIRDROP_def Let_def)
  then obtain d where "smartdrvSmartLogNotify (s_pm (sv_sup (sample_service 1)))
      (sc_now (sample_calls SupervisorLink.sample_link)) copy_log = Some d" "dl_fileName d = ''/mnt/c/a''" by blast
  moreover have "sv_logs (sample_service 1) = log_boot" by (simp add: sample_service_def)
  ultimately show ?thesis
    using log_record_queued [OF n c(2,1), of "sample_service 1"] by (auto simp: log_boot_def)
qed

end
