(* ===== verification/ScanChain.thy ===== *)
theory ScanChain
  imports ScanService
begin

text \<open>
  The question about a closed file, all the way: the agent finds that the file is to be inspected and
  lays out the question (\<open>UserModeTo_FileScan\<close>, \<open>PIKern/kauth_listener.cpp\<close>), the supervisor parses it,
  asks the DLP agent and writes its answer, the agent reads it and keeps the file or requests its
  deletion. The components are those of \<open>Agent\<close>, \<open>SupervisorLink\<close> and \<open>ScanService\<close>; here they meet.
\<close>

subsection \<open>The question on the wire\<close>

text \<open>The notification \<open>UserModeTo_FileScan\<close> fills in; the two pointers in it are numbers nobody
  looks at. The memory of the message is cleared when it is allocated.\<close>

definition scan_notification :: "u64 \<times> u64 \<Rightarrow> u64 \<Rightarrow> u32 \<Rightarrow> u32 \<Rightarrow> string \<Rightarrow> string \<Rightarrow> notification" where
  "scan_notification ptrs fileSize act pid path qt =
     \<lparr>sn_nSize = of_nat SIZEOF_SCANNER_NOTIFICATION, sn_nAction = act, sn_nResult = 0, sn_nPID = pid,
      sn_pVnode = fst ptrs, sn_pWakeup = snd ptrs, sn_pParam = fileSize, sn_pParam02 = 0, sn_pParam03 = 0,
      sn_czFilePath = path, sn_czQtFilePath = qt\<rparr>"

text \<open>The supervisor at the other end when an event arrives, and the agent's connection to it.\<close>

record sup_end =
  se_calls :: sv_calls
  se_comm :: comm
  se_service :: service
  se_link :: link

text \<open>A message and its answer. The message is written whole, and so is the answer, which arrives in
  one read; \<open>None\<close> when there is none.\<close>

definition ask_supervisor :: "sup_end \<Rightarrow> u32 \<Rightarrow> u8 list \<Rightarrow> u32 option" where
  "ask_supervisor x cmd m = do {
     (out, c', s') \<leftarrow> ipc_parseClientPacket (se_calls x) True [28] (received (csupport (se_comm x)) (request (cmd, m)))
        (se_comm x) (se_service x);
     r \<leftarrow> SendEventDataToPISupervisor
        ((se_link x)\<lparr>l_writes := [int (packet_len (request (cmd, m)))], l_reads := [ReadData out]\<rparr>) cmd m;
     r
   }"

text \<open>The agent's questions go to the supervisor, which may be in another state after each history of
  events.\<close>

definition connected :: "kenv \<Rightarrow> (event list \<Rightarrow> sup_end) \<Rightarrow> u64 \<times> u64 \<Rightarrow> bool" where
  "connected env ends ptrs \<longleftrightarrow> (\<forall>h act pid path qt.
     k_ask env h (FileScanEvent act pid path qt) = ask_supervisor (ends h) cmd_FileScan
       (message_bytes cmd_FileScan (enc_fields (notification_fields
         (scan_notification ptrs (GetFileSize env path) act pid path qt)))))"

text \<open>A supervisor that can be reached, with a registered DLP agent that answers \<open>x\<close>.\<close>

definition answering :: "sup_end \<Rightarrow> u32 \<Rightarrow> bool" where
  "answering e x \<longleftrightarrow> isRegistered (s_stub (sv_sup (se_service e))) \<and> agent_says (sc_link (se_calls e)) x \<and>
     \<not> bigEndian (sc_support (se_calls e)) \<and> listSend (se_comm e) = [] \<and> length (sc_date (se_calls e)) = 10 \<and>
     0 \<le> l_socket (se_link e) \<and> l_connect (se_link e) \<and> 28 \<le> length (l_mem (se_link e))"

definition allows :: "sup_end \<Rightarrow> u32 \<Rightarrow> notification \<Rightarrow> bool" where
  "allows e x n \<longleftrightarrow> scan_allowed (se_calls e) (s_pm (sv_sup (se_service e))) n x"

lemma ask_supervisor_verdict:
  assumes "answering e x" and "notification_ok n" and "sn_czFilePath n \<noteq> []"
    and "length (sn_czQtFilePath (copied (se_calls e) n)) < 1024"
  shows "ask_supervisor e cmd_FileScan (message_bytes cmd_FileScan (enc_fields (notification_fields n))) =
    Some (if allows e x n then RESULT_ALLOW else RESULT_DENY)"
proof -
  let ?m = "message_bytes cmd_FileScan (enc_fields (notification_fields n))"
  have len: "packet_len (request (cmd_FileScan, ?m)) = 2136"
    using request_len [of "(cmd_FileScan, ?m)"] notification_message(1) [OF assms(2)] by simp
  obtain out c' fs' where o: "ipc_parseClientPacket (se_calls e) True [28]
        (received (csupport (se_comm e)) (request (cmd_FileScan, ?m))) (se_comm e) (se_service e) =
      Some (out, c', (se_service e)\<lparr>sv_files := fs'\<rparr>)"
    and a: "\<And>l. 0 \<le> l_socket l \<and> l_connect l \<and> l_writes l = [2136] \<and> l_reads l = [ReadData out] \<and>
       28 \<le> length (l_mem l) \<Longrightarrow> SendEventDataToPISupervisor l cmd_FileScan ?m =
         Some (Some (if allows e x n then RESULT_ALLOW else RESULT_DENY))"
    using scan_answered [of n "se_calls e" "se_service e" x "se_comm e"] assms
    unfolding answering_def allows_def by metis
  show ?thesis
    using assms(1) by (simp add: ask_supervisor_def o a len answering_def)
qed

subsection \<open>The names in the question\<close>

lemma decimal_no_NUL: "NUL \<notin> set (KauthListener.decimal n)"
proof (induction n rule: KauthListener.decimal.induct)
  case (1 n)
  have d: "char_of (48 + m) \<noteq> NUL" if "m < 10" for m :: nat
  proof
    assume "char_of (48 + m) = NUL"
    then have "of_char (char_of (48 + m)) = (of_char NUL :: nat)" by (rule arg_cong)
    then show False using that by simp
  qed
  show ?case
  proof (cases "n < 10")
    case True
    then show ?thesis using d [of n] by (subst KauthListener.decimal.simps) auto
  next
    case False
    then show ?thesis using d [of "n mod 10"] 1 by (subst KauthListener.decimal.simps) auto
  qed
qed

lemma decimal_length: "n < 10 ^ k \<Longrightarrow> 0 < k \<Longrightarrow> length (KauthListener.decimal n) \<le> k"
proof (induction k arbitrary: n)
  case (Suc k)
  show ?case
  proof (cases "n < 10")
    case True
    then show ?thesis by (subst KauthListener.decimal.simps) simp
  next
    case False
    then have "k \<noteq> 0" using Suc.prems(1) by (cases k) auto
    moreover have "n div 10 < 10 ^ k" using Suc.prems(1) by (simp add: less_mult_imp_div_less mult.commute)
    ultimately show ?thesis using Suc.IH [of "n div 10"] False by (subst KauthListener.decimal.simps) simp
  qed
qed simp

lemma quarantine_name_ok:
  assumes "NUL \<notin> set path" and "NUL \<notin> set (czBuffer (Entry (QtCtx k) ! 0))" and "length path < 260"
    and "length (czBuffer (Entry (QtCtx k) ! 0)) \<le> 400" and "k_now env < 10 ^ 18"
  shows "length (quarantine_name env path pt k) < 700 \<and> NUL \<notin> set (quarantine_name env path pt k)"
proof -
  have d: "length (decimal12 (k_now env)) \<le> 18" "NUL \<notin> set (decimal12 (k_now env))"
    using decimal_length [OF assms(5)] decimal_no_NUL by (auto simp: decimal12_def)
  have t: "NUL \<notin> set (drop j (drop i path))" "NUL \<notin> set (tl (drop i path))"
      "length (drop j (drop i path)) < 260" "length (tl (drop i path)) < 260" for i j
    using assms(1,3) by (auto simp: drop_Suc [symmetric] tl_drop simp flip: drop_drop dest: in_set_dropD)
  define dir where "dir = czBuffer (Entry (QtCtx k) ! 0)"
  have cut: "length (take n w) < 700 \<and> NUL \<notin> set (take n w)" if "length w < 700" "NUL \<notin> set w" for n w
    using that by (auto dest: in_set_takeD)
  have w: "length (dir @ ''/Print/'' @ decimal12 (k_now env) @ ''_'' @ tl (drop i path)) < 700 \<and>
      NUL \<notin> set (dir @ ''/Print/'' @ decimal12 (k_now env) @ ''_'' @ tl (drop i path))"
    "length (dir @ ''/'' @ decimal12 (k_now env)) < 700 \<and> NUL \<notin> set (dir @ ''/'' @ decimal12 (k_now env))"
    "length (dir @ ''/'' @ decimal12 (k_now env) @ drop j (drop i path)) < 700 \<and>
      NUL \<notin> set (dir @ ''/'' @ decimal12 (k_now env) @ drop j (drop i path))" for i j
    using d t(1,2) t(3) [of j i] t(4) [of i] assms(2,4) by (auto simp: dir_def)
  show ?thesis
  proof (cases "QtFetchValidPath path MAX_FILE_LENGTH pt dir (k_now env)")
    case None
    then show ?thesis by (simp add: quarantine_name_def dir_def)
  next
    case (Some q)
    then obtain w where "q = take (MAX_FILE_LENGTH - 1) w" "length w < 700 \<and> NUL \<notin> set w"
      unfolding QtFetchValidPath_def Let_def using w
      by (simp only: split: option.splits if_splits) blast+
    then show ?thesis using cut Some by (simp add: quarantine_name_def dir_def)
  qed
qed

lemma copied_short:
  assumes "length (sc_date cs) = 10" and "length (sn_czQtFilePath n) < 700" and "length (sn_czFilePath n) < 260"
  shows "length (sn_czQtFilePath (copied cs n)) < 1024"
proof -
  define pr where "pr = (sn_nAction n = DeviceMan.ActionTypePrint)"
  have q: "length (qt_name (sc_date cs) pr path qt) \<le> length qt + 15 + length path"
    if "length (sc_date cs) = 10" for path qt
  proof (cases "last_part path")
    case (Some token)
    have "length (takeWhile (\<lambda>c. c \<noteq> CHR ''/'') (rev path)) < length (rev path)"
      using Some by (subst length_takeWhile_less_iff) (auto simp: last_part_def split: if_splits)
    then have "length token \<le> length path" using Some by (auto simp: last_part_def split: if_splits)
    then have "length (dropWhile (\<lambda>c. c \<noteq> CHR ''.'') token) \<le> length path"
      using length_dropWhile_le le_trans by blast
    then show ?thesis using that Some by (simp add: qt_name_def)
  qed (simp add: qt_name_def)
  show ?thesis
    using q [OF assms(1), of "sn_czFilePath n" "sn_czQtFilePath n"] assms(2,3)
    by (simp add: copied_def pr_def)
qed

text \<open>The question of the agent about a file.\<close>

definition question :: "u64 \<times> u64 \<Rightarrow> kenv \<Rightarrow> u32 \<Rightarrow> string \<Rightarrow> u32 \<Rightarrow> drv_kext \<Rightarrow> notification" where
  "question ptrs env pid path pt k = scan_notification ptrs (GetFileSize env path) (scan_action path pt k) pid path
     (quarantine_name env path pt k)"

lemma question_answered:
  assumes "connected env ends ptrs" and "answering (ends h) x" and "path \<noteq> []" and "length path < 260"
    and "NUL \<notin> set path" and "NUL \<notin> set (czBuffer (Entry (QtCtx k) ! 0))"
    and "length (czBuffer (Entry (QtCtx k) ! 0)) \<le> 400" and "k_now env < 10 ^ 18"
  shows "k_ask env h (scan_event env pid path pt k) =
    Some (if allows (ends h) x (question ptrs env pid path pt k) then RESULT_ALLOW else RESULT_DENY)"
proof -
  let ?n = "question ptrs env pid path pt k"
  note q = quarantine_name_ok [OF assms(5,6,4,7,8), of pt]
  have "notification_ok ?n" "sn_czFilePath ?n \<noteq> []"
    using q assms(3-5) by (simp_all add: notification_ok_def name_ok_def question_def scan_notification_def)
  moreover have "length (sn_czQtFilePath (copied (se_calls (ends h)) ?n)) < 1024"
    using q assms(2,4) by (intro copied_short) (simp_all add: answering_def question_def scan_notification_def)
  ultimately show ?thesis
    using ask_supervisor_verdict [OF assms(2), of ?n] assms(1)
    by (simp add: connected_def scan_event_def question_def)
qed

subsection \<open>Properties\<close>


subsection \<open>Example\<close>

text \<open>A copy policy, a DLP agent that answers 1, an agent that is connected to this supervisor.\<close>

definition copy_policy :: dlp_policy where
  "copy_policy = policy_of (PolicyCopy clear_prevent_plus new_copy_part)"

definition denying_end :: sup_end where
  "denying_end = \<lparr>se_calls = sample_calls SupervisorLink.sample_link, se_comm = sample_client,
     se_service = (sample_service 812)\<lparr>sv_sup := (sup_boot idle_man)\<lparr>s_pm := online_man [copy_policy],
       s_stub := stub_clear\<lparr>as_pid := 812\<rparr>\<rparr>\<rparr>, se_link = SupervisorLink.sample_link\<rparr>"

definition env_denied :: kenv where
  "env_denied = env0\<lparr>k_ask := \<lambda>h e. case e of FileScanEvent act pid path qt \<Rightarrow>
       ask_supervisor denying_end cmd_FileScan (message_bytes cmd_FileScan (enc_fields (notification_fields
         (scan_notification (0, 0) (GetFileSize env0 path) act pid path qt))))
     | _ \<Rightarrow> Some 1\<rparr>"

definition inspect_policy :: attached_device_ex where
  "inspect_policy = \<lparr>cDevice = \<lparr>bLoggingOn = 0, bDisableAll = 0, bDisableRead = 0, bDisableWrite = 1,
     nReserved1 = -1, DeviceNames = []\<rparr>, ulStorDevType = 8\<rparr>"

definition quarantine_message :: command_message where
  "quarantine_message = \<lparr>Size = 8, Command = cmd_SetQuarantinePathExt, Data = QtInfo
     \<lparr>bQtLimit = 0, ulCount = 1, Entry = replicate MAX_QT_COUNT \<lparr>ulQtType = 0, czBuffer = ''/q''\<rparr>\<rparr>\<rparr>"

lemma env_denied_facts:
  "k_mem env_denied" "GetFileSize env_denied path = GetFileSize env0 path" "k_now env_denied = 0"
  "path \<noteq> [] \<Longrightarrow> GetFileSize env_denied path = 10" "connected env_denied (\<lambda>_. denying_end) (0, 0)"
  by (simp_all add: env_denied_def env0_def GetFileSize_def connected_def)

lemma denying_end_facts: "answering denying_end 1" "\<not> allows denying_end 1 n"
proof -
  have "agent_says SupervisorLink.sample_link 1"
    unfolding agent_says_def using deny_answers by (auto simp: SupervisorLink.sample_link_def)
  then show "answering denying_end 1"
    by (simp add: answering_def denying_end_def isRegistered_def sample_calls_def sample_client_def support_clear_def)
      (simp add: SupervisorLink.sample_link_def)
  have "getCurrentDLPPolicy dlptypePreventPlus dlpsubtypeCopyPreventPlus (online_man [copy_policy]) \<noteq> None"
    by (simp add: getCurrentDLPPolicy_def copy_policy_def policy_of_def getDLPPolicy_def is_copy_def dlp)
  then show "\<not> allows denying_end 1 n"
    by (simp add: allows_def scan_allowed_def scan_asked_def denying_end_def sample_calls_def)
qed

lemma inspected_file:
  "\<exists>a. reachable env_denied a \<and> close_verdict (base_name ''/bin/cp'') ''/mnt/usb/a.doc'' a = Inspect \<and>
     czBuffer (Entry (QtCtx (kx a)) ! 0) = ''/q''"
proof -
  obtain a where a: "reachable env_denied a" "volumes (kx a) = [usb_volume]" "policies (kx a) = [inspect_policy]"
      "excepts (kx a) = []" "DrvPolicy.controls (kx a) = entries (kx a)" "nAllowFolder (kx a) = 0"
    using usb_reached_by [OF env_denied_facts(1)] by blast
  define k where "k = (kx a)\<lparr>QtCtx := (QtCtx (kx a))\<lparr>Entry := replicate MAX_QT_COUNT \<lparr>ulQtType = 0, czBuffer = ''/q''\<rparr>,
    ulCount := 1\<rparr>\<rparr>"
  let ?a = "a\<lparr>kx := k\<rparr>"
  have "handle env_denied (Message quarantine_message) a = Some ?a"
    by (simp add: SmartCmd_Parser_CM_def quarantine_message_def cmd_defs SmartCmd_SetQtPathExt_def bad_message_def k_def)
  moreover have "input_ok (Message quarantine_message) a" by (simp add: msg_ok_def quarantine_message_def)
  ultimately have r: "reachable env_denied ?a" using reachable.step [OF a(1)] agent_step.intros by blast
  have "entries k = entries (kx a)" by (rule entries_cong) (simp_all add: k_def)
  then have t: "volumes (kx ?a) = [usb_volume]" "policies (kx ?a) = [inspect_policy]" "excepts (kx ?a) = []"
      "DrvPolicy.controls (kx ?a) = entries (kx ?a)" "nAllowFolder (kx ?a) = 0"
    using a by (simp_all add: k_def table_defs)
  note f = usb_file [OF t]
  have i: "ulStorDevType inspect_policy = 8" "dev_active inspect_policy"
    by (simp_all add: inspect_policy_def dev_active_def)
  have "copy_verdict ''/mnt/usb/a.doc'' (kx ?a) = Inspect"
    using f(1,2) [OF i] by (simp add: copy_verdict_def write_blocked_def write_allowed_def copy_inspected_def on_device_def
        device_tests with_name_def inspect_policy_def)
  then have "close_verdict (base_name ''/bin/cp'') ''/mnt/usb/a.doc'' ?a = Inspect"
    using f(3) [OF i] by (simp add: close_verdict_def)
  moreover have "czBuffer (Entry (QtCtx k) ! 0) = ''/q''" by (simp add: k_def MAX_QT_COUNT_def)
  ultimately show ?thesis using r by (intro exI [of _ ?a]) simp
qed


end
