(* ===== verification/Markup.thy ===== *)
theory Markup
  imports Utility
begin

text \<open>
  Reading a document with \<open>CMarkup\<close> (\<open>PISupervisor/common/src/Markup.cpp\<close>, \<open>Markup.h\<close>) and \<open>CPIXmlParser\<close>: the
  operations that move through a parsed document and read it. The document is a tree; a position
  is the path to the parent element, the index of the main element among its children and that of
  the child element among the children of the main one, \<open>None\<close> where \<open>CMarkup\<close> keeps 0. How text
  becomes a tree is not modelled. At the end what a loop over elements computes, as a fold over the tree.
\<close>

subsection \<open>The document and a position in it\<close>

datatype xml = Elem (tag: string) (attrs: "(string \<times> string) list") (text_of: string) (kids: "xml list")

record markup =
  mk_roots :: "xml list"
  mk_parent :: "nat list"
  mk_pos :: "nat option"
  mk_child :: "nat option"

fun kids_at :: "xml list \<Rightarrow> nat list \<Rightarrow> xml list" where
  "kids_at ks [] = ks"
| "kids_at ks (i # p) = (if i < length ks then kids_at (kids (ks ! i)) p else [])"

definition siblings :: "markup \<Rightarrow> xml list" where
  "siblings m = kids_at (mk_roots m) (mk_parent m)"

definition nth_elem :: "xml list \<Rightarrow> nat option \<Rightarrow> xml option" where
  "nth_elem ks p = (case p of None \<Rightarrow> None | Some i \<Rightarrow> if i < length ks then Some (ks ! i) else None)"

definition main_elem :: "markup \<Rightarrow> xml option" where
  "main_elem m = nth_elem (siblings m) (mk_pos m)"

definition main_kids :: "markup \<Rightarrow> xml list" where
  "main_kids m = (case main_elem m of None \<Rightarrow> [] | Some e \<Rightarrow> kids e)"

definition child_elem :: "markup \<Rightarrow> xml option" where
  "child_elem m = nth_elem (main_kids m) (mk_child m)"

text \<open>The value of an attribute is empty where there is none; so is the text of an element that has
  elements in it.\<close>

definition attr :: "xml \<Rightarrow> string \<Rightarrow> string" where
  "attr e a = (case map_of (attrs e) a of None \<Rightarrow> [] | Some v \<Rightarrow> v)"

definition data_of :: "xml \<Rightarrow> string" where
  "data_of e = (if kids e = [] then text_of e else [])"

subsection \<open>The operations\<close>

fun find_tag :: "string \<Rightarrow> xml list \<Rightarrow> nat \<Rightarrow> nat option" where
  "find_tag t [] i = None"
| "find_tag t (k # ks) i = (if tag k = t then Some i else find_tag t ks (Suc i))"

definition after :: "nat option \<Rightarrow> nat" where
  "after p = (case p of None \<Rightarrow> 0 | Some i \<Rightarrow> Suc i)"

text \<open>The next sibling with a name; without a name the next sibling.\<close>

definition x_FindElem :: "string option \<Rightarrow> xml list \<Rightarrow> nat option \<Rightarrow> nat option" where
  "x_FindElem name ks p =
     (case name of None \<Rightarrow> if after p < length ks then Some (after p) else None
      | Some t \<Rightarrow> find_tag t (drop (after p) ks) (after p))"

definition FindElem :: "string \<Rightarrow> markup \<Rightarrow> bool \<times> markup" where
  "FindElem t m =
     (case x_FindElem (Some t) (siblings m) (mk_pos m) of
        None \<Rightarrow> (False, m)
      | Some i \<Rightarrow> (True, m\<lparr>mk_pos := Some i, mk_child := None\<rparr>))"

definition FindAnyElem :: "markup \<Rightarrow> markup" where
  "FindAnyElem m =
     (case x_FindElem None (siblings m) (mk_pos m) of
        None \<Rightarrow> m | Some i \<Rightarrow> m\<lparr>mk_pos := Some i, mk_child := None\<rparr>)"

text \<open>Where the parent has no element at all, the search is among the roots.\<close>

definition FindChildElem :: "string \<Rightarrow> markup \<Rightarrow> bool \<times> markup" where
  "FindChildElem t m0 =
     (let m = (if mk_pos m0 = None then FindAnyElem m0 else m0)
      in if mk_pos m = None then
           (case x_FindElem (Some t) (mk_roots m) (mk_child m) of
              None \<Rightarrow> (False, m)
            | Some i \<Rightarrow> (True, m\<lparr>mk_parent := [], mk_pos := None, mk_child := Some i\<rparr>))
         else
           (case x_FindElem (Some t) (main_kids m) (mk_child m) of
              None \<Rightarrow> (False, m)
            | Some i \<Rightarrow> (True, m\<lparr>mk_child := Some i\<rparr>)))"

definition IntoElem :: "markup \<Rightarrow> bool \<times> markup" where
  "IntoElem m =
     (case mk_pos m of None \<Rightarrow> (False, m)
      | Some i \<Rightarrow> (True, m\<lparr>mk_parent := mk_parent m @ [i], mk_pos := mk_child m, mk_child := None\<rparr>))"

definition OutOfElem :: "markup \<Rightarrow> bool \<times> markup" where
  "OutOfElem m =
     (if mk_parent m = [] then (False, m)
      else (True, m\<lparr>mk_parent := butlast (mk_parent m), mk_pos := Some (last (mk_parent m)), mk_child := mk_pos m\<rparr>))"

definition ResetChildPos :: "markup \<Rightarrow> markup" where
  "ResetChildPos m = m\<lparr>mk_child := None\<rparr>"

definition ResetMainPos :: "markup \<Rightarrow> markup" where
  "ResetMainPos m = m\<lparr>mk_pos := None, mk_child := None\<rparr>"

definition ResetPos :: "markup \<Rightarrow> markup" where
  "ResetPos m = m\<lparr>mk_parent := [], mk_pos := None, mk_child := None\<rparr>"

definition GetAttrib :: "string \<Rightarrow> markup \<Rightarrow> string" where
  "GetAttrib a m = (case main_elem m of None \<Rightarrow> [] | Some e \<Rightarrow> attr e a)"

definition GetChildAttrib :: "string \<Rightarrow> markup \<Rightarrow> string" where
  "GetChildAttrib a m = (case child_elem m of None \<Rightarrow> [] | Some e \<Rightarrow> attr e a)"

definition GetData :: "markup \<Rightarrow> string" where
  "GetData m = (case main_elem m of None \<Rightarrow> [] | Some e \<Rightarrow> data_of e)"

definition GetChildData :: "markup \<Rightarrow> string" where
  "GetChildData m = (case child_elem m of None \<Rightarrow> [] | Some e \<Rightarrow> data_of e)"

text \<open>A file that can be read and parsed is a list of root elements.\<close>

definition Load :: "xml list option \<Rightarrow> markup option" where
  "Load file = map_option (\<lambda>roots. \<lparr>mk_roots = roots, mk_parent = [], mk_pos = None, mk_child = None\<rparr>) file"

text \<open>\<open>while(true == markup.Find...(...)) { ... }\<close>; \<open>None\<close> when it does not end.\<close>

partial_function (option) while_found ::
  "(markup \<Rightarrow> bool \<times> markup) \<Rightarrow> (markup \<Rightarrow> 'a \<Rightarrow> ('a \<times> markup) option) \<Rightarrow> markup \<Rightarrow> 'a \<Rightarrow> ('a \<times> markup) option" where
  "while_found look body m x =
     (case look m of (found, m') \<Rightarrow>
        if found then do { (y, m'') \<leftarrow> body m' x; while_found look body m'' y } else Some (x, m'))"

text \<open>\<open>CPIXmlParser::findPath\<close>, the path already split at its slashes.\<close>

fun path_loop :: "string list \<Rightarrow> markup \<Rightarrow> bool \<times> markup" where
  "path_loop [] m = (True, m)"
| "path_loop (t # ts) m =
     (case FindElem t m of
        (False, m') \<Rightarrow> (False, m')
      | (True, m') \<Rightarrow>
          if ts = [] then (True, m')
          else (case IntoElem m' of (False, m'') \<Rightarrow> (False, m'') | (True, m'') \<Rightarrow> path_loop ts m''))"

definition findPath :: "string list \<Rightarrow> markup \<Rightarrow> bool \<times> markup" where
  "findPath ts m = (if ts = [] then (False, m) else path_loop ts (ResetPos m))"

text \<open>The shapes the parsing functions are made of. A step takes the document at its position and the
  value read so far; \<open>None\<close> is undefined behaviour, or a loop that does not end. A step may only look;
  act on an element if it is found; go on between \<open>IntoElem\<close> and \<open>OutOfElem\<close>, looking at their results
  or not; start again at the first sibling or the first child; act on a part of the value, only under
  a condition, or by an attribute read before.\<close>

type_synonym 'a step = "markup \<Rightarrow> 'a \<Rightarrow> ('a \<times> markup) option"

definition set_by :: "(markup \<Rightarrow> 'a \<Rightarrow> 'a) \<Rightarrow> 'a step" where
  "set_by f m x = Some (f m x, m)"

fun in_order :: "'a step list \<Rightarrow> 'a step" where
  "in_order [] m x = Some (x, m)"
| "in_order (b # bs) m x = do { (y, m') \<leftarrow> b m x; in_order bs m' y }"

definition when_found :: "string \<Rightarrow> 'a step \<Rightarrow> 'a step" where
  "when_found t body m x = (case FindElem t m of (True, m') \<Rightarrow> body m' x | (False, m') \<Rightarrow> Some (x, m'))"

definition inside :: "'a step \<Rightarrow> 'a step" where
  "inside body m x = do { (y, m') \<leftarrow> body (snd (IntoElem m)) x; Some (y, snd (OutOfElem m')) }"

definition if_inside :: "'a step \<Rightarrow> 'a step" where
  "if_inside body m x =
     (case IntoElem m of (False, m1) \<Rightarrow> Some (x, m1)
      | (True, m1) \<Rightarrow> do { (y, m2) \<leftarrow> body m1 x; Some (y, snd (OutOfElem m2)) })"

definition from_first :: "'a step \<Rightarrow> 'a step" where
  "from_first body m = body (ResetMainPos m)"

definition from_first_child :: "'a step \<Rightarrow> 'a step" where
  "from_first_child body m = body (ResetChildPos m)"

definition set_if_child :: "string \<Rightarrow> ('a \<Rightarrow> 'a) \<Rightarrow> 'a step" where
  "set_if_child t f m x = (case FindChildElem t m of (found, m') \<Rightarrow> Some (if found then f x else x, m'))"

definition part_of :: "('b \<Rightarrow> 'a) \<Rightarrow> ('a \<Rightarrow> 'b \<Rightarrow> 'b) \<Rightarrow> 'a step \<Rightarrow> 'b step" where
  "part_of get put body m x = do { (y, m') \<leftarrow> body m (get x); Some (put y x, m') }"

definition only_if :: "('a \<Rightarrow> bool) \<Rightarrow> 'a step \<Rightarrow> 'a step" where
  "only_if P body m x = (if P x then body m x else Some (x, m))"

definition by_attrib :: "string \<Rightarrow> (string \<Rightarrow> 'a step) \<Rightarrow> 'a step" where
  "by_attrib a body m = body (GetAttrib a m) m"

subsection \<open>Searching among siblings\<close>

lemma find_tag_Some:
  "find_tag t ks n = Some i \<Longrightarrow> \<exists>j < length ks. i = n + j \<and> tag (ks ! j) = t \<and>
     filter (\<lambda>k. tag k = t) ks = ks ! j # filter (\<lambda>k. tag k = t) (drop (Suc j) ks)"
proof (induction t ks n rule: find_tag.induct)
  case (2 t k ks n)
  show ?case
  proof (cases "tag k = t")
    case False
    then have "find_tag t ks (Suc n) = Some i" using 2(2) by simp
    from 2(1) [OF False this] obtain j where "j < length ks" "i = Suc n + j" "tag (ks ! j) = t"
      "filter (\<lambda>k. tag k = t) ks = ks ! j # filter (\<lambda>k. tag k = t) (drop (Suc j) ks)" by blast
    then show ?thesis using False by (intro exI [of _ "Suc j"]) simp
  qed (use 2 in auto)
qed simp

lemma find_tag_None: "find_tag t ks n = None \<longleftrightarrow> filter (\<lambda>k. tag k = t) ks = []"
  by (induction t ks n rule: find_tag.induct) auto

text \<open>The elements with a name behind a position, and the position of the last of them.\<close>

definition later :: "string \<Rightarrow> xml list \<Rightarrow> nat option \<Rightarrow> xml list" where
  "later t ks p = filter (\<lambda>k. tag k = t) (drop (after p) ks)"

lemma x_FindElem_Some:
  assumes "x_FindElem (Some t) ks p = Some i"
  shows "after p \<le> i" "i < length ks" "tag (ks ! i) = t" "later t ks p = ks ! i # later t ks (Some i)"
proof -
  have f: "find_tag t (drop (after p) ks) (after p) = Some i" using assms by (simp add: x_FindElem_def)
  obtain j where j: "j < length (drop (after p) ks)" "i = after p + j" "tag (drop (after p) ks ! j) = t"
    "filter (\<lambda>k. tag k = t) (drop (after p) ks) =
       drop (after p) ks ! j # filter (\<lambda>k. tag k = t) (drop (Suc j) (drop (after p) ks))"
    using find_tag_Some [OF f] by blast
  then show "after p \<le> i" "i < length ks" "tag (ks ! i) = t" by auto
  have "drop (Suc j) (drop (after p) ks) = drop (Suc i) ks" using j(2) by (simp add: add.commute)
  then show "later t ks p = ks ! i # later t ks (Some i)" using j by (simp add: later_def after_def)
qed

lemma x_FindElem_None: "x_FindElem (Some t) ks p = None \<longleftrightarrow> later t ks p = []"
  by (simp add: x_FindElem_def later_def find_tag_None)

function last_pos :: "string \<Rightarrow> xml list \<Rightarrow> nat option \<Rightarrow> nat option" where
  "last_pos t ks p = (case x_FindElem (Some t) ks p of None \<Rightarrow> p | Some i \<Rightarrow> last_pos t ks (Some i))"
  by pat_completeness auto
termination
proof (relation "measure (\<lambda>(t, ks, p). length ks - after p)")
  fix t ks p i
  assume "x_FindElem (Some t) ks p = Some i"
  from x_FindElem_Some(1,2) [OF this] have "length ks - after (Some i) < length ks - after p"
    by (simp add: after_def)
  then show "((t, ks, Some i), (t, ks, p)) \<in> measure (\<lambda>(t, ks, p). length ks - after p)" by simp
qed simp

declare last_pos.simps [simp del]

lemma FindElem_simps:
  "x_FindElem (Some t) (siblings m) (mk_pos m) = None \<Longrightarrow> FindElem t m = (False, m)"
  "x_FindElem (Some t) (siblings m) (mk_pos m) = Some i \<Longrightarrow>
     FindElem t m = (True, m\<lparr>mk_pos := Some i, mk_child := None\<rparr>)"
  by (simp_all add: FindElem_def)

lemma siblings_moved [simp]:
  "siblings (m\<lparr>mk_pos := p\<rparr>) = siblings m" "siblings (m\<lparr>mk_child := c\<rparr>) = siblings m"
  by (simp_all add: siblings_def)

lemma main_elem_moved [simp]:
  "main_elem (m\<lparr>mk_child := c\<rparr>) = main_elem m" "main_kids (m\<lparr>mk_child := c\<rparr>) = main_kids m"
  "main_elem (m\<lparr>mk_pos := Some i\<rparr>) = nth_elem (siblings m) (Some i)"
  by (simp_all add: main_elem_def main_kids_def)

lemma main_elem_pos: "main_elem m = Some e \<Longrightarrow> \<exists>i. mk_pos m = Some i \<and> i < length (siblings m) \<and> e = siblings m ! i"
  by (auto simp: main_elem_def nth_elem_def split: option.splits if_splits)

lemma kids_at_snoc: "i < length (kids_at ks p) \<Longrightarrow> kids_at ks (p @ [i]) = kids (kids_at ks p ! i)"
  by (induction ks p rule: kids_at.induct) (auto split: if_splits)

lemma if_inside_simps:
  "mk_pos m = None \<Longrightarrow> if_inside body m x = Some (x, m)"
  "mk_pos m = Some i \<Longrightarrow> if_inside body m x = inside body m x"
  "main_elem m = Some e \<Longrightarrow> if_inside body m x = inside body m x"
  by (auto simp: if_inside_def inside_def IntoElem_def dest: main_elem_pos)

lemma if_inside_cong: "(\<And>m. body m x = body2 m x) \<Longrightarrow> if_inside body m x = if_inside body2 m x"
  by (simp add: if_inside_def split: prod.split bool.split)

lemma in_order_one [simp]: "in_order [b] m x = b m x"
  by (cases "b m x") auto

text \<open>In and out again.\<close>

lemma Into_simps:
  assumes "main_elem m = Some e"
  shows "mk_pos (snd (IntoElem m)) = mk_child m" "siblings (snd (IntoElem m)) = kids e"
    "fst (IntoElem m)" "mk_child (snd (IntoElem m)) = None"
    "snd (OutOfElem ((snd (IntoElem m))\<lparr>mk_pos := p, mk_child := c\<rparr>)) = m\<lparr>mk_child := p\<rparr>"
proof -
  obtain i where i: "mk_pos m = Some i" "i < length (siblings m)" "e = siblings m ! i"
    using main_elem_pos [OF assms] by blast
  then show "mk_pos (snd (IntoElem m)) = mk_child m" "siblings (snd (IntoElem m)) = kids e" "fst (IntoElem m)"
      "mk_child (snd (IntoElem m)) = None"
      "snd (OutOfElem ((snd (IntoElem m))\<lparr>mk_pos := p, mk_child := c\<rparr>)) = m\<lparr>mk_child := p\<rparr>"
    by (simp_all add: IntoElem_def OutOfElem_def siblings_def kids_at_snoc)
qed

subsection \<open>What a parsing function promises\<close>

text \<open>A property of an element and of all elements below it.\<close>

fun everywhere :: "(xml \<Rightarrow> bool) \<Rightarrow> xml \<Rightarrow> bool" where
  "everywhere P (Elem t as x ks) \<longleftrightarrow> P (Elem t as x ks) \<and> list_all (everywhere P) ks"

lemma everywhere_kids: "everywhere P e \<Longrightarrow> list_all (everywhere P) (kids e)"
  by (cases e) simp

lemma everywhere_here: "everywhere P e \<Longrightarrow> P e"
  by (cases e) simp

lemma everywhere_nth: "list_all (everywhere P) ks \<Longrightarrow> i < length ks \<Longrightarrow> everywhere P (ks ! i)"
  by (simp add: list_all_length)

lemma everywhere_later: "list_all (everywhere P) ks \<Longrightarrow> k \<in> set (later t ks p) \<Longrightarrow> everywhere P k"
  by (auto simp: later_def list_all_iff dest: in_set_dropD)

lemma everywhere_mono:
  assumes imp: "\<And>e. P e \<Longrightarrow> Q e"
  shows "everywhere P e \<Longrightarrow> everywhere Q e"
  by (induction e) (auto simp: list_all_iff intro: imp)

text \<open>A step that is taken on an element reads it and its children and leaves the position on the
  element; \<open>g\<close> is what it computes from the element, the position of the child before and its
  argument, and at which child it ends. It returns on elements where \<open>P\<close> holds everywhere.\<close>

locale element_reader =
  fixes P :: "xml \<Rightarrow> bool"
    and body :: "'a step"
    and g :: "xml \<Rightarrow> nat option \<Rightarrow> 'a \<Rightarrow> ('a \<times> nat option) option"
  assumes reads: "main_elem m = Some e \<Longrightarrow>
    body m y = map_option (\<lambda>(z, c). (z, m\<lparr>mk_child := c\<rparr>)) (g e (mk_child m) y)"
    and returns: "everywhere P e \<Longrightarrow> g e c y \<noteq> None"

text \<open>A step that is taken among the children of an element moves on over some of them.\<close>

locale sibling_reader =
  fixes P :: "xml \<Rightarrow> bool"
    and body :: "'a step"
    and G :: "xml list \<Rightarrow> nat option \<Rightarrow> 'a \<Rightarrow> ('a \<times> nat option) option"
  assumes scans: "\<exists>c. body m y =
    map_option (\<lambda>(z, p). (z, m\<lparr>mk_pos := p, mk_child := c\<rparr>)) (G (siblings m) (mk_pos m) y)"
    and returns: "list_all (everywhere P) ks \<Longrightarrow> G ks p y \<noteq> None"

text \<open>A step that only looks at the child found.\<close>

locale child_reader =
  fixes P :: "xml \<Rightarrow> bool"
    and body :: "'a step"
    and f :: "xml \<Rightarrow> 'a \<Rightarrow> 'a option"
  assumes looks: "child_elem m = Some k \<Longrightarrow> body m y = map_option (\<lambda>z. (z, m)) (f k y)"
    and returns: "everywhere P k \<Longrightarrow> f k y \<noteq> None"

fun fold_opt :: "('b \<Rightarrow> 'a \<Rightarrow> 'a option) \<Rightarrow> 'b list \<Rightarrow> 'a \<Rightarrow> 'a option" where
  "fold_opt f [] y = Some y"
| "fold_opt f (k # ks) y = do { z \<leftarrow> f k y; fold_opt f ks z }"

lemma fold_opt_Some: "(\<And>k y. f k y = Some (f' k y)) \<Longrightarrow> fold_opt f ks y = Some (fold f' ks y)"
  by (induction ks arbitrary: y) simp_all

lemma fold_opt_total: "(\<And>k y. k \<in> set ks \<Longrightarrow> f k y \<noteq> None) \<Longrightarrow> fold_opt f ks y \<noteq> None"
proof (induction ks arbitrary: y)
  case (Cons k ks)
  obtain z where "f k y = Some z" using Cons.prems [of k y] by auto
  then show ?case using Cons by simp
qed simp

lemma fold_opt_inv:
  "fold_opt f ks y = Some z \<Longrightarrow> I y \<Longrightarrow> (\<And>k y z. f k y = Some z \<Longrightarrow> I y \<Longrightarrow> I z) \<Longrightarrow> I z"
  by (induction ks arbitrary: y) (auto simp: bind_eq_Some_conv)

text \<open>The same steps on the tree.\<close>

definition while_tree :: "string \<Rightarrow> (xml \<Rightarrow> nat option \<Rightarrow> 'a \<Rightarrow> ('a \<times> nat option) option)
    \<Rightarrow> xml list \<Rightarrow> nat option \<Rightarrow> 'a \<Rightarrow> ('a \<times> nat option) option" where
  "while_tree t g ks p y =
     map_option (\<lambda>z. (z, last_pos t ks p)) (fold_opt (\<lambda>k y. map_option fst (g k None y)) (later t ks p) y)"

definition when_tree :: "string \<Rightarrow> (xml \<Rightarrow> nat option \<Rightarrow> 'a \<Rightarrow> ('a \<times> nat option) option)
    \<Rightarrow> xml list \<Rightarrow> nat option \<Rightarrow> 'a \<Rightarrow> ('a \<times> nat option) option" where
  "when_tree t g ks p y =
     (case x_FindElem (Some t) ks p of None \<Rightarrow> Some (y, p)
      | Some i \<Rightarrow> map_option (\<lambda>z. (fst z, Some i)) (g (ks ! i) None y))"

definition child_tree :: "string \<Rightarrow> (xml \<Rightarrow> 'a \<Rightarrow> 'a option) \<Rightarrow> xml \<Rightarrow> nat option \<Rightarrow> 'a \<Rightarrow> ('a \<times> nat option) option" where
  "child_tree t f e c y = map_option (\<lambda>z. (z, last_pos t (kids e) c)) (fold_opt f (later t (kids e) c) y)"

context element_reader begin

text \<open>The loop over the siblings with a name ends, and is a fold over them.\<close>

lemma while_scans: "sibling_reader P (while_found (FindElem t) body) (while_tree t g)"
proof
  fix m y
  show "\<exists>c. while_found (FindElem t) body m y = map_option (\<lambda>(z, p). (z, m\<lparr>mk_pos := p, mk_child := c\<rparr>))
      (while_tree t g (siblings m) (mk_pos m) y)"
  proof (induction "length (siblings m) - after (mk_pos m)" arbitrary: m y rule: less_induct)
    case less
    show ?case
    proof (cases "x_FindElem (Some t) (siblings m) (mk_pos m)")
      case None
      then have "later t (siblings m) (mk_pos m) = []" "last_pos t (siblings m) (mk_pos m) = mk_pos m"
        by (simp_all add: x_FindElem_None [symmetric] last_pos.simps)
      then show ?thesis using FindElem_simps(1) [OF None]
        by (intro exI [of _ "mk_child m"]) (simp add: while_found.simps while_tree_def)
    next
      case (Some i)
      let ?e = "siblings m ! i" and ?m = "m\<lparr>mk_pos := Some i, mk_child := None\<rparr>"
      note s = x_FindElem_Some [OF Some]
      have "main_elem ?m = Some ?e" using s(2) by (simp add: nth_elem_def main_elem_def)
      note b = reads [OF this, of y]
      have l: "last_pos t (siblings m) (mk_pos m) = last_pos t (siblings m) (Some i)"
        using Some by (subst last_pos.simps) simp
      show ?thesis
      proof (cases "g ?e None y")
        case None
        then show ?thesis using b s(4) FindElem_simps(2) [OF Some] by (simp add: while_found.simps while_tree_def)
      next
        case zd: (Some zd)
        obtain z d where "zd = (z, d)" by (cases zd)
        note z = zd [unfolded this]
        let ?n = "?m\<lparr>mk_child := d\<rparr>"
        have lt: "length (siblings ?n) - after (mk_pos ?n) < length (siblings m) - after (mk_pos m)"
          using s(1,2) by (simp add: after_def)
        obtain c where "while_found (FindElem t) body ?n z = map_option (\<lambda>(z, p). (z, ?n\<lparr>mk_pos := p, mk_child := c\<rparr>))
            (while_tree t g (siblings ?n) (mk_pos ?n) z)"
          using less [OF lt, of z] by blast
        then show ?thesis using b z s(4) l FindElem_simps(2) [OF Some]
          by (intro exI [of _ c]) (simp add: while_found.simps [of _ _ m] while_tree_def option.map_comp comp_def)
      qed
    qed
  qed
next
  fix ks p y
  assume "list_all (everywhere P) ks"
  then have "fold_opt (\<lambda>k y. map_option fst (g k None y)) (later t ks p) y \<noteq> None"
    using everywhere_later [of P ks] returns by (intro fold_opt_total) fastforce
  then show "while_tree t g ks p y \<noteq> None" by (auto simp: while_tree_def)
qed

text \<open>What is done with the first of them.\<close>

lemma when_scans: "sibling_reader P (when_found t body) (when_tree t g)"
proof
  fix m y
  show "\<exists>c. when_found t body m y = map_option (\<lambda>(z, p). (z, m\<lparr>mk_pos := p, mk_child := c\<rparr>))
      (when_tree t g (siblings m) (mk_pos m) y)"
  proof (cases "x_FindElem (Some t) (siblings m) (mk_pos m)")
    case None
    then show ?thesis using FindElem_simps(1) [OF None]
      by (intro exI [of _ "mk_child m"]) (simp add: when_found_def when_tree_def)
  next
    case (Some i)
    have "main_elem (m\<lparr>mk_pos := Some i, mk_child := None\<rparr>) = Some (siblings m ! i)"
      using x_FindElem_Some(2) [OF Some] by (simp add: nth_elem_def main_elem_def)
    from reads [OF this, of y] show ?thesis using Some FindElem_simps(2) [OF Some]
      by (cases "g (siblings m ! i) None y") (auto simp: when_found_def when_tree_def)
  qed
next
  fix ks p y
  assume "list_all (everywhere P) ks"
  then show "when_tree t g ks p y \<noteq> None"
    using returns x_FindElem_Some(2) by (fastforce simp: when_tree_def everywhere_nth split: option.splits)
qed

lemma then_reads:
  assumes "element_reader P (in_order bs) g2"
  shows "element_reader P (in_order (body # bs)) (\<lambda>e c y. do { (z, c') \<leftarrow> g e c y; g2 e c' z })"
proof
  fix m e y
  assume m: "main_elem m = Some e"
  show "in_order (body # bs) m y =
      map_option (\<lambda>(z, c). (z, m\<lparr>mk_child := c\<rparr>)) (do { (z, c') \<leftarrow> g e (mk_child m) y; g2 e c' z })"
  proof (cases "g e (mk_child m) y")
    case (Some zc)
    obtain z c where zc: "zc = (z, c)" by (cases zc)
    have "main_elem (m\<lparr>mk_child := c\<rparr>) = Some e" using m by simp
    from element_reader.reads [OF assms this, of z] show ?thesis
      using reads [OF m, of y] Some zc by (simp add: case_prod_beta')
  qed (simp add: reads [OF m])
next
  show "everywhere P e \<Longrightarrow> do { (z, c') \<leftarrow> g e c y; g2 e c' z } \<noteq> None" for e c y
    using returns [of e c y] element_reader.returns [OF assms] by fastforce
qed

lemma only_if_reads: "element_reader P (only_if Q body) (\<lambda>e c y. if Q y then g e c y else Some (y, c))"
  by unfold_locales (use returns in \<open>auto simp: reads only_if_def\<close>)

lemma part_reads:
  "element_reader P (part_of get put body) (\<lambda>e c y. map_option (\<lambda>(z, c). (put z y, c)) (g e c (get y)))"
proof
  show "main_elem m = Some e \<Longrightarrow> part_of get put body m y =
      map_option (\<lambda>(z, c). (z, m\<lparr>mk_child := c\<rparr>)) (map_option (\<lambda>(z, c). (put z y, c)) (g e (mk_child m) (get y)))" for m e y
    by (cases "g e (mk_child m) (get y)") (auto simp: reads part_of_def)
qed (use returns in fastforce)

lemma first_child_reads: "element_reader P (from_first_child body) (\<lambda>e c. g e None)"
  by unfold_locales (use returns in \<open>auto simp: from_first_child_def ResetChildPos_def reads\<close>)

end

lemma by_attrib_reads:
  assumes "\<And>v. element_reader P (b v) (g v)"
  shows "element_reader P (by_attrib a b) (\<lambda>e. g (attr e a) e)"
  by unfold_locales (simp_all add: by_attrib_def GetAttrib_def element_reader.reads [OF assms] element_reader.returns [OF assms])

lemma none_reads: "element_reader P (in_order []) (\<lambda>e c y. Some (y, c))"
  by unfold_locales simp_all

context sibling_reader begin

lemma scans_fst: "map_option fst (body m y) = map_option fst (G (siblings m) (mk_pos m) y)"
  using scans [of m y] by (auto simp: option.map_comp comp_def case_prod_beta')

lemma inside_reads: "element_reader P (inside body) (\<lambda>e c y. G (kids e) c y)"
proof
  fix m e y
  assume m: "main_elem m = Some e"
  obtain c where "body (snd (IntoElem m)) y = map_option (\<lambda>(z, p). (z, (snd (IntoElem m))\<lparr>mk_pos := p, mk_child := c\<rparr>))
      (G (kids e) (mk_child m) y)"
    using scans [of "snd (IntoElem m)" y] Into_simps(1,2) [OF m] by auto
  then show "inside body m y = map_option (\<lambda>(z, p). (z, m\<lparr>mk_child := p\<rparr>)) (G (kids e) (mk_child m) y)"
    using Into_simps(5) [OF m] by (cases "G (kids e) (mk_child m) y") (auto simp: inside_def)
qed (rule returns, rule everywhere_kids)

lemma if_inside_reads: "element_reader P (if_inside body) (\<lambda>e c y. G (kids e) c y)"
  using inside_reads by (simp add: element_reader_def if_inside_simps(3))

lemma first_scans: "sibling_reader P (from_first body) (\<lambda>ks p. G ks None)"
proof
  fix m y
  obtain c where "body (ResetMainPos m) y = map_option (\<lambda>(z, p). (z, (ResetMainPos m)\<lparr>mk_pos := p, mk_child := c\<rparr>))
      (G (siblings (ResetMainPos m)) (mk_pos (ResetMainPos m)) y)"
    using scans [of "ResetMainPos m" y] by blast
  then show "\<exists>c. from_first body m y = map_option (\<lambda>(z, p). (z, m\<lparr>mk_pos := p, mk_child := c\<rparr>)) (G (siblings m) None y)"
    by (intro exI [of _ c]) (simp add: ResetMainPos_def from_first_def)
qed (rule returns)

lemma part_scans:
  "sibling_reader P (part_of get put body) (\<lambda>ks p y. map_option (\<lambda>(z, c). (put z y, c)) (G ks p (get y)))"
proof
  fix m y
  obtain c where "body m (get y) = map_option (\<lambda>(z, p). (z, m\<lparr>mk_pos := p, mk_child := c\<rparr>)) (G (siblings m) (mk_pos m) (get y))"
    using scans by blast
  then show "\<exists>c. part_of get put body m y = map_option (\<lambda>(z, p). (z, m\<lparr>mk_pos := p, mk_child := c\<rparr>))
      (map_option (\<lambda>(z, c). (put z y, c)) (G (siblings m) (mk_pos m) (get y)))"
    by (intro exI [of _ c], cases "G (siblings m) (mk_pos m) (get y)") (auto simp: part_of_def)
qed (use returns in fastforce)

lemma then_scans:
  assumes "sibling_reader P (in_order bs) G2"
  shows "sibling_reader P (in_order (body # bs)) (\<lambda>ks p y. do { (z, p') \<leftarrow> G ks p y; G2 ks p' z })"
proof
  fix m y
  obtain c where b: "body m y = map_option (\<lambda>(z, p). (z, m\<lparr>mk_pos := p, mk_child := c\<rparr>)) (G (siblings m) (mk_pos m) y)"
    using scans by blast
  show "\<exists>c. in_order (body # bs) m y = map_option (\<lambda>(z, p). (z, m\<lparr>mk_pos := p, mk_child := c\<rparr>))
      (do { (z, p') \<leftarrow> G (siblings m) (mk_pos m) y; G2 (siblings m) p' z })"
  proof (cases "G (siblings m) (mk_pos m) y")
    case (Some zp)
    obtain z p where zp: "zp = (z, p)" by (cases zp)
    obtain d where "in_order bs (m\<lparr>mk_pos := p, mk_child := c\<rparr>) z = map_option (\<lambda>(z, q). (z, m\<lparr>mk_pos := q, mk_child := d\<rparr>))
        (G2 (siblings m) p z)"
      using sibling_reader.scans [OF assms, of "m\<lparr>mk_pos := p, mk_child := c\<rparr>" z] by auto
    then show ?thesis using b Some zp by (intro exI [of _ d]) simp
  qed (use b in simp)
next
  show "list_all (everywhere P) ks \<Longrightarrow> do { (z, p') \<leftarrow> G ks p y; G2 ks p' z } \<noteq> None" for ks p y
    using returns [of ks p y] sibling_reader.returns [OF assms] by fastforce
qed

end

lemma none_scans: "sibling_reader P (in_order []) (\<lambda>ks p y. Some (y, p))"
proof
  show "\<exists>c. in_order [] m y = map_option (\<lambda>(z, p). (z, m\<lparr>mk_pos := p, mk_child := c\<rparr>)) (Some (y, mk_pos m))" for m y
    by (intro exI [of _ "mk_child m"]) simp
qed simp

lemma set_scans: "sibling_reader P (set_by (\<lambda>_. f)) (\<lambda>ks p y. Some (f y, p))"
proof
  show "\<exists>c. set_by (\<lambda>_. f) m y = map_option (\<lambda>(z, p). (z, m\<lparr>mk_pos := p, mk_child := c\<rparr>)) (Some (f y, mk_pos m))" for m y
    by (intro exI [of _ "mk_child m"]) (simp add: set_by_def)
qed simp

context child_reader begin

lemma while_reads: "element_reader P (while_found (FindChildElem t) body) (child_tree t f)"
proof
  fix m e y
  assume "main_elem m = Some e"
  then show "while_found (FindChildElem t) body m y = map_option (\<lambda>(z, c). (z, m\<lparr>mk_child := c\<rparr>)) (child_tree t f e (mk_child m) y)"
  proof (induction "length (kids e) - after (mk_child m)" arbitrary: m y rule: less_induct)
    case less
    obtain j where j: "mk_pos m = Some j" using main_elem_pos [OF less.prems] by blast
    have k: "main_kids m = kids e" using less.prems by (simp add: main_kids_def)
    show ?case
    proof (cases "x_FindElem (Some t) (kids e) (mk_child m)")
      case None
      then have "later t (kids e) (mk_child m) = []" "last_pos t (kids e) (mk_child m) = mk_child m"
        by (simp_all add: x_FindElem_None [symmetric] last_pos.simps)
      then show ?thesis using None j k by (simp add: while_found.simps FindChildElem_def child_tree_def)
    next
      case (Some i)
      note s = x_FindElem_Some [OF Some]
      let ?m = "m\<lparr>mk_child := Some i\<rparr>"
      have "child_elem ?m = Some (kids e ! i)" using s(2) k by (simp add: child_elem_def nth_elem_def)
      note b = looks [OF this, of y]
      have l: "last_pos t (kids e) (mk_child m) = last_pos t (kids e) (Some i)"
        using Some by (subst last_pos.simps) simp
      have lt: "length (kids e) - after (mk_child ?m) < length (kids e) - after (mk_child m)"
        using s(1,2) by (simp add: after_def)
      have F: "FindChildElem t m = (True, ?m)" using Some j k by (simp add: FindChildElem_def)
      show ?thesis
      proof (cases "f (kids e ! i) y")
        case None
        then show ?thesis using b s(4) F by (simp add: while_found.simps child_tree_def)
      next
        case z: (Some z)
        have "while_found (FindChildElem t) body ?m z = map_option (\<lambda>(z, c). (z, ?m\<lparr>mk_child := c\<rparr>))
            (child_tree t f e (mk_child ?m) z)"
          using less.hyps [OF lt, of z] less.prems by simp
        then show ?thesis using b z s(4) l F by (simp add: while_found.simps [of _ _ m] child_tree_def option.map_comp comp_def)
      qed
    qed
  qed
next
  fix e c y
  assume "everywhere P e"
  then have "fold_opt f (later t (kids e) c) y \<noteq> None"
    by (intro fold_opt_total returns) (rule everywhere_later [OF everywhere_kids])
  then show "child_tree t f e c y \<noteq> None" by (auto simp: child_tree_def)
qed

end

text \<open>Reading attributes, of the element or of a child, cannot fail. The element on its own is a document
  with one root.\<close>

definition solo :: "xml \<Rightarrow> nat option \<Rightarrow> markup" where
  "solo e c = \<lparr>mk_roots = [e], mk_parent = [], mk_pos = Some 0, mk_child = c\<rparr>"

lemma solo_elem [simp]: "main_elem (solo e c) = Some e" "mk_child (solo e c) = c" "siblings (solo e c) = [e]"
  by (simp_all add: solo_def main_elem_def siblings_def nth_elem_def)

lemma solo_attrib [simp]:
  "GetAttrib a (solo e c) = attr e a" "GetChildAttrib a (solo (Elem t as x [k]) (Some 0)) = attr k a"
  by (simp_all add: GetAttrib_def GetChildAttrib_def child_elem_def main_kids_def nth_elem_def)

lemma attrib_simps [simp]:
  "main_elem m = Some e \<Longrightarrow> GetAttrib a m = attr e a" "child_elem m = Some k \<Longrightarrow> GetChildAttrib a m = attr k a"
  by (simp_all add: GetAttrib_def GetChildAttrib_def)

lemma solo_data [simp]: "GetChildData (solo (Elem t as x [k]) (Some 0)) = data_of k"
  by (simp add: GetChildData_def child_elem_def main_kids_def nth_elem_def)

lemma child_data [simp]: "child_elem m = Some k \<Longrightarrow> GetChildData m = data_of k"
  by (simp add: GetChildData_def)

lemma main_attribs: "main_elem m = Some e \<Longrightarrow> (\<lambda>a. GetAttrib a m) = attr e"
  by (simp add: fun_eq_iff)

lemma child_attribs: "child_elem m = Some k \<Longrightarrow> (\<lambda>a. GetChildAttrib a m) = attr k"
  by (simp add: fun_eq_iff)

lemma set_reads:
  assumes "\<And>m e y. main_elem m = Some e \<Longrightarrow> f m y = f (solo e None) y"
  shows "element_reader P (set_by f) (\<lambda>e c y. Some (f (solo e None) y, c))"
  by unfold_locales (auto simp: set_by_def dest: assms)

lemma set_looks:
  assumes "\<And>m k y. child_elem m = Some k \<Longrightarrow> f m y = f (solo (Elem [] [] [] [k]) (Some 0)) y"
  shows "child_reader P (set_by f) (\<lambda>k y. Some (f (solo (Elem [] [] [] [k]) (Some 0)) y))"
  by unfold_locales (auto simp: set_by_def dest: assms)

lemma set_if_child_reads:
  "element_reader P (set_if_child t f) (\<lambda>e c y. case x_FindElem (Some t) (kids e) c of None \<Rightarrow> Some (y, c) | Some i \<Rightarrow> Some (f y, Some i))"
proof
  show "main_elem m = Some e \<Longrightarrow> set_if_child t f m y = map_option (\<lambda>(z, c). (z, m\<lparr>mk_child := c\<rparr>))
      (case x_FindElem (Some t) (kids e) (mk_child m) of None \<Rightarrow> Some (y, mk_child m) | Some i \<Rightarrow> Some (f y, Some i))" for m e y
    using main_elem_pos [of m e]
    by (auto simp: set_if_child_def FindChildElem_def main_kids_def split: option.split)
qed (simp split: option.split)

text \<open>What a step computes from an element on its own. A reader computes that wherever the element is.\<close>

definition alone :: "'a step \<Rightarrow> xml \<Rightarrow> nat option \<Rightarrow> 'a \<Rightarrow> ('a \<times> nat option) option" where
  "alone body e c y = map_option (\<lambda>(z, m). (z, mk_child m)) (body (solo e c) y)"

lemma alone_reads:
  assumes "element_reader P body g"
  shows "element_reader P body (alone body)" "alone body = g"
proof -
  show *: "alone body = g"
  proof (intro ext)
    fix e c y
    show "alone body e c y = g e c y"
      using element_reader.reads [OF assms solo_elem(1), of e c y]
      by (cases "g e c y") (auto simp: alone_def)
  qed
  show "element_reader P body (alone body)" using assms by (simp add: *)
qed

lemma aloneI: "\<exists>g. element_reader P body g \<Longrightarrow> element_reader P body (alone body)"
  using alone_reads(1) by blast

text \<open>It is enough to read every argument.\<close>

lemma pointwise_reads:
  assumes "\<And>y. \<exists>g. element_reader P (\<lambda>m _. body m y) g"
  shows "element_reader P body (alone body)"
proof (rule aloneI)
  from assms obtain g where g: "\<And>y. element_reader P (\<lambda>m _. body m y) (g y)" by metis
  have "element_reader P body (\<lambda>e c y. g y e c y)"
    by unfold_locales (use element_reader.reads [OF g] element_reader.returns [OF g] in auto)
  then show "\<exists>g. element_reader P body g" by blast
qed

lemma element_reader_mono: "element_reader P body g \<Longrightarrow> (\<And>e. Q e \<Longrightarrow> P e) \<Longrightarrow> element_reader Q body g"
  unfolding element_reader_def using everywhere_mono [of Q P] by blast

lemmas element_rules = none_reads element_reader.then_reads element_reader.only_if_reads element_reader.part_reads
  element_reader.first_child_reads by_attrib_reads sibling_reader.inside_reads sibling_reader.if_inside_reads child_reader.while_reads
  set_if_child_reads set_reads

lemmas sibling_rules = none_scans sibling_reader.then_scans sibling_reader.first_scans sibling_reader.part_scans set_scans
  element_reader.while_scans element_reader.when_scans

subsection \<open>Paths\<close>

text \<open>The element a path leads to: the first with the name at every step, without going back.\<close>

definition first_with :: "string \<Rightarrow> xml list \<Rightarrow> xml option" where
  "first_with t = List.find (\<lambda>k. tag k = t)"

fun elem_at :: "string list \<Rightarrow> xml list \<Rightarrow> xml option" where
  "elem_at [] ks = None"
| "elem_at [t] ks = first_with t ks"
| "elem_at (t # ts) ks = (case first_with t ks of None \<Rightarrow> None | Some k \<Rightarrow> elem_at ts (kids k))"

lemma first_filter: "first_with t ks = (case filter (\<lambda>k. tag k = t) ks of [] \<Rightarrow> None | k # _ \<Rightarrow> Some k)"
  by (induction ks) (auto simp: first_with_def)

lemma first_found: "first_with t ks = map_option ((!) ks) (x_FindElem (Some t) ks None)"
proof (cases "x_FindElem (Some t) ks None")
  case None
  then show ?thesis by (simp add: x_FindElem_None later_def after_def first_filter)
next
  case (Some i)
  then show ?thesis using x_FindElem_Some(4) [OF Some] by (simp add: later_def after_def first_filter)
qed

lemma find_main:
  assumes "mk_pos m = None" "siblings m = ks"
  shows "first_with t ks = None \<Longrightarrow> FindElem t m = (False, m)"
    "first_with t ks = Some e \<Longrightarrow> \<exists>m'. FindElem t m = (True, m') \<and> main_elem m' = Some e \<and> mk_child m' = None \<and> mk_roots m' = mk_roots m"
  using x_FindElem_Some(2) [of t ks None] by (auto simp: first_found FindElem_def assms main_elem_def nth_elem_def)

lemma find_child:
  assumes "main_elem m = Some e" "mk_child m = None"
  shows "first_with t (kids e) = None \<Longrightarrow> FindChildElem t m = (False, m)"
    "first_with t (kids e) = Some k \<Longrightarrow> \<exists>m'. FindChildElem t m = (True, m') \<and> child_elem m' = Some k \<and> main_elem m' = Some e"
  using main_elem_pos [OF assms(1)] x_FindElem_Some(2) [of t "kids e" None] assms
  by (auto simp: first_found FindChildElem_def main_kids_def child_elem_def nth_elem_def)

lemma into_child:
  assumes "child_elem m = Some k"
  shows "main_elem (snd (IntoElem m)) = Some k" "mk_child (snd (IntoElem m)) = None"
proof -
  obtain e where e: "main_elem m = Some e" using assms by (auto simp: child_elem_def main_kids_def nth_elem_def split: option.splits)
  then have "nth_elem (kids e) (mk_child m) = Some k" using assms by (simp add: child_elem_def main_kids_def)
  then show "main_elem (snd (IntoElem m)) = Some k" "mk_child (snd (IntoElem m)) = None"
    using Into_simps(1,2,4) [OF e] by (simp_all add: main_elem_def)
qed

lemma path_loop_elem:
  assumes "mk_pos m = None" "mk_child m = None" "siblings m = ks" "ts \<noteq> []"
  shows "case elem_at ts ks of None \<Rightarrow> \<not> fst (path_loop ts m)
    | Some e \<Rightarrow> fst (path_loop ts m) \<and> main_elem (snd (path_loop ts m)) = Some e \<and> mk_child (snd (path_loop ts m)) = None"
  using assms
proof (induction ts ks arbitrary: m rule: elem_at.induct)
  case (2 t ks)
  then show ?case using find_main [OF 2(1,3), of t] by (cases "first_with t ks") auto
next
  case (3 t u ts ks)
  show ?case
  proof (cases "first_with t ks")
    case None
    then show ?thesis using find_main(1) [OF 3(2,4) None] by simp
  next
    case (Some k)
    obtain m' where m': "FindElem t m = (True, m')" "main_elem m' = Some k" "mk_child m' = None"
      using find_main(2) [OF 3(2,4) Some] by blast
    obtain n where n: "IntoElem m' = (True, n)" using Into_simps(3) [OF m'(2)] by (cases "IntoElem m'") simp
    have "path_loop (t # u # ts) m = path_loop (u # ts) n"
      by (subst path_loop.simps(2)) (simp add: m'(1) n del: path_loop.simps)
    moreover have "case elem_at (u # ts) (kids k) of None \<Rightarrow> \<not> fst (path_loop (u # ts) n)
        | Some e \<Rightarrow> fst (path_loop (u # ts) n) \<and> main_elem (snd (path_loop (u # ts) n)) = Some e \<and> mk_child (snd (path_loop (u # ts) n)) = None"
      using Into_simps(1,2,4) [OF m'(2)] m'(3) n by (intro "3.IH" [OF Some]) simp_all
    ultimately show ?thesis using Some by (cases "elem_at (u # ts) (kids k)") (simp_all del: path_loop.simps)
  qed
qed simp

lemma findPath_elem:
  assumes "ts \<noteq> []"
  shows "case elem_at ts (mk_roots m) of None \<Rightarrow> \<not> fst (findPath ts m)
    | Some e \<Rightarrow> fst (findPath ts m) \<and> main_elem (snd (findPath ts m)) = Some e \<and> mk_child (snd (findPath ts m)) = None"
proof -
  have "findPath ts m = path_loop ts (ResetPos m)" using assms by (simp add: findPath_def)
  then show ?thesis using path_loop_elem [of "ResetPos m" "mk_roots m" ts] assms
    by (cases "elem_at ts (mk_roots m)") (simp_all add: ResetPos_def siblings_def)
qed

subsection \<open>Sections\<close>

text \<open>The sections are looked for forwards only: what is left behind a section, and the elements in it.\<close>

definition pass :: "string \<Rightarrow> xml list \<Rightarrow> xml list" where
  "pass t ks = (case dropWhile (\<lambda>k. tag k \<noteq> t) ks of [] \<Rightarrow> ks | k # rest \<Rightarrow> rest)"

definition sec :: "string \<Rightarrow> xml list \<Rightarrow> xml list" where
  "sec t ks = (case first_with t ks of None \<Rightarrow> [] | Some k \<Rightarrow> kids k)"

definition tagged :: "string \<Rightarrow> xml list \<Rightarrow> xml list" where
  "tagged t = filter (\<lambda>k. tag k = t)"

lemma find_tag_drop:
  "find_tag t ks n = Some i \<Longrightarrow> n \<le> i \<and> i - n < length ks \<and> dropWhile (\<lambda>k. tag k \<noteq> t) ks = drop (i - n) ks"
  by (induction t ks n rule: find_tag.induct) (auto split: if_splits simp: drop_Cons' Suc_le_eq)

lemma find_pass:
  assumes "x_FindElem (Some t) ks p = Some i"
  shows "pass t (drop (after p) ks) = drop (Suc i) ks" "first_with t (drop (after p) ks) = Some (ks ! i)"
proof -
  have f: "find_tag t (drop (after p) ks) (after p) = Some i" using assms by (simp add: x_FindElem_def)
  from find_tag_drop [OF this] have i: "after p \<le> i" "i - after p < length (drop (after p) ks)"
    "dropWhile (\<lambda>k. tag k \<noteq> t) (drop (after p) ks) = drop (i - after p) (drop (after p) ks)" by auto
  then have "dropWhile (\<lambda>k. tag k \<noteq> t) (drop (after p) ks) = ks ! i # drop (Suc i) ks"
    by (simp add: Cons_nth_drop_Suc)
  then show "pass t (drop (after p) ks) = drop (Suc i) ks" by (simp add: pass_def)
  show "first_with t (drop (after p) ks) = Some (ks ! i)"
    using x_FindElem_Some(4) [OF assms] by (simp add: first_filter later_def)
qed

lemma none_dropped: "filter (\<lambda>k. tag k = t) ks = [] \<Longrightarrow> dropWhile (\<lambda>k. tag k \<noteq> t) ks = []"
  by (simp only: dropWhile_eq_Nil_conv filter_empty_conv)

lemma find_pass_none:
  assumes "x_FindElem (Some t) ks p = None"
  shows "pass t (drop (after p) ks) = drop (after p) ks" "first_with t (drop (after p) ks) = None"
proof -
  have f: "filter (\<lambda>k. tag k = t) (drop (after p) ks) = []" using assms by (simp add: x_FindElem_None later_def)
  then show "pass t (drop (after p) ks) = drop (after p) ks" by (simp only: pass_def none_dropped list.case)
  show "first_with t (drop (after p) ks) = None" by (simp only: first_filter f list.case)
qed

definition sec_pos :: "string \<Rightarrow> xml list \<Rightarrow> nat option \<Rightarrow> nat option" where
  "sec_pos t ks p = (case x_FindElem (Some t) ks p of None \<Rightarrow> p | Some i \<Rightarrow> Some i)"

lemma after_sec: "drop (after (sec_pos t ks p)) ks = pass t (drop (after p) ks)"
  using find_pass_none(1) [of t ks p] find_pass(1) [of t ks p]
  by (cases "x_FindElem (Some t) ks p") (simp_all add: sec_pos_def after_def)

lemma when_tree_sec:
  "when_tree t g ks p y = map_option (\<lambda>z. (z, sec_pos t ks p))
     (case first_with t (drop (after p) ks) of None \<Rightarrow> Some y | Some k \<Rightarrow> map_option fst (g k None y))"
  using find_pass_none(2) [of t ks p] find_pass(2) [of t ks p]
  by (cases "x_FindElem (Some t) ks p") (simp_all add: sec_pos_def when_tree_def option.map_comp comp_def)

lemma fold_opt_append: "fold_opt f (xs @ ys) y = do { z \<leftarrow> fold_opt f xs y; fold_opt f ys z }"
  by (induction xs arbitrary: y) (auto split: Option.bind_split)

lemma fold_opt_map: "fold_opt f (map h xs) = fold_opt (\<lambda>x. f (h x)) xs"
  by (induction xs; rule ext; simp)

lemma fold_opt_concat: "fold_opt f (concat xss) y = fold_opt (fold_opt f) xss y"
  by (induction xss arbitrary: y) (auto simp: fold_opt_append split: Option.bind_split)

lemma while_first: "map_option fst (while_tree t g ks None y) = fold_opt (\<lambda>k y. map_option fst (g k None y)) (tagged t ks) y"
  by (simp add: while_tree_def later_def after_def tagged_def option.map_comp comp_def option.map_ident)

lemma child_first: "map_option fst (child_tree t f e None y) = fold_opt f (tagged t (kids e)) y"
  by (simp add: child_tree_def later_def after_def tagged_def option.map_comp comp_def option.map_ident)

lemma fold_opt_None:
  assumes "\<And>k y. k \<in> set ks \<Longrightarrow> f k y = None \<longleftrightarrow> bad k"
  shows "fold_opt f ks y = None \<longleftrightarrow> (\<exists>k \<in> set ks. bad k)"
  using assms
proof (induction ks arbitrary: y)
  case (Cons k ks)
  have k: "f k y = None \<longleftrightarrow> bad k" using Cons.prems by simp
  show ?case
  proof (cases "f k y")
    case (Some z)
    then show ?thesis using k Cons.IH [of z] Cons.prems by simp
  qed (use k in simp)
qed simp

lemma everywhere_first: "first_with t ks = Some k \<Longrightarrow> list_all (everywhere P) ks \<Longrightarrow> everywhere P k"
  by (auto simp: first_with_def find_Some_iff list_all_length)

lemma everywhere_tagged: "list_all (everywhere P) ks \<Longrightarrow> k \<in> set (tagged t ks) \<Longrightarrow> everywhere P k"
  by (auto simp: tagged_def list_all_iff)

lemma everywhere_sec: "list_all (everywhere P) ks \<Longrightarrow> list_all (everywhere P) (sec t ks)"
  by (auto simp: sec_def everywhere_kids dest: everywhere_first split: option.split)

lemma everywhere_pass: "list_all (everywhere P) ks \<Longrightarrow> list_all (everywhere P) (pass t ks)"
  using set_dropWhileD [of _ "\<lambda>k. tag k \<noteq> t" ks]
  by (auto simp: pass_def list_all_iff split: list.split)

lemma root_section:
  assumes "child_reader P (set_by f) (\<lambda>k y. Some (h k y))"
  shows "map_option fst (when_found t (while_found (FindChildElem u) (set_by f))
      \<lparr>mk_roots = roots, mk_parent = [], mk_pos = None, mk_child = None\<rparr> s) = Some (fold h (tagged u (sec t roots)) s)"
  unfolding sibling_reader.scans_fst [OF element_reader.when_scans [OF child_reader.while_reads [OF assms]]]
  by (auto simp: siblings_def when_tree_sec after_def child_first sec_def tagged_def option.map_comp comp_def
    fold_opt_Some [of _ h] option.map_ident split: option.split)

lemma bind_fst: "do { (y, m) \<leftarrow> r; Some (True, y) } = map_option (Pair True) (map_option fst r)"
  by (cases r) auto

text \<open>Sections that are each looked for from the first element.\<close>

lemma any_order:
  assumes "\<forall>(t, b) \<in> set l. element_reader P b (alone b)"
  shows "\<exists>G. sibling_reader P (in_order (map (\<lambda>(t, b). from_first (when_found t b)) l)) G \<and>
    (\<forall>ks p y. map_option fst (G ks p y) = fold_opt (\<lambda>(t, b) y. case first_with t ks of None \<Rightarrow> Some y
       | Some k \<Rightarrow> map_option fst (alone b k None y)) l y)"
  using assms
proof (induction l)
  case Nil
  show ?case by (intro exI [of _ "\<lambda>ks p y. Some (y, p)"] conjI) (simp_all add: none_scans del: in_order.simps)
next
  case (Cons tb l)
  obtain t b where tb: "tb = (t, b)" by (cases tb)
  obtain G where G: "sibling_reader P (in_order (map (\<lambda>(t, b). from_first (when_found t b)) l)) G"
    "\<And>ks p y. map_option fst (G ks p y) = fold_opt (\<lambda>(t, b) y. case first_with t ks of None \<Rightarrow> Some y
       | Some k \<Rightarrow> map_option fst (alone b k None y)) l y"
    using Cons by auto
  have b: "element_reader P b (alone b)" using Cons.prems tb by simp
  let ?W = "\<lambda>ks p. when_tree t (alone b) ks None"
  let ?H = "\<lambda>ks p y. do { (z, p') \<leftarrow> ?W ks p y; G ks p' z }"
  have "sibling_reader P (in_order (map (\<lambda>(t, b). from_first (when_found t b)) (tb # l))) ?H"
    unfolding tb list.map prod.case
    by (rule sibling_reader.then_scans [OF sibling_reader.first_scans [OF element_reader.when_scans [OF b]] G(1)])
  moreover have "map_option fst (?H ks p y) = fold_opt (\<lambda>(t, b) y. case first_with t ks of None \<Rightarrow> Some y
       | Some k \<Rightarrow> map_option fst (alone b k None y)) (tb # l) y" for ks p y
  proof (cases "case first_with t ks of None \<Rightarrow> Some y | Some k \<Rightarrow> map_option fst (alone b k None y)")
    case None
    then show ?thesis by (simp add: tb when_tree_sec after_def)
  next
    case (Some z)
    then show ?thesis by (simp add: tb when_tree_sec after_def G(2))
  qed
  ultimately show ?case by blast
qed

end
