(* ===== verification/PolicyXml.thy ===== *)
theory PolicyXml
  imports DlpPolicy Markup
begin

text \<open>
  Reading a policy out of its XML element: the \<open>parsePolicyInfo\<close> and \<open>setXml\<close> functions of
  \<open>PISupervisor/common/src/DLPPolicy.cpp\<close>, each as it moves through the document. The position is kept
  by every one of them, and what they read depends on the element alone; they return where no
  attribute is longer than the arrays some are copied to.
\<close>

subsection \<open>Controls and logs of Prevent+ policies\<close>

definition controls_parse :: "pp_controls step" where
  "controls_parse = in_order
     [set_by (\<lambda>m. ct_setTargetFile (GetAttrib ''target_file'' m) \<circ> ct_setType (GetAttrib ''type'' m)),
      while_found (FindChildElem ''control'')
        (set_by (\<lambda>m. ct_setControl (GetChildAttrib ''type'' m) (GetChildAttrib ''inspect'' m)))]"

definition conditions_parse :: "'a log_parent_scheme step" where
  "conditions_parse = while_found (FindChildElem ''condition'') (set_by (\<lambda>m. lp_addCondition (GetChildAttrib ''type'' m)))"

definition save_parse :: "save_file_copy step" where
  "save_parse = in_order
     [set_by (\<lambda>m s. (lp_setUse (GetAttrib ''use'' m) (lp_setType (GetAttrib ''type'' m) s))
        \<lparr>maxLimit := atoi (GetAttrib ''max_limit'' m), maxLimitUse := getValueAsBool (GetAttrib ''max_limit_use'' m)\<rparr>),
      conditions_parse]"

definition log_parse :: "pp_log step" where
  "log_parse = in_order
     [set_by (\<lambda>m. lp_setUse (GetAttrib ''use'' m) \<circ> lp_setType (GetAttrib ''type'' m)), conditions_parse,
      inside (while_found (FindElem ''save_filecopy'') (part_of saveFileCopy (\<lambda>s l. l\<lparr>saveFileCopy := s\<rparr>) save_parse))]"

text \<open>\<open>CDLPPolicy::parsePolicyInfo\<close>.\<close>

definition base_parse :: "dlp_policy step" where
  "base_parse = set_by (\<lambda>m p. p\<lparr>p_dlpType := atoi (GetAttrib ''dlppolicy_type'' m),
     p_dlpSubType := atoi (GetAttrib ''dlppolicy_subtype'' m), p_use := getValueAsBool (GetAttrib ''use'' m),
     p_name := GetAttrib ''dlppolicy_name'' m, p_guid := GetAttrib ''dlppolicy_guid'' m,
     p_revision := atoi (GetAttrib ''dlppolicy_revision'' m)\<rparr>)"

text \<open>\<open>CDLPPolicyPreventPlus::parsePolicyInfo\<close> behind the base class's; the log of blocked files, then
  from the first element again that of allowed ones.\<close>

definition pp_logs_parse :: "prevent_plus step" where
  "pp_logs_parse = in_order
     [when_found ''block'' (part_of blockLog (\<lambda>l pp. pp\<lparr>blockLog := l\<rparr>) log_parse),
      from_first (when_found ''allow'' (part_of allowLog (\<lambda>l pp. pp\<lparr>allowLog := l\<rparr>) log_parse))]"

definition pp_parse :: "prevent_plus step" where
  "pp_parse = inside (in_order
     [set_by (\<lambda>_ pp. pp\<lparr>pp_controls := clear_pp_controls\<rparr>),
      when_found ''controls'' (part_of pp_controls (\<lambda>c pp. pp\<lparr>pp_controls := c\<rparr>) controls_parse),
      set_by (\<lambda>_ pp. pp\<lparr>allowLog := clear_pp_log, blockLog := clear_pp_log\<rparr>),
      when_found ''log'' (inside pp_logs_parse),
      when_found ''notify'' (set_by (\<lambda>m. setNotify (GetAttrib ''type'' m)))])"

subsection \<open>The classes of Prevent+\<close>

definition copy_parse :: "copy_part step" where
  "copy_parse = inside (in_order
     [when_found ''advanced'' (set_by (\<lambda>m c. c\<lparr>warningOnFileCopy := getValueAsBool (GetAttrib ''warning_onfilecopy'' m)\<rparr>)),
      when_found ''media_list'' (in_order
        [set_by (\<lambda>m c. c\<lparr>mediaPermitType := atoi (GetAttrib ''type'' m)\<rparr>),
         while_found (FindChildElem ''media'')
           (set_by (\<lambda>m c. c\<lparr>mediaGuidList := mediaGuidList c @ [GetChildAttrib ''guid'' m]\<rparr>))])])"

definition fileNone :: int where [dlp]: "fileNone = -1"
definition fileAll :: int where [dlp]: "fileAll = 0"
definition fileInspectFound :: int where [dlp]: "fileInspectFound = 1"
definition fileInspectNotFound :: int where [dlp]: "fileInspectNotFound = 2"

definition setPrintWatermarkFileOptionAsString :: "string \<Rightarrow> print_part \<Rightarrow> print_part" where
  "setPrintWatermarkFileOptionAsString f p =
     (let lower = toLower f;
          w = (if lower = ''none'' then fileNone else if lower = ''all'' then fileAll
               else if lower = ''inspect_found'' then fileInspectFound
               else if lower = ''inspect_notfound'' then fileInspectNotFound else fileAll)
      in p\<lparr>watermarkFile := (if \<not> useWatermark p then fileNone else w)\<rparr>)"

definition print_attribs :: "(string \<Rightarrow> string) \<Rightarrow> print_part \<Rightarrow> print_part" where
  "print_attribs a p =
     (setPrintWatermarkFileOptionAsString (a ''watermark_file'')
       (p\<lparr>warningOnPrint := getValueAsBool (a ''warning_onprint''),
          showSerialNumber := getValueAsBool (a ''show_serialnumber''),
          saveCopyFoundPage := getValueAsBool (a ''option_savecopy_foundpage''),
          patternMaskingUse := getValueAsBool (a ''option_patternmaskinguse''),
          useWatermark := getValueAsBool (a ''use_watermark'')\<rparr>))
     \<lparr>differentWatermark := getValueAsBool (a ''different_watermark'')\<rparr>"

definition print_parse :: "print_part step" where
  "print_parse = inside (when_found ''advanced'' (set_by (\<lambda>m. print_attribs (\<lambda>a. GetAttrib a m))))"

definition app_setType :: "string \<Rightarrow> dlp_application \<Rightarrow> dlp_application" where
  "app_setType type a = a\<lparr>app_type := atoi type\<rparr>"

definition control_process :: "(string \<Rightarrow> string) \<Rightarrow> application_part \<Rightarrow> application_part" where
  "control_process a p =
     (let ap = (setFileName (a ''name'') ((app_setType (a ''type'') (CDLPApplication\<lparr>app_guid := a ''guid''\<rparr>))
            \<lparr>app_controlType := controltypeExecControl, app_display := a ''display''\<rparr>))
          \<lparr>app_binData := a ''check_binary_string''\<rparr>
      in p\<lparr>applicationList := applicationList p @ [ap], controlCount := controlCount p + 1,
           controlWindowsExecutableCount := controlWindowsExecutableCount p + (if isWindowsExecutable ap then 1 else 0)\<rparr>)"

definition file_access_process :: "(string \<Rightarrow> string) \<Rightarrow> application_part \<Rightarrow> application_part" where
  "file_access_process a p =
     (let ap = setFileName (a ''name'') (CDLPApplication\<lparr>app_type := typeCustom,
            app_controlType := controltypeFileOpenControl, app_display := a ''display''\<rparr>)
      in p\<lparr>applicationList := applicationList p @ [ap], preventCount := preventCount p + 1,
           preventWindowsExecutableCount := preventWindowsExecutableCount p + (if isWindowsExecutable ap then 1 else 0)\<rparr>)"

definition application_parse :: "application_part step" where
  "application_parse = in_order
     [set_by (\<lambda>_ p. p\<lparr>execControlBlockLog := False, applicationList := [], controlCount := 0, controlWindowsExecutableCount := 0,
          preventCount := 0, preventWindowsExecutableCount := 0\<rparr>),
      inside (in_order
        [when_found ''control_process'' (in_order
           [set_by (\<lambda>m p. p\<lparr>execControlBlockLog := getValueAsBool (GetAttrib ''log_block'' m)\<rparr>),
            while_found (FindChildElem ''process'') (set_by (\<lambda>m. control_process (\<lambda>a. GetChildAttrib a m)))]),
         when_found ''PIFileAccessControl''
           (while_found (FindChildElem ''process'') (set_by (\<lambda>m. file_access_process (\<lambda>a. GetChildAttrib a m))))])]"

definition clipboard_process :: "(string \<Rightarrow> string) \<Rightarrow> dlp_application list \<Rightarrow> dlp_application list" where
  "clipboard_process a l = l @ [(app_setType (a ''type'') CDLPApplication)\<lparr>app_display := a ''display'', app_fileName := a ''name''\<rparr>]"

definition clipboard_parse :: "dlp_application list step" where
  "clipboard_parse = inside (when_found ''control_paste_by_process''
     (while_found (FindChildElem ''process'') (set_by (\<lambda>m. clipboard_process (\<lambda>a. GetChildAttrib a m)))))"

subsection \<open>Media control and PC security\<close>

text \<open>\<open>strcpy\<close> into the two arrays of an \<open>MB_PERMIT\<close>.\<close>

definition permit_of :: "string \<Rightarrow> string \<Rightarrow> mb_permit option" where
  "permit_of name mid =
     (if length name < 128 \<and> length mid < 260 then Some \<lparr>czMediaName = name, czMediaID = mid\<rparr> else None)"

definition push_permit :: "('a \<Rightarrow> mb_permit list) \<Rightarrow> (mb_permit list \<Rightarrow> 'a \<Rightarrow> 'a) \<Rightarrow> 'a step" where
  "push_permit get put m p = do {
     x \<leftarrow> permit_of (GetChildAttrib ''medianame'' m) (GetChildAttrib ''mediaid'' m);
     Some (put (get p @ [x]) p, m)
   }"

definition bluetooth_parse :: "media_part step" where
  "bluetooth_parse = only_if (comm_bit commdeviceBlockBluetooth)
     (set_by (\<lambda>m p. p\<lparr>m_bBlockSelectedBluetooth := (''true'' = GetAttrib ''block_selected_bluetooth'' m)\<rparr>))"

definition wlan_list_parse :: "media_part step" where
  "wlan_list_parse = in_order [set_by (\<lambda>_ p. p\<lparr>m_wlanPermit := []\<rparr>),
     inside (while_found (FindElem ''wlan'') (set_by (\<lambda>m p. p\<lparr>m_wlanPermit := m_wlanPermit p @ [GetAttrib ''ssid'' m]\<rparr>)))]"

text \<open>The list is cleared if there is a first entry, and then read from the beginning.\<close>

definition usbmobile_list_parse :: "media_part step" where
  "usbmobile_list_parse = in_order
     [set_if_child ''usbmobile'' (\<lambda>p. p\<lparr>m_usbMobilePermit := []\<rparr>),
      from_first_child (while_found (FindChildElem ''usbmobile'')
        (push_permit m_usbMobilePermit (\<lambda>l p. p\<lparr>m_usbMobilePermit := l\<rparr>)))]"

definition removable_list_parse :: "media_part step" where
  "removable_list_parse = in_order
     [set_if_child ''removabledrive'' (\<lambda>p. p\<lparr>m_removablePermit := []\<rparr>),
      from_first_child (while_found (FindChildElem ''removabledrive'')
        (push_permit m_removablePermit (\<lambda>l p. p\<lparr>m_removablePermit := l\<rparr>)))]"

definition removable_type_parse :: "media_part step" where
  "removable_type_parse = set_by (\<lambda>m p. p\<lparr>m_removableAllowType := atoi (GetAttrib ''permit_allow_control_type'' m)\<rparr>)"

text \<open>Each block enters the element again and starts at its first child.\<close>

definition first_inside :: "string \<Rightarrow> 'a step \<Rightarrow> 'a step" where
  "first_inside t body = inside (from_first (when_found t body))"

definition removable_bits :: "media_part \<Rightarrow> bool" where
  "removable_bits p \<longleftrightarrow> etc_bit (or etcstorageBlockRemovableRead etcstorageBlockRemovableWrite) p"

definition media_control_parse :: "media_part step" where
  "media_control_parse = in_order
     [set_by (\<lambda>m p. p\<lparr>controlEtcStorage := word_of_int (atoi (GetAttrib ''etcstorage_control_type'' m)),
        controlCommDevice := word_of_int (atoi (GetAttrib ''commdevice_control_type'' m)),
        m_blockLog := getValueAsBool (GetAttrib ''log_block'' m)\<rparr>),
      first_inside ''bluetooth'' bluetooth_parse,
      only_if (comm_bit commdeviceBlockWLAN) (first_inside ''wlan_permit_list'' wlan_list_parse),
      only_if (comm_bit commdeviceBlockUSBMobile) (first_inside ''usbmobile_permit_list'' usbmobile_list_parse),
      only_if removable_bits (in_order
        [first_inside ''removabledrive_permit_list'' removable_list_parse,
         first_inside ''removabledrive'' removable_type_parse])]"

definition media_parse :: "media_part step" where
  "media_parse = inside (when_found ''control'' media_control_parse)"

text \<open>An empty attribute leaves the setting as it was.\<close>

definition set_if :: "string \<Rightarrow> (string \<Rightarrow> 'a \<Rightarrow> 'a) \<Rightarrow> 'a \<Rightarrow> 'a" where
  "set_if v f x = (if v = [] then x else f v x)"

definition share_attribs :: "(string \<Rightarrow> string) \<Rightarrow> share_folder \<Rightarrow> share_folder" where
  "share_attribs a s =
     set_if (a ''check_interval'') (\<lambda>v s. s\<lparr>sf_checkInterval := atoi v\<rparr>)
      (set_if (a ''block_everyone'') (\<lambda>v s. s\<lparr>sf_blockEveryOne := getValueAsBool v\<rparr>)
        (set_if (a ''block_default_drive'') (\<lambda>v s. s\<lparr>sf_blockDefault := getValueAsBool v\<rparr>)
          (set_if (a ''block'') (\<lambda>v s. s\<lparr>sf_blockAll := getValueAsBool v\<rparr>) s)))"

definition share_parse :: "share_folder step" where
  "share_parse = inside (when_found ''shared_folder'' (set_by (\<lambda>m. share_attribs (\<lambda>a. GetAttrib a m))))"

subsection \<open>The extended copy policy\<close>

definition CDLPControl_setXml :: "dlp_control step" where
  "CDLPControl_setXml = in_order
     [set_by (\<lambda>m c. c\<lparr>inspectOption := getInspectOption (GetAttrib ''type'' m),
        targetFile := getTargetFile (GetAttrib ''target_file'' m), purpose := atoi (GetAttrib ''purpose'' m)\<rparr>),
      while_found (FindChildElem ''control'')
        (set_by (\<lambda>m. setControlType (GetChildAttrib ''inspect'' m) (GetChildAttrib ''type'' m)))]"

definition CDLPFileCopy_setXml :: "dlp_file_copy step" where
  "CDLPFileCopy_setXml = when_found ''save_filecopy'' (in_order
     [set_by (\<lambda>m f. f\<lparr>lb_use := getValueAsBool (GetAttrib ''use'' m), lb_type := logbase_getType (GetAttrib ''type'' m),
        fc_maxUse := getValueAsBool (GetAttrib ''max_limit_use'' m), fc_maxLimit := atoi (GetAttrib ''max_limit'' m)\<rparr>),
      only_if (\<lambda>f. lb_type f = logConditional) (in_order
        [set_by (\<lambda>_ f. f\<lparr>lb_condition := 0\<rparr>),
         while_found (FindChildElem ''condition'')
           (set_by (\<lambda>m f. f\<lparr>lb_condition := or (lb_condition f) (logbase_getCondition (GetChildAttrib ''type'' m))\<rparr>))])])"

text \<open>What follows the search is done whether or not it succeeded; \<open>=\<close> where the file copies have \<open>|=\<close>.\<close>

definition log_attribs :: "(string \<Rightarrow> string) \<Rightarrow> dlp_log \<Rightarrow> dlp_log" where
  "log_attribs a l = l\<lparr>lb_use := getValueAsBool (a ''use''), lb_type := logbase_getType (a ''type'')\<rparr>"

definition log_conditions :: "dlp_log step" where
  "log_conditions = in_order
     [set_by (\<lambda>_ l. l\<lparr>lb_condition := 0\<rparr>),
      while_found (FindChildElem ''condition'') (set_by (\<lambda>m l. l\<lparr>lb_condition := logbase_getCondition (GetChildAttrib ''type'' m)\<rparr>))]"

definition CDLPLog_setXml :: "string \<Rightarrow> dlp_log step" where
  "CDLPLog_setXml elem = in_order
     [when_found elem (set_by (\<lambda>m. log_attribs (\<lambda>a. GetAttrib a m))),
      only_if (\<lambda>l. lb_type l = logConditional) log_conditions,
      if_inside (part_of fileCopy (\<lambda>f l. l\<lparr>fileCopy := f\<rparr>) CDLPFileCopy_setXml)]"

definition CDLPLogs_setXml :: "dlp_logs step" where
  "CDLPLogs_setXml = when_found ''log'' (if_inside (in_order
     [part_of logs_block (\<lambda>l g. g\<lparr>logs_block := l\<rparr>) (CDLPLog_setXml ''block''),
      part_of logs_allow (\<lambda>l g. g\<lparr>logs_allow := l\<rparr>) (CDLPLog_setXml ''allow'')]))"

definition CDLPCopyControl_setXml :: "copy_control step" where
  "CDLPCopyControl_setXml = in_order
     [set_by (\<lambda>m c. c\<lparr>usbDriveControl := \<lparr>selectType = atoi (GetAttrib ''select_type'' m),
        readPermit = getValueAsBool (GetAttrib ''read_permit'' m)\<rparr>\<rparr>),
      if_inside (in_order
        [while_found (FindElem ''controls'')
           (part_of (\<lambda>_. CDLPControl) (\<lambda>d c. c\<lparr>controls := controls c @ [d]\<rparr>) CDLPControl_setXml),
         part_of logs (\<lambda>g c. c\<lparr>logs := g\<rparr>) CDLPLogs_setXml])]"

definition CDLPCopyControls_setXml :: "copy_control list step" where
  "CDLPCopyControls_setXml = while_found (FindElem ''usb'') (part_of (\<lambda>_. CDLPCopyControl) (\<lambda>c l. l @ [c]) CDLPCopyControl_setXml)"

definition CDLPMediaInfo_setXml :: "copyex_part step" where
  "CDLPMediaInfo_setXml = in_order
     [set_by (\<lambda>_ x. x\<lparr>ex_guids := []\<rparr>),
      when_found ''media_list'' (in_order
        [set_by (\<lambda>m x. x\<lparr>ex_permitType := atoi (GetAttrib ''type'' m)\<rparr>),
         while_found (FindChildElem ''media'') (set_by (\<lambda>m x. x\<lparr>ex_guids := ex_guids x @ [GetChildAttrib ''guid'' m]\<rparr>))])]"

definition copyex_steps :: "copyex_part step" where
  "copyex_steps = in_order
     [part_of copyControls (\<lambda>l x. x\<lparr>copyControls := l\<rparr>) CDLPCopyControls_setXml,
      when_found ''notify'' (set_by (\<lambda>m x. x\<lparr>ex_notify := notify_of (GetAttrib ''type'' m)\<rparr>)),
      when_found ''advanced'' (set_by (\<lambda>m x. x\<lparr>ex_warning := getValueAsBool (GetAttrib ''warning_on_filecopy'' m)\<rparr>)),
      CDLPMediaInfo_setXml]"

definition copyex_parse :: "copyex_part step" where
  "copyex_parse = if_inside copyex_steps"

subsection \<open>Every class\<close>

text \<open>The virtual \<open>parsePolicyInfo\<close>: the base class first, then Prevent+ where the class has it (the extended copy
  policy leaves it out), then its own part. \<open>part_parse\<close> keeps the part in its class.\<close>

definition part_parse :: "('b \<Rightarrow> 'a) \<Rightarrow> (markup \<Rightarrow> 'b \<Rightarrow> ('b \<times> markup) option) \<Rightarrow> markup \<Rightarrow> 'b \<Rightarrow> ('a \<times> markup) option" where
  "part_parse put body m x = map_option (\<lambda>(y, m'). (put y, m')) (body m x)"

fun class_parse :: "markup \<Rightarrow> policy_class \<Rightarrow> (policy_class \<times> markup) option" where
  "class_parse m (PolicyCopy pp c) = do { (pp', m1) \<leftarrow> pp_parse m pp; part_parse (PolicyCopy pp') copy_parse m1 c }"
| "class_parse m (PolicyCopyEx pp c x) = part_parse (PolicyCopyEx pp c) copyex_parse m x"
| "class_parse m (PolicyUpload pp) = part_parse PolicyUpload pp_parse m pp"
| "class_parse m (PolicyPrint pp p) = do { (pp', m1) \<leftarrow> pp_parse m pp; part_parse (PolicyPrint pp') print_parse m1 p }"
| "class_parse m (PolicyApplication pp a) = do { (pp', m1) \<leftarrow> pp_parse m pp; part_parse (PolicyApplication pp') application_parse m1 a }"
| "class_parse m (PolicyClipboard pp l) = do { (pp', m1) \<leftarrow> pp_parse m pp; part_parse (PolicyClipboard pp') clipboard_parse m1 l }"
| "class_parse m (PolicySharedFolderCopy pp) = part_parse PolicySharedFolderCopy pp_parse m pp"
| "class_parse m (PolicyMedia p) = part_parse PolicyMedia media_parse m p"
| "class_parse m (PolicyPCSecurity s) = part_parse PolicyPCSecurity share_parse m s"

definition parsePolicyInfo :: "dlp_policy step" where
  "parsePolicyInfo = in_order [base_parse, part_of p_class (\<lambda>cl p. p\<lparr>p_class := cl\<rparr>) class_parse]"

text \<open>\<open>CDLPPolicyUpload::LoadControlList\<close>: names of processes, separated by carriage returns, a line for each
  entry; what is found before a step fails is kept.\<close>

definition CR :: char where "CR = CHR 0x0D"
definition LF :: char where "LF = CHR 0x0A"

definition upload_process :: "markup \<Rightarrow> string \<Rightarrow> (string \<times> markup) option" where
  "upload_process m0 s0 =
     (let m = snd (IntoElem m0);
          s = s0 @ GetAttrib ''name'' m @ [CR] @ GetAttrib ''target_name'' m @ [CR]
      in do {
        (s1, m1) \<leftarrow> while_found (FindChildElem ''path'') (set_by (\<lambda>m s. s @ GetChildAttrib ''name'' m @ [CR])) m s;
        Some (s1 @ [LF], snd (OutOfElem m1))
      })"

definition LoadControlList :: "xml list option \<Rightarrow> string option" where
  "LoadControlList file =
     (case Load file of None \<Rightarrow> Some []
      | Some m \<Rightarrow>
          (case FindElem ''pisecurity_upload'' m of
             (False, m1) \<Rightarrow> Some []
           | (True, m1) \<Rightarrow>
               (case FindChildElem ''hook_upload'' m1 of
                  (False, m2) \<Rightarrow> Some []
                | (True, m2) \<Rightarrow>
                    (case FindChildElem ''injection_list'' (snd (IntoElem m2)) of
                       (False, m3) \<Rightarrow> Some []
                     | (True, m3) \<Rightarrow>
                         map_option fst (while_found (FindChildElem ''process'') upload_process (snd (IntoElem m3)) [])))))"

subsection \<open>Every step reads its element only\<close>

text \<open>No attribute is longer than the shortest of the arrays attributes are copied to.\<close>

definition short :: "xml \<Rightarrow> bool" where
  "short e \<longleftrightarrow> list_all (\<lambda>(a, v). length v < 128) (attrs e)"

lemma short_attr: "short e \<Longrightarrow> length (attr e a) < 128"
  by (auto simp: short_def attr_def list_all_iff dest: map_of_SomeD split: option.split)

text \<open>The name of a permitted device fits.\<close>

lemma permit_looks:
  "child_reader short (push_permit get put)
     (\<lambda>k p. map_option (\<lambda>x. put (get p @ [x]) p) (permit_of (attr k ''medianame'') (attr k ''mediaid'')))"
proof
  show "everywhere short k \<Longrightarrow>
      map_option (\<lambda>x. put (get p @ [x]) p) (permit_of (attr k ''medianame'') (attr k ''mediaid'')) \<noteq> None" for k p
  proof -
    assume "everywhere short k"
    then have "short k" by (rule everywhere_here)
    then have "length (attr k ''medianame'') < 128" "length (attr k ''mediaid'') < 128" by (simp_all add: short_attr)
    then show ?thesis by (simp add: permit_of_def)
  qed
next
  show "child_elem m = Some k \<Longrightarrow> push_permit get put m p = map_option (\<lambda>z. (z, m))
      (map_option (\<lambda>x. put (get p @ [x]) p) (permit_of (attr k ''medianame'') (attr k ''mediaid'')))" for m k p
    by (cases "permit_of (attr k ''medianame'') (attr k ''mediaid'')") (simp_all add: push_permit_def)
qed

lemmas rules = element_rules sibling_rules set_looks permit_looks

text \<open>Each step is a reader: the rules follow its definition.\<close>

lemma controls_reads: "element_reader short controls_parse (alone controls_parse)"
  by (rule alone_reads(1), unfold controls_parse_def, (rule rules | simp)+)

lemma save_reads: "element_reader short save_parse (alone save_parse)"
  by (rule alone_reads(1), unfold save_parse_def conditions_parse_def, (rule rules | simp)+)

lemma log_reads: "element_reader short log_parse (alone log_parse)"
  by (rule alone_reads(1), unfold log_parse_def conditions_parse_def, (rule rules save_reads | simp)+)

lemma pp_reads: "element_reader short pp_parse (alone pp_parse)"
  by (rule alone_reads(1), unfold pp_parse_def pp_logs_parse_def, (rule rules controls_reads log_reads | simp)+)

lemma copy_reads: "element_reader short copy_parse (alone copy_parse)"
  by (rule alone_reads(1), unfold copy_parse_def, (rule rules | simp)+)

lemma print_reads: "element_reader short print_parse (alone print_parse)"
  by (rule alone_reads(1), unfold print_parse_def, (rule rules | simp add: print_attribs_def)+)

lemma application_reads: "element_reader short application_parse (alone application_parse)"
  by (rule alone_reads(1), unfold application_parse_def, (rule rules | simp add: control_process_def file_access_process_def)+)

lemma clipboard_reads: "element_reader short clipboard_parse (alone clipboard_parse)"
  by (rule alone_reads(1), unfold clipboard_parse_def, (rule rules | simp add: clipboard_process_def)+)

lemma media_reads: "element_reader short media_parse (alone media_parse)"
  by (rule alone_reads(1), unfold media_parse_def media_control_parse_def first_inside_def bluetooth_parse_def wlan_list_parse_def
    usbmobile_list_parse_def removable_list_parse_def removable_type_parse_def, (rule rules | simp)+)

lemma share_reads: "element_reader short share_parse (alone share_parse)"
  by (rule alone_reads(1), unfold share_parse_def, (rule rules | simp add: share_attribs_def)+)

lemma ex_control_reads: "element_reader short CDLPControl_setXml (alone CDLPControl_setXml)"
  by (rule alone_reads(1), unfold CDLPControl_setXml_def, (rule rules | simp)+)

lemma ex_media_scans: "\<exists>G. sibling_reader short CDLPMediaInfo_setXml G"
  by (rule exI, unfold CDLPMediaInfo_setXml_def, (rule rules | simp)+)

text \<open>The logs of the extended copy policy. Where \<open>block\<close> or \<open>allow\<close> is missing its copies of files are
  looked for in the element the search stopped at, so the step goes on from the child reached there.\<close>

definition into_file :: "dlp_log step" where
  "into_file = if_inside (part_of fileCopy (\<lambda>f l. l\<lparr>fileCopy := f\<rparr>) CDLPFileCopy_setXml)"

definition log_here :: "dlp_log step" where
  "log_here = in_order [set_by (\<lambda>m. log_attribs (\<lambda>a. GetAttrib a m)),
     only_if (\<lambda>l. lb_type l = logConditional) log_conditions, into_file]"

definition ex_log_tree :: "string \<Rightarrow> xml list \<Rightarrow> nat option \<Rightarrow> nat option \<Rightarrow> dlp_log \<Rightarrow> (dlp_log \<times> nat option \<times> nat option) option" where
  "ex_log_tree elem ks p c l =
     (case x_FindElem (Some elem) ks p of
        Some i \<Rightarrow> map_option (\<lambda>(z, d). (z, Some i, d)) (alone log_here (ks ! i) None l)
      | None \<Rightarrow> (case nth_elem ks p of None \<Rightarrow> Some (l, p, c)
                 | Some e \<Rightarrow> map_option (\<lambda>(z, d). (z, p, d)) (alone into_file e c l)))"

definition ex_logs_tree :: "xml \<Rightarrow> dlp_logs \<Rightarrow> (dlp_logs \<times> nat option) option" where
  "ex_logs_tree e g = do {
     (b, p, c) \<leftarrow> ex_log_tree ''block'' (kids e) None None (logs_block g);
     (a, q, d) \<leftarrow> ex_log_tree ''allow'' (kids e) p c (logs_allow g);
     Some (\<lparr>logs_block = b, logs_allow = a\<rparr>, q)
   }"

lemma file_scans: "\<exists>G. sibling_reader short CDLPFileCopy_setXml G"
  by (rule exI, unfold CDLPFileCopy_setXml_def, (rule rules | simp)+)

lemma into_file_reads: "element_reader short into_file (alone into_file)"
  using file_scans unfolding into_file_def by (blast intro: aloneI sibling_reader.if_inside_reads sibling_reader.part_scans)

lemma log_here_reads: "element_reader short log_here (alone log_here)"
  by (rule alone_reads(1), unfold log_here_def log_conditions_def, (rule rules into_file_reads | simp add: log_attribs_def)+)

lemma found_elem:
  "x_FindElem (Some t) (siblings m) (mk_pos m) = Some i \<Longrightarrow> main_elem (m\<lparr>mk_pos := Some i, mk_child := c\<rparr>) = Some (siblings m ! i)"
  using x_FindElem_Some(2) by (fastforce simp: main_elem_def nth_elem_def)

lemma CDLPLog_tree:
  assumes "lb_type l \<noteq> logConditional" and v: "\<And>i. mk_pos m = Some i \<Longrightarrow> i < length (siblings m)"
  shows "CDLPLog_setXml elem m l = map_option (\<lambda>(z, p, c). (z, m\<lparr>mk_pos := p, mk_child := c\<rparr>))
    (ex_log_tree elem (siblings m) (mk_pos m) (mk_child m) l)"
proof (cases "x_FindElem (Some elem) (siblings m) (mk_pos m)")
  case None
  note F = FindElem_simps(1) [OF None]
  show ?thesis
  proof (cases "mk_pos m")
    case p: None
    then show ?thesis using None F assms(1)
      by (simp add: CDLPLog_setXml_def when_found_def only_if_def ex_log_tree_def nth_elem_def if_inside_simps(1) into_file_def)
  next
    case p: (Some i)
    have e: "main_elem m = Some (siblings m ! i)" using p v by (simp add: main_elem_def nth_elem_def)
    have "CDLPLog_setXml elem m l = into_file m l"
      using F assms(1) by (simp add: CDLPLog_setXml_def when_found_def only_if_def into_file_def case_prod_beta')
    then show ?thesis using element_reader.reads [OF into_file_reads e, of l] None p v
      by (cases "alone into_file (siblings m ! i) (mk_child m) l") (auto simp: ex_log_tree_def nth_elem_def)
  qed
next
  case (Some i)
  let ?m = "m\<lparr>mk_pos := Some i, mk_child := None\<rparr>"
  have e: "main_elem ?m = Some (siblings m ! i)" by (rule found_elem [OF Some])
  have "CDLPLog_setXml elem m l = log_here ?m l"
    using FindElem_simps(2) [OF Some] by (simp add: CDLPLog_setXml_def log_here_def into_file_def when_found_def)
  then show ?thesis using element_reader.reads [OF log_here_reads e, of l] Some
    by (cases "alone log_here (siblings m ! i) None l") (auto simp: ex_log_tree_def)
qed

text \<open>Both logs, entered at a \<open>log\<close> element just found.\<close>

lemma ex_log_pos:
  "ex_log_tree elem ks p c l = Some (z, q, d) \<Longrightarrow> (\<And>i. p = Some i \<Longrightarrow> i < length ks) \<Longrightarrow> q = Some j \<Longrightarrow> j < length ks"
  using x_FindElem_Some(2) by (auto simp: ex_log_tree_def split: option.splits)

lemma CDLPLogs_tree:
  assumes "main_elem m = Some e" "mk_child m = None" "lb_type (logs_block g) \<noteq> logConditional" "lb_type (logs_allow g) \<noteq> logConditional"
  shows "if_inside (in_order
     [part_of logs_block (\<lambda>l g. g\<lparr>logs_block := l\<rparr>) (CDLPLog_setXml ''block''),
      part_of logs_allow (\<lambda>l g. g\<lparr>logs_allow := l\<rparr>) (CDLPLog_setXml ''allow'')]) m g =
    map_option (\<lambda>(z, c). (z, m\<lparr>mk_child := c\<rparr>)) (ex_logs_tree e g)"
proof -
  let ?m = "snd (IntoElem m)"
  note i = Into_simps [OF assms(1)]
  have b: "CDLPLog_setXml ''block'' ?m (logs_block g) =
      map_option (\<lambda>(z, p, c). (z, ?m\<lparr>mk_pos := p, mk_child := c\<rparr>)) (ex_log_tree ''block'' (kids e) None None (logs_block g))"
    using CDLPLog_tree [OF assms(3), of ?m "''block''"] i(1,2,4) assms(2) by simp
  show ?thesis
  proof (cases "ex_log_tree ''block'' (kids e) None None (logs_block g)")
    case None
    then show ?thesis using b by (simp add: if_inside_simps(3) [OF assms(1)] inside_def part_of_def ex_logs_tree_def)
  next
    case (Some r)
    obtain z p c where r: "r = (z, p, c)" by (cases r)
    let ?n = "?m\<lparr>mk_pos := p, mk_child := c\<rparr>"
    have "\<And>j. p = Some j \<Longrightarrow> j < length (kids e)" using ex_log_pos Some r by blast
    then have a: "CDLPLog_setXml ''allow'' ?n (logs_allow g) =
        map_option (\<lambda>(z, p, c). (z, ?m\<lparr>mk_pos := p, mk_child := c\<rparr>)) (ex_log_tree ''allow'' (kids e) p c (logs_allow g))"
      using CDLPLog_tree [OF assms(4), of ?n "''allow''"] i(2) by simp
    show ?thesis using a b Some r i(5)
      by (cases "ex_log_tree ''allow'' (kids e) p c (logs_allow g)")
        (auto simp: if_inside_simps(3) [OF assms(1)] inside_def part_of_def ex_logs_tree_def)
  qed
qed

lemma ex_log_total:
  assumes "list_all (everywhere short) ks"
  shows "ex_log_tree elem ks p c l \<noteq> None"
proof (cases "x_FindElem (Some elem) ks p")
  case None
  then show ?thesis using element_reader.returns [OF into_file_reads everywhere_nth [OF assms]]
    by (auto simp: ex_log_tree_def nth_elem_def split: option.split)
next
  case (Some i)
  then show ?thesis using element_reader.returns [OF log_here_reads everywhere_nth [OF assms]] x_FindElem_Some(2) [OF Some]
    by (auto simp: ex_log_tree_def)
qed

lemma new_logs_scan:
  "sibling_reader short (part_of (\<lambda>_. CDLPLogs) (\<lambda>g c. c\<lparr>logs := g\<rparr>) CDLPLogs_setXml)
     (\<lambda>ks p y. case x_FindElem (Some ''log'') ks p of None \<Rightarrow> Some (y\<lparr>logs := CDLPLogs\<rparr>, p)
       | Some i \<Rightarrow> map_option (\<lambda>(z, c). (y\<lparr>logs := z\<rparr>, Some i)) (ex_logs_tree (ks ! i) CDLPLogs))"
proof (unfold_locales, goal_cases)
  case (1 m y)
  show ?case
  proof (cases "x_FindElem (Some ''log'') (siblings m) (mk_pos m)")
    case None
    then show ?thesis using FindElem_simps(1) [OF None]
      by (intro exI [of _ "mk_child m"]) (simp add: part_of_def CDLPLogs_setXml_def when_found_def)
  next
    case (Some i)
    have *: "lb_type (logs_block CDLPLogs) \<noteq> logConditional" "lb_type (logs_allow CDLPLogs) \<noteq> logConditional"
      by (simp_all add: CDLPLogs_def CDLPLog_def dlp)
    from CDLPLogs_tree [OF found_elem [OF Some, of None] _ *] show ?thesis
      using FindElem_simps(2) [OF Some] Some
      by (cases "ex_logs_tree (siblings m ! i) CDLPLogs") (auto simp: part_of_def CDLPLogs_setXml_def when_found_def)
  qed
next
  case (2 ks p y)
  have "ex_logs_tree e CDLPLogs \<noteq> None" if "everywhere short e" for e
  proof -
    note k = everywhere_kids [OF that]
    obtain b q c where "ex_log_tree ''block'' (kids e) None None (logs_block CDLPLogs) = Some (b, q, c)"
      using ex_log_total [OF k, of "''block''" None None "logs_block CDLPLogs"] by auto
    then show ?thesis using ex_log_total [OF k, of "''allow''" q c "logs_allow CDLPLogs"]
      by (auto simp: ex_logs_tree_def)
  qed
  then show ?case using everywhere_nth [OF 2] x_FindElem_Some(2) by (fastforce split: option.split)
qed

text \<open>A copy control is read into a new object, whose logs the loop over its controls leaves alone.\<close>

definition push_control :: "copy_control step" where
  "push_control = part_of (\<lambda>_. CDLPControl) (\<lambda>d c. c\<lparr>controls := controls c @ [d]\<rparr>) CDLPControl_setXml"

lemma push_control_reads:
  "element_reader short push_control (\<lambda>e c y. map_option (\<lambda>(d, c). (y\<lparr>controls := controls y @ [d]\<rparr>, c))
     (alone CDLPControl_setXml e c CDLPControl))"
  unfolding push_control_def by (rule element_reader.part_reads [OF ex_control_reads])

lemma push_control_logs:
  assumes "while_found (FindElem ''controls'') push_control m y = Some (z, m')"
  shows "logs z = logs y"
proof -
  let ?g = "\<lambda>e c y. map_option (\<lambda>(d, c). (y\<lparr>controls := controls y @ [d]\<rparr>, c)) (alone CDLPControl_setXml e c CDLPControl)"
  obtain c where "while_found (FindElem ''controls'') push_control m y =
      map_option (\<lambda>(z, p). (z, m\<lparr>mk_pos := p, mk_child := c\<rparr>)) (while_tree ''controls'' ?g (siblings m) (mk_pos m) y)"
    using sibling_reader.scans [OF element_reader.while_scans [OF push_control_reads]] by blast
  then have "map_option (\<lambda>(z, p). (z, m\<lparr>mk_pos := p, mk_child := c\<rparr>)) (while_tree ''controls'' ?g (siblings m) (mk_pos m) y) =
      Some (z, m')"
    using assms by (rule trans [OF sym])
  then obtain p where "while_tree ''controls'' ?g (siblings m) (mk_pos m) y = Some (z, p)"
    by (auto simp: map_option_eq_Some simp del: map_option_eq_Some)
  then have "fold_opt (\<lambda>k y. map_option fst (?g k None y)) (later ''controls'' (siblings m) (mk_pos m)) y = Some z"
    by (auto simp: while_tree_def)
  then show ?thesis by (rule fold_opt_inv [where I = "\<lambda>z. logs z = logs y"]) auto
qed

lemma new_copy_control_reads:
  "element_reader short (part_of (\<lambda>_. CDLPCopyControl) (\<lambda>c l. l @ [c]) CDLPCopyControl_setXml)
     (alone (part_of (\<lambda>_. CDLPCopyControl) (\<lambda>c l. l @ [c]) CDLPCopyControl_setXml))"
proof -
  let ?set = "set_by (\<lambda>m c. c\<lparr>usbDriveControl := \<lparr>selectType = atoi (GetAttrib ''select_type'' m),
        readPermit = getValueAsBool (GetAttrib ''read_permit'' m)\<rparr>\<rparr>)"
  let ?loop = "while_found (FindElem ''controls'') push_control"
  let ?new = "in_order [?set, if_inside (in_order [?loop, part_of (\<lambda>_. CDLPLogs) (\<lambda>g c. c\<lparr>logs := g\<rparr>) CDLPLogs_setXml])]"
  have "element_reader short ?new (alone ?new)"
    by (rule alone_reads(1), (rule rules push_control_reads new_logs_scan | simp)+)
  from element_reader.part_reads [OF this, of "\<lambda>_. CDLPCopyControl" "\<lambda>c l. l @ [c]"]
  have r: "\<exists>g. element_reader short (part_of (\<lambda>_. CDLPCopyControl) (\<lambda>c l. l @ [c]) ?new) g" by blast
  have eq: "in_order [?loop, part_of (\<lambda>_. CDLPLogs) (\<lambda>g c. c\<lparr>logs := g\<rparr>) CDLPLogs_setXml] m c =
      in_order [?loop, part_of logs (\<lambda>g c. c\<lparr>logs := g\<rparr>) CDLPLogs_setXml] m c" if "logs c = CDLPLogs" for m c
    using push_control_logs [of m c] that by (cases "?loop m c") (auto simp: part_of_def)
  have "?new m CDLPCopyControl = CDLPCopyControl_setXml m CDLPCopyControl" for m
    unfolding CDLPCopyControl_setXml_def push_control_def [symmetric]
    by (simp add: set_by_def in_order.simps(2) [of ?set] del: in_order.simps(2))
      (rule if_inside_cong, rule eq, simp add: CDLPCopyControl_def)
  then have "part_of (\<lambda>_. CDLPCopyControl) (\<lambda>c l. l @ [c]) ?new = part_of (\<lambda>_. CDLPCopyControl) (\<lambda>c l. l @ [c]) CDLPCopyControl_setXml"
    by (intro ext) (simp add: part_of_def)
  with r show ?thesis by (auto intro: aloneI)
qed

lemma copyex_reads: "element_reader short copyex_parse (alone copyex_parse)"
proof -
  obtain G where "sibling_reader short CDLPMediaInfo_setXml G" using ex_media_scans by blast
  then show ?thesis
    by - (rule alone_reads(1), unfold copyex_parse_def copyex_steps_def CDLPCopyControls_setXml_def,
      (rule rules new_copy_control_reads | assumption | simp)+)
qed

lemma base_reads: "element_reader short base_parse (alone base_parse)"
  by (rule alone_reads(1), unfold base_parse_def, (rule rules | simp)+)

text \<open>The class of a policy stays what it was made as.\<close>

lemma one_part_reads:
  assumes "element_reader P body g"
  shows "element_reader P (\<lambda>m _. part_parse K body m x) (\<lambda>e c _. map_option (\<lambda>(z, d). (K z, d)) (g e c x))"
proof
  show "main_elem m = Some e \<Longrightarrow> part_parse K body m x =
      map_option (\<lambda>(z, c). (z, m\<lparr>mk_child := c\<rparr>)) (map_option (\<lambda>(z, d). (K z, d)) (g e (mk_child m) x))" for m e
    by (cases "g e (mk_child m) x") (auto simp: part_parse_def element_reader.reads [OF assms])
qed (use element_reader.returns [OF assms] in fastforce)

lemma two_parts_read:
  assumes "element_reader P body g" "element_reader P body2 g2"
  shows "element_reader P (\<lambda>m _. do { (z, m1) \<leftarrow> body m x; part_parse (K z) body2 m1 y })
    (\<lambda>e c _. do { (z, d) \<leftarrow> g e c x; map_option (\<lambda>(w, d). (K z w, d)) (g2 e d y) })"
proof
  fix m e
  assume m: "main_elem m = Some e"
  show "do { (z, m1) \<leftarrow> body m x; part_parse (K z) body2 m1 y } = map_option (\<lambda>(z, c). (z, m\<lparr>mk_child := c\<rparr>))
      (do { (z, d) \<leftarrow> g e (mk_child m) x; map_option (\<lambda>(w, d). (K z w, d)) (g2 e d y) })"
  proof (cases "g e (mk_child m) x")
    case (Some r)
    obtain z d where r: "r = (z, d)" by (cases r)
    have "main_elem (m\<lparr>mk_child := d\<rparr>) = Some e" using m by simp
    from element_reader.reads [OF one_part_reads [OF assms(2)] this] show ?thesis
      using Some r by (simp add: element_reader.reads [OF assms(1) m])
  qed (simp add: element_reader.reads [OF assms(1) m])
next
  show "everywhere P e \<Longrightarrow> do { (z, d) \<leftarrow> g e c x; map_option (\<lambda>(w, d). (K z w, d)) (g2 e d y) } \<noteq> None" for e c
    using element_reader.returns [OF assms(1), of e c x] element_reader.returns [OF assms(2), of e] by fastforce
qed

lemma class_reads: "element_reader short class_parse (alone class_parse)"
proof (rule pointwise_reads)
  show "\<exists>g. element_reader short (\<lambda>m _. class_parse m cl) g" for cl
    by (cases cl; simp only: class_parse.simps)
      (blast intro: one_part_reads two_parts_read pp_reads copy_reads copyex_reads print_reads application_reads
         clipboard_reads media_reads share_reads)+
qed

text \<open>So \<open>parsePolicyInfo\<close> reads the element of its policy and nothing else.\<close>

interpretation policy: element_reader short parsePolicyInfo "alone parsePolicyInfo"
  by (rule alone_reads(1), unfold parsePolicyInfo_def, (rule rules base_reads class_reads)+)

definition policy_of_elem :: "xml \<Rightarrow> dlp_policy \<Rightarrow> dlp_policy option" where
  "policy_of_elem e p = map_option fst (alone parsePolicyInfo e None p)"

lemma policy_of_short: "everywhere short e \<Longrightarrow> policy_of_elem e p \<noteq> None"
  using policy.returns by (simp add: policy_of_elem_def)

subsection \<open>The control list of uploads\<close>

text \<open>A line of the control list.\<close>

definition upload_line :: "xml \<Rightarrow> string" where
  "upload_line k = attr k ''name'' @ [CR] @ attr k ''target_name'' @ [CR] @
     concat (map (\<lambda>p. attr p ''name'' @ [CR]) (filter (\<lambda>p. tag p = ''path'') (kids k))) @ [LF]"


lemma push_lines: "fold_opt (\<lambda>k s. Some (s @ f k)) ks s = Some (s @ concat (map f ks))"
  by (induction ks arbitrary: s) simp_all

lemma upload_looks: "child_reader P upload_process (\<lambda>k s. Some (s @ upload_line k))"
proof
  fix m k s
  assume c: "child_elem m = Some k"
  obtain e where e: "main_elem m = Some e" using c by (auto simp: child_elem_def main_kids_def nth_elem_def split: option.splits)
  let ?n = "snd (IntoElem m)"
  note i = into_child [OF c]
  have "child_reader P (set_by (\<lambda>m s. s @ GetChildAttrib ''name'' m @ [CR])) (\<lambda>k s. Some (s @ attr k ''name'' @ [CR]))"
    by unfold_locales (simp_all add: set_by_def)
  from element_reader.reads [OF child_reader.while_reads [OF this] i(1)]
  have w: "while_found (FindChildElem ''path'') (set_by (\<lambda>m s. s @ GetChildAttrib ''name'' m @ [CR])) ?n t =
      Some (t @ concat (map (\<lambda>p. attr p ''name'' @ [CR]) (filter (\<lambda>p. tag p = ''path'') (kids k))),
        ?n\<lparr>mk_child := last_pos ''path'' (kids k) None\<rparr>)" for t
    by (simp add: child_tree_def push_lines [where f = "\<lambda>p. attr p ''name'' @ [CR]", simplified] later_def after_def i(2))
  have "snd (OutOfElem (?n\<lparr>mk_child := d\<rparr>)) = m" for d
  proof -
    have "?n\<lparr>mk_child := d\<rparr> = ?n\<lparr>mk_pos := mk_child m, mk_child := d\<rparr>"
      using Into_simps(1) [OF e] by (cases "snd (IntoElem m)") simp
    then show ?thesis using Into_simps(5) [OF e, where p = "mk_child m" and c = d] by simp
  qed
  then show "upload_process m s = map_option (\<lambda>z. (z, m)) (Some (s @ upload_line k))"
    using i(1) by (simp add: upload_process_def w upload_line_def)
qed simp

interpretation upload: child_reader short upload_process "\<lambda>k s. Some (s @ upload_line k)"
  by (rule upload_looks)

text \<open>C20: The control list of the upload hook is always built: a line for each process of the injection
  list, in the order of the document, with its name, its target's and its paths; where the document
  or the injection list is missing, the list is empty.\<close>

theorem upload_control_list:
  "LoadControlList doc = Some (case doc of None \<Rightarrow> []
     | Some roots \<Rightarrow> (case elem_at [''pisecurity_upload'', ''hook_upload'', ''injection_list''] roots of None \<Rightarrow> []
         | Some e \<Rightarrow> concat (map upload_line (filter (\<lambda>k. tag k = ''process'') (kids e)))))"
proof (cases doc)
  case (Some roots)
  let ?m = "\<lparr>mk_roots = roots, mk_parent = [], mk_pos = None, mk_child = None\<rparr>"
  have L: "Load doc = Some ?m" using Some by (simp add: Load_def)
  have s: "mk_pos ?m = None" "siblings ?m = roots" by (simp_all add: siblings_def)
  show ?thesis
  proof (cases "first_with ''pisecurity_upload'' roots")
    case None
    then show ?thesis using find_main(1) [OF s] L Some by (simp add: LoadControlList_def)
  next
    case a: (Some a)
    obtain m1 where m1: "FindElem ''pisecurity_upload'' ?m = (True, m1)" "main_elem m1 = Some a" "mk_child m1 = None"
      using find_main(2) [OF s a] by blast
    show ?thesis
    proof (cases "first_with ''hook_upload'' (kids a)")
      case None
      then show ?thesis using find_child(1) [OF m1(2,3)] m1(1) a L Some by (simp add: LoadControlList_def)
    next
      case b: (Some b)
      obtain m2 where m2: "FindChildElem ''hook_upload'' m1 = (True, m2)" "child_elem m2 = Some b"
        using find_child(2) [OF m1(2,3) b] by blast
      note i2 = into_child [OF m2(2)]
      show ?thesis
      proof (cases "first_with ''injection_list'' (kids b)")
        case None
        then show ?thesis using find_child(1) [OF i2] m1(1) m2(1) a b L Some by (simp add: LoadControlList_def)
      next
        case c: (Some c)
        obtain m3 where m3: "FindChildElem ''injection_list'' (snd (IntoElem m2)) = (True, m3)" "child_elem m3 = Some c"
          using find_child(2) [OF i2 c] by blast
        note i3 = into_child [OF m3(2)]
        show ?thesis using element_reader.reads [OF upload.while_reads i3(1)] m1(1) m2(1) m3(1) a b c L Some i3(2)
          by (simp add: LoadControlList_def child_tree_def push_lines later_def after_def)
      qed
    qed
  qed
qed (simp add: LoadControlList_def Load_def)

end
