(* ===== verification/PolicyLoad.thy ===== *)
theory PolicyLoad
  imports PolicyXml PolicyMan "HOL-Library.AList"
begin

text \<open>
  Loading the policies: \<open>load\<close> of \<open>CPIPolicyMan\<close> and what it calls (\<open>PISupervisor/src/PIPolicyMan.cpp\<close>). The
  documents are trees or could not be read; the configuration's \<open>isEnableWithSubType\<close>, what
  uninitialised members of a new policy hold and the expiry test are arguments.
\<close>

subsection \<open>The code\<close>

record named_class =
  nc_keyword :: string
  nc_name :: string

record mobile_class =
  um_type :: string
  um_basePath :: string
  um_keyword :: string

record policy_store =
  ps_man :: policy_man
  ndisClassList :: "named_class list"
  usbmobileClassList :: "named_class list"
  ndisList :: "named_class list"
  usbmobileList :: "mobile_class list"

definition put_man :: "policy_man \<Rightarrow> policy_store \<Rightarrow> policy_store" where
  "put_man pm s = s\<lparr>ps_man := pm\<rparr>"

definition policies_clear :: "policy_store \<Rightarrow> policy_store" where
  "policies_clear s = s\<lparr>ndisClassList := [], usbmobileClassList := [], ndisList := [], usbmobileList := [],
     ps_man := (ps_man s)\<lparr>onlinePolicyList := [], offlinePolicyList := [], commonPolicyList := [],
       enableMediaControlBlockLog := False\<rparr>\<rparr>"

text \<open>One policy of a policy set; it is left out when it cannot be created.\<close>

type_synonym junk = "policy_man \<Rightarrow> bool \<times> int"

definition new_policy :: "(int \<Rightarrow> bool) \<Rightarrow> junk \<Rightarrow> (string \<Rightarrow> string) \<Rightarrow> policy_man \<Rightarrow> dlp_policy option" where
  "new_policy enabled junk a pm =
     addDLPPolicy enabled (fst (junk pm)) (snd (junk pm)) (atoi (a ''dlppolicy_type'')) (atoi (a ''dlppolicy_subtype''))"

definition load_policy :: "(int \<Rightarrow> bool) \<Rightarrow> junk \<Rightarrow> string \<Rightarrow> policy_man step" where
  "load_policy enabled junk type m pm =
     (if isNullPolicy (GetAttrib ''dlppolicy_guid'' m) then Some (pm, m)
      else (case new_policy enabled junk (\<lambda>a. GetAttrib a m) pm of
              None \<Rightarrow> Some (pm, m)
            | Some p \<Rightarrow> do { (q, m') \<leftarrow> parsePolicyInfo m p; Some (push_policy type q pm, m') }))"

text \<open>One common policy: the null pointer of a policy that is not created is used.\<close>

definition load_common :: "(int \<Rightarrow> bool) \<Rightarrow> junk \<Rightarrow> policy_man step" where
  "load_common enabled junk m pm =
     (if isNullPolicy (GetAttrib ''guid'' m) then Some (pm, m)
      else do {
        p \<leftarrow> new_policy enabled junk (\<lambda>a. GetAttrib a m) pm;
        (q, m') \<leftarrow> parsePolicyInfo m p;
        Some (push_policy [] q pm, m')
      })"

definition named_class_of :: "(string \<Rightarrow> string) \<Rightarrow> named_class" where
  "named_class_of a = \<lparr>nc_keyword = a ''keyword'', nc_name = a ''name''\<rparr>"

definition usb_mobile_of :: "(string \<Rightarrow> string) \<Rightarrow> mobile_class" where
  "usb_mobile_of a = \<lparr>um_type = a ''type'', um_basePath = a ''base_path'', um_keyword = a ''keyword''\<rparr>"

definition load_sections :: "(int \<Rightarrow> bool) \<Rightarrow> junk \<Rightarrow> policy_store step" where
  "load_sections enabled junk = in_order
     [when_found ''policyset'' (inside (while_found (FindElem ''policy'')
        (by_attrib ''type'' (\<lambda>type. inside (while_found (FindElem ''dlppolicy'')
          (part_of ps_man put_man (load_policy enabled junk type))))))),
      when_found ''common'' (inside (while_found (FindElem ''dlppolicy'')
        (part_of ps_man put_man (load_common enabled junk)))),
      when_found ''ndis_class_list'' (while_found (FindChildElem ''ndis_class'')
        (set_by (\<lambda>m s. s\<lparr>ndisClassList := ndisClassList s @ [named_class_of (\<lambda>a. GetChildAttrib a m)]\<rparr>))),
      when_found ''usbmobile_class_list'' (while_found (FindChildElem ''usbmobile_class'')
        (set_by (\<lambda>m s. s\<lparr>usbmobileClassList := usbmobileClassList s @ [named_class_of (\<lambda>a. GetChildAttrib a m)]\<rparr>)))]"

definition policy_path :: "string list" where
  "policy_path = [''pisec_policy_info'', ''policy_list'', ''pisec_policy'']"

definition loadDLPPolicyXML :: "(int \<Rightarrow> bool) \<Rightarrow> junk \<Rightarrow> xml list option \<Rightarrow> policy_store \<Rightarrow> (bool \<times> policy_store) option" where
  "loadDLPPolicyXML enabled junk doc s =
     (case Load doc of None \<Rightarrow> Some (False, s)
      | Some m \<Rightarrow> (case findPath policy_path m of
           (False, m1) \<Rightarrow> Some (False, s)
         | (True, m1) \<Rightarrow> do { (s', m2) \<leftarrow> inside (load_sections enabled junk) m1 s; Some (True, s') }))"

definition loadNdisXml :: "xml list option \<Rightarrow> policy_store \<Rightarrow> (bool \<times> policy_store) option" where
  "loadNdisXml doc s =
     (case Load doc of None \<Rightarrow> Some (False, s)
      | Some m \<Rightarrow> do {
          (s', m1) \<leftarrow> when_found ''ndis_class_list'' (while_found (FindChildElem ''ndis_class'')
            (set_by (\<lambda>m s. s\<lparr>ndisList := ndisList s @ [named_class_of (\<lambda>a. GetChildAttrib a m)]\<rparr>))) m s;
          Some (True, s') })"

definition loadUSBMobileXml :: "xml list option \<Rightarrow> policy_store \<Rightarrow> (bool \<times> policy_store) option" where
  "loadUSBMobileXml doc s =
     (case Load doc of None \<Rightarrow> Some (False, s)
      | Some m \<Rightarrow> do {
          (s', m1) \<leftarrow> when_found ''usbmobile_list'' (while_found (FindChildElem ''usbmobile'')
            (set_by (\<lambda>m s. s\<lparr>usbmobileList := usbmobileList s @ [usb_mobile_of (\<lambda>a. GetChildAttrib a m)]\<rparr>))) m s;
          Some (True, s') })"

text \<open>\<open>CPIPolicyMan::load\<close>; the results of what it calls are not looked at.\<close>

definition load_policies ::
  "(int \<Rightarrow> bool) \<Rightarrow> junk \<Rightarrow> xml list option \<Rightarrow> xml list option \<Rightarrow> xml list option \<Rightarrow> policy_store \<Rightarrow> policy_store option" where
  "load_policies enabled junk ndis usbmobile policy s = do {
     (r1, s1) \<leftarrow> loadNdisXml ndis (policies_clear s);
     (r2, s2) \<leftarrow> loadUSBMobileXml usbmobile s1;
     (r3, s3) \<leftarrow> loadDLPPolicyXML enabled junk policy s2;
     let pm = validateDLPPolicyXml (ps_man s3) in
     Some (s3\<lparr>ps_man := pm\<lparr>enableMediaControlBlockLog := isEnableBlockLog pm\<rparr>\<rparr>)
   }"

text \<open>The registered drives; \<open>toInt\<close> is \<open>CPIUtil\<close>'s. The guid is tested for expiry, in place of the date.\<close>

definition media_data_of :: "(string \<Rightarrow> bool) \<Rightarrow> (string \<Rightarrow> string) \<Rightarrow> media_data" where
  "media_data_of expired a = \<lparr>md_serialNumber = a ''SerialNumber'', md_expireDate = a ''ExpireDate'',
     md_purpose = atoi (a ''Purpose''), md_type = atoi (a ''MediaType''),
     md_guid = (if expired (a ''MediaGuid'') then [] else a ''MediaGuid'')\<rparr>"

definition load_media :: "(string \<Rightarrow> bool) \<Rightarrow> (string \<Rightarrow> string) \<Rightarrow> (string \<times> media_data) list \<Rightarrow> (string \<times> media_data) list" where
  "load_media expired a l = (if a ''SerialNumber'' = [] then l
     else AList.update (a ''SerialNumber'') (media_data_of expired a) l)"

definition push_media :: "(string \<Rightarrow> bool) \<Rightarrow> (string \<times> media_data) list step" where
  "push_media expired = set_by (\<lambda>m. load_media expired (\<lambda>a. GetAttrib a m))"

definition permits_all :: "policy_man \<Rightarrow> bool" where
  "permits_all pm \<longleftrightarrow> (case getCurrentDLPPolicy dlptypePreventPlus dlpsubtypeCopyPreventPlus pm of
     None \<Rightarrow> False | Some p \<Rightarrow> policy_getMediaPermitType (p_class p) = Some mdPermitAll)"

definition reloadMediaList :: "(string \<Rightarrow> bool) \<Rightarrow> xml list option \<Rightarrow> policy_man \<Rightarrow> (bool \<times> policy_man) option" where
  "reloadMediaList expired doc pm0 =
     (let pm = pm0\<lparr>mediaList := []\<rparr>
      in if permits_all pm then Some (True, pm)
         else (case Load doc of None \<Rightarrow> Some (False, pm)
               | Some m \<Rightarrow> (case FindElem ''pisec_media_info'' m of
                    (False, m1) \<Rightarrow> Some (False, pm)
                  | (True, m1) \<Rightarrow> do {
                      (l, m2) \<leftarrow> inside (when_found ''media_list'' (inside (while_found (FindElem ''MediaData'') (push_media expired)))) m1 (mediaList pm);
                      Some (True, pm\<lparr>mediaList := l\<rparr>) })))"

subsection \<open>The document as sections\<close>

text \<open>The policies of a policy set, each with the type of the list it goes to.\<close>

definition policies_in :: "xml list \<Rightarrow> (string \<times> xml) list" where
  "policies_in ks = concat (map (\<lambda>p. map (Pair (attr p ''type'')) (tagged ''dlppolicy'' (kids p))) (tagged ''policy'' ks))"

definition add_policy :: "(int \<Rightarrow> bool) \<Rightarrow> junk \<Rightarrow> string \<times> xml \<Rightarrow> policy_man \<Rightarrow> policy_man option" where
  "add_policy enabled junk = (\<lambda>(type, e) pm.
     if isNullPolicy (attr e ''dlppolicy_guid'') then Some pm
     else (case new_policy enabled junk (attr e) pm of None \<Rightarrow> Some pm
           | Some p \<Rightarrow> map_option (\<lambda>q. push_policy type q pm) (policy_of_elem e p)))"

definition add_common :: "(int \<Rightarrow> bool) \<Rightarrow> junk \<Rightarrow> xml \<Rightarrow> policy_man \<Rightarrow> policy_man option" where
  "add_common enabled junk e pm =
     (if isNullPolicy (attr e ''guid'') then Some pm
      else do { p \<leftarrow> new_policy enabled junk (attr e) pm; q \<leftarrow> policy_of_elem e p; Some (push_policy [] q pm) })"

definition stored_sections :: "(int \<Rightarrow> bool) \<Rightarrow> junk \<Rightarrow> xml list \<Rightarrow> policy_store \<Rightarrow> policy_store option" where
  "stored_sections enabled junk ks s =
     (let k1 = pass ''policyset'' ks; k2 = pass ''common'' k1; k3 = pass ''ndis_class_list'' k2
      in do {
        pm1 \<leftarrow> fold_opt (add_policy enabled junk) (policies_in (sec ''policyset'' ks)) (ps_man s);
        pm2 \<leftarrow> fold_opt (add_common enabled junk) (tagged ''dlppolicy'' (sec ''common'' k1)) pm1;
        Some (s\<lparr>ps_man := pm2,
          ndisClassList := ndisClassList s @ map (\<lambda>k. named_class_of (attr k)) (tagged ''ndis_class'' (sec ''ndis_class_list'' k2)),
          usbmobileClassList := usbmobileClassList s @
            map (\<lambda>k. named_class_of (attr k)) (tagged ''usbmobile_class'' (sec ''usbmobile_class_list'' k3))\<rparr>)
      })"

lemma fold_opt_part:
  "fold_opt (\<lambda>k s. map_option (\<lambda>z. put_man z s) (f k (ps_man s))) ks s =
     map_option (\<lambda>z. put_man z s) (fold_opt f ks (ps_man s))"
proof (induction ks arbitrary: s)
  case (Cons k ks)
  then show ?case by (cases "f k (ps_man s)") (simp_all add: put_man_def comp_def option.map_comp)
qed (simp add: put_man_def)

text \<open>What the steps compute on the tree.\<close>

definition policy_tree :: "(int \<Rightarrow> bool) \<Rightarrow> junk \<Rightarrow> string \<Rightarrow> xml \<Rightarrow> nat option \<Rightarrow> policy_man \<Rightarrow> (policy_man \<times> nat option) option" where
  "policy_tree enabled junk type e c pm =
     (if isNullPolicy (attr e ''dlppolicy_guid'') then Some (pm, c)
      else (case new_policy enabled junk (attr e) pm of None \<Rightarrow> Some (pm, c)
            | Some p \<Rightarrow> map_option (\<lambda>(q, c). (push_policy type q pm, c)) (alone parsePolicyInfo e c p)))"

definition common_tree :: "(int \<Rightarrow> bool) \<Rightarrow> junk \<Rightarrow> xml \<Rightarrow> nat option \<Rightarrow> policy_man \<Rightarrow> (policy_man \<times> nat option) option" where
  "common_tree enabled junk e c pm =
     (if isNullPolicy (attr e ''guid'') then Some (pm, c)
      else do { p \<leftarrow> new_policy enabled junk (attr e) pm; (q, c) \<leftarrow> alone parsePolicyInfo e c p; Some (push_policy [] q pm, c) })"

lemma load_policy_reads: "element_reader short (load_policy enabled junk type) (policy_tree enabled junk type)"
proof
  fix m e pm
  assume m: "main_elem m = Some e"
  show "load_policy enabled junk type m pm =
      map_option (\<lambda>(z, c). (z, m\<lparr>mk_child := c\<rparr>)) (policy_tree enabled junk type e (mk_child m) pm)"
  proof (cases "new_policy enabled junk (attr e) pm")
    case (Some p)
    then show ?thesis using m policy.reads [OF m, of p]
      by (cases "alone parsePolicyInfo e (mk_child m) p") (auto simp: load_policy_def policy_tree_def main_attribs)
  qed (use m in \<open>simp add: load_policy_def policy_tree_def main_attribs\<close>)
next
  show "everywhere short e \<Longrightarrow> policy_tree enabled junk type e c pm \<noteq> None" for e c pm
    using policy.returns [of e c] by (fastforce simp: policy_tree_def split: option.split)
qed

text \<open>A policy the program can create.\<close>

definition creatable :: "(int \<Rightarrow> bool) \<Rightarrow> xml \<Rightarrow> bool" where
  "creatable enabled e \<longleftrightarrow> enabled (atoi (attr e ''dlppolicy_subtype'')) \<and>
     atoi (attr e ''dlppolicy_type'') \<in> {dlptypePreventPlus, dlptypeControl} \<and>
     class_of_subtype 0 (atoi (attr e ''dlppolicy_subtype'')) \<noteq> None"

definition loadable :: "(int \<Rightarrow> bool) \<Rightarrow> xml \<Rightarrow> bool" where
  "loadable enabled e \<longleftrightarrow> short e \<and> creatable enabled e"

lemma new_policy_creatable: "new_policy enabled junk (attr e) pm \<noteq> None \<longleftrightarrow> creatable enabled e"
  by (simp add: new_policy_def addDLPPolicy_def creatable_def class_of_subtype_def)

lemma load_common_reads: "element_reader (loadable enabled) (load_common enabled junk) (common_tree enabled junk)"
proof
  fix m e pm
  assume m: "main_elem m = Some e"
  show "load_common enabled junk m pm =
      map_option (\<lambda>(z, c). (z, m\<lparr>mk_child := c\<rparr>)) (common_tree enabled junk e (mk_child m) pm)"
  proof (cases "new_policy enabled junk (attr e) pm")
    case (Some p)
    then show ?thesis using m policy.reads [OF m, of p]
      by (cases "alone parsePolicyInfo e (mk_child m) p") (auto simp: load_common_def common_tree_def main_attribs)
  qed (use m in \<open>simp add: load_common_def common_tree_def main_attribs\<close>)
next
  fix e c pm
  assume l: "everywhere (loadable enabled) e"
  then have "everywhere short e" by (rule everywhere_mono [rotated]) (simp add: loadable_def)
  moreover obtain p where "new_policy enabled junk (attr e) pm = Some p"
    using everywhere_here [OF l] new_policy_creatable [of enabled junk e pm] by (auto simp: loadable_def)
  ultimately show "common_tree enabled junk e c pm \<noteq> None"
    using policy.returns [of e c p] by (auto simp: common_tree_def)
qed

definition group_tree :: "(int \<Rightarrow> bool) \<Rightarrow> junk \<Rightarrow> string \<Rightarrow> xml \<Rightarrow> nat option \<Rightarrow> policy_store \<Rightarrow> (policy_store \<times> nat option) option" where
  "group_tree enabled junk type e c s = while_tree ''dlppolicy''
     (\<lambda>e c s. map_option (\<lambda>(z, c). (put_man z s, c)) (policy_tree enabled junk type e c (ps_man s))) (kids e) c s"

definition policyset_tree :: "(int \<Rightarrow> bool) \<Rightarrow> junk \<Rightarrow> xml \<Rightarrow> nat option \<Rightarrow> policy_store \<Rightarrow> (policy_store \<times> nat option) option" where
  "policyset_tree enabled junk e c s =
     while_tree ''policy'' (\<lambda>e. group_tree enabled junk (attr e ''type'') e) (kids e) c s"

definition commons_tree :: "(int \<Rightarrow> bool) \<Rightarrow> junk \<Rightarrow> xml \<Rightarrow> nat option \<Rightarrow> policy_store \<Rightarrow> (policy_store \<times> nat option) option" where
  "commons_tree enabled junk e c s = while_tree ''dlppolicy''
     (\<lambda>e c s. map_option (\<lambda>(z, c). (put_man z s, c)) (common_tree enabled junk e c (ps_man s))) (kids e) c s"

definition push_ndis_class :: "xml \<Rightarrow> policy_store \<Rightarrow> policy_store" where
  "push_ndis_class k s = s\<lparr>ndisClassList := ndisClassList s @ [named_class_of (attr k)]\<rparr>"

definition push_usbmobile_class :: "xml \<Rightarrow> policy_store \<Rightarrow> policy_store" where
  "push_usbmobile_class k s = s\<lparr>usbmobileClassList := usbmobileClassList s @ [named_class_of (attr k)]\<rparr>"

lemma loadable_short: "loadable enabled e \<Longrightarrow> short e"
  by (simp add: loadable_def)

lemma load_policy_reads2: "element_reader (loadable enabled) (load_policy enabled junk type) (policy_tree enabled junk type)"
  by (rule element_reader_mono [OF load_policy_reads loadable_short])

lemma class_looks:
  "child_reader P (set_by (\<lambda>m s. s\<lparr>ndisClassList := ndisClassList s @ [named_class_of (\<lambda>a. GetChildAttrib a m)]\<rparr>))
     (\<lambda>k s. Some (push_ndis_class k s))"
  "child_reader P (set_by (\<lambda>m s. s\<lparr>usbmobileClassList := usbmobileClassList s @ [named_class_of (\<lambda>a. GetChildAttrib a m)]\<rparr>))
     (\<lambda>k s. Some (push_usbmobile_class k s))"
  by (unfold_locales; simp add: set_by_def child_attribs push_ndis_class_def push_usbmobile_class_def)+

text \<open>The four sections are read one behind the other.\<close>

definition sections_tree :: "(int \<Rightarrow> bool) \<Rightarrow> junk \<Rightarrow> xml list \<Rightarrow> nat option \<Rightarrow> policy_store \<Rightarrow> (policy_store \<times> nat option) option" where
  "sections_tree enabled junk ks p s = do {
     (s1, p1) \<leftarrow> when_tree ''policyset'' (policyset_tree enabled junk) ks p s;
     (s2, p2) \<leftarrow> when_tree ''common'' (commons_tree enabled junk) ks p1 s1;
     (s3, p3) \<leftarrow> when_tree ''ndis_class_list'' (child_tree ''ndis_class'' (\<lambda>k s. Some (push_ndis_class k s))) ks p2 s2;
     (s4, p4) \<leftarrow> when_tree ''usbmobile_class_list'' (child_tree ''usbmobile_class'' (\<lambda>k s. Some (push_usbmobile_class k s))) ks p3 s3;
     Some (s4, p4)
   }"

interpretation sections: sibling_reader "loadable enabled" "load_sections enabled junk" "sections_tree enabled junk"
  for enabled junk
proof -
  have "element_reader (loadable enabled) (inside (while_found (FindElem ''policy'') (by_attrib ''type'' (\<lambda>type.
      inside (while_found (FindElem ''dlppolicy'') (part_of ps_man put_man (load_policy enabled junk type)))))))
      (policyset_tree enabled junk)"
    unfolding policyset_tree_def [abs_def] group_tree_def [abs_def]
    by (intro rules load_policy_reads2)
  moreover have "element_reader (loadable enabled) (inside (while_found (FindElem ''dlppolicy'')
      (part_of ps_man put_man (load_common enabled junk)))) (commons_tree enabled junk)"
    unfolding commons_tree_def [abs_def] by (intro rules load_common_reads)
  ultimately show "sibling_reader (loadable enabled) (load_sections enabled junk) (sections_tree enabled junk)"
    unfolding load_sections_def sections_tree_def [abs_def] by (intro rules class_looks)
qed

lemma fst_put: "map_option fst (map_option (\<lambda>(z, c). (put_man z s, c)) r) = map_option (\<lambda>z. put_man z s) (map_option fst r)"
  by (cases r) auto

lemma policy_first: "map_option fst (policy_tree enabled junk type e None pm) = add_policy enabled junk (type, e) pm"
  by (auto simp: policy_tree_def add_policy_def policy_of_elem_def option.map_comp comp_def case_prod_beta' split: option.split)

lemma common_first: "map_option fst (common_tree enabled junk e None pm) = add_common enabled junk e pm"
  by (cases "new_policy enabled junk (attr e) pm"; cases "alone parsePolicyInfo e None (the (new_policy enabled junk (attr e) pm))")
    (auto simp: common_tree_def add_common_def policy_of_elem_def)

lemma policyset_first:
  "map_option fst (policyset_tree enabled junk e None s) =
     map_option (\<lambda>z. put_man z s) (fold_opt (add_policy enabled junk) (policies_in (kids e)) (ps_man s))"
proof -
  have g: "map_option fst (group_tree enabled junk type k None s) =
      map_option (\<lambda>z. put_man z s) (fold_opt (add_policy enabled junk) (map (Pair type) (tagged ''dlppolicy'' (kids k))) (ps_man s))"
    for type k s
    by (simp add: group_tree_def while_first fst_put policy_first fold_opt_map
      fold_opt_part [where f = "\<lambda>k. add_policy enabled junk (type, k)"])
  show ?thesis
    by (simp add: policyset_tree_def while_first g policies_in_def fold_opt_concat fold_opt_map
      fold_opt_part [where f = "\<lambda>k. fold_opt (\<lambda>x. add_policy enabled junk (attr k ''type'', x)) (tagged ''dlppolicy'' (kids k))"])
qed

lemma commons_first:
  "map_option fst (commons_tree enabled junk e None s) =
     map_option (\<lambda>z. put_man z s) (fold_opt (add_common enabled junk) (tagged ''dlppolicy'' (kids e)) (ps_man s))"
  by (simp add: commons_tree_def while_first fst_put common_first fold_opt_part)

lemma push_classes:
  "fold_opt (\<lambda>k s. Some (push_ndis_class k s)) ks s =
     Some (s\<lparr>ndisClassList := ndisClassList s @ map (\<lambda>k. named_class_of (attr k)) ks\<rparr>)"
  "fold_opt (\<lambda>k s. Some (push_usbmobile_class k s)) ks s =
     Some (s\<lparr>usbmobileClassList := usbmobileClassList s @ map (\<lambda>k. named_class_of (attr k)) ks\<rparr>)"
  by (induction ks arbitrary: s) (simp_all add: push_ndis_class_def push_usbmobile_class_def)

text \<open>A section that is missing has no elements.\<close>

lemma section_steps:
  "(case first_with t ks of None \<Rightarrow> Some s | Some k \<Rightarrow> map_option fst (policyset_tree enabled junk k None s)) =
     map_option (\<lambda>z. put_man z s) (fold_opt (add_policy enabled junk) (policies_in (sec t ks)) (ps_man s))"
  "(case first_with t ks of None \<Rightarrow> Some s | Some k \<Rightarrow> map_option fst (commons_tree enabled junk k None s)) =
     map_option (\<lambda>z. put_man z s) (fold_opt (add_common enabled junk) (tagged ''dlppolicy'' (sec t ks)) (ps_man s))"
  "(case first_with t ks of None \<Rightarrow> Some s | Some k \<Rightarrow> map_option fst (child_tree u (\<lambda>k s. Some (push_ndis_class k s)) k None s)) =
     Some (s\<lparr>ndisClassList := ndisClassList s @ map (\<lambda>k. named_class_of (attr k)) (tagged u (sec t ks))\<rparr>)"
  "(case first_with t ks of None \<Rightarrow> Some s | Some k \<Rightarrow> map_option fst (child_tree u (\<lambda>k s. Some (push_usbmobile_class k s)) k None s)) =
     Some (s\<lparr>usbmobileClassList := usbmobileClassList s @ map (\<lambda>k. named_class_of (attr k)) (tagged u (sec t ks))\<rparr>)"
  by (auto simp: sec_def policyset_first commons_first child_first push_classes put_man_def policies_in_def tagged_def split: option.split)

lemma sections_stored: "map_option fst (sections_tree enabled junk ks None s) = stored_sections enabled junk ks s"
proof -
  have [simp]: "drop (after None) ks = ks" by (simp add: after_def)
  show ?thesis
    by (cases "fold_opt (add_policy enabled junk) (policies_in (sec ''policyset'' ks)) (ps_man s)")
      (auto simp: sections_tree_def stored_sections_def when_tree_sec section_steps after_sec Let_def put_man_def comp_def
        split: Option.bind_split)
qed

subsection \<open>Loading is a fold over the policies of the document\<close>

lemma document_loaded:
  "loadDLPPolicyXML enabled junk doc s =
     (case doc of None \<Rightarrow> Some (False, s)
      | Some roots \<Rightarrow> (case elem_at policy_path roots of None \<Rightarrow> Some (False, s)
          | Some e \<Rightarrow> map_option (Pair True) (stored_sections enabled junk (kids e) s)))"
proof (cases doc)
  case (Some roots)
  let ?m = "\<lparr>mk_roots = roots, mk_parent = [], mk_pos = None, mk_child = None\<rparr>"
  have L: "Load doc = Some ?m" using Some by (simp add: Load_def)
  have path: "case elem_at policy_path roots of None \<Rightarrow> \<not> fst (findPath policy_path ?m)
      | Some e \<Rightarrow> fst (findPath policy_path ?m) \<and> main_elem (snd (findPath policy_path ?m)) = Some e \<and>
          mk_child (snd (findPath policy_path ?m)) = None"
    using findPath_elem [of policy_path ?m] by (simp add: policy_path_def)
  show ?thesis
  proof (cases "elem_at policy_path roots")
    case None
    then show ?thesis using path L Some by (cases "findPath policy_path ?m") (simp add: loadDLPPolicyXML_def)
  next
    case (Some e)
    obtain n where n: "findPath policy_path ?m = (True, n)" "main_elem n = Some e" "mk_child n = None"
      using path Some by (cases "findPath policy_path ?m") auto
    have "inside (load_sections enabled junk) n s =
        map_option (\<lambda>(z, c). (z, n\<lparr>mk_child := c\<rparr>)) (sections_tree enabled junk (kids e) None s)"
      using element_reader.reads [OF sections.inside_reads n(2)] n(3) by simp
    then have "map_option fst (inside (load_sections enabled junk) n s) = stored_sections enabled junk (kids e) s"
      by (simp add: sections_stored [symmetric] option.map_comp comp_def case_prod_beta')
    moreover have "loadDLPPolicyXML enabled junk doc s =
        map_option (Pair True) (map_option fst (inside (load_sections enabled junk) n s))"
      using L n(1) by (cases "inside (load_sections enabled junk) n s") (auto simp: loadDLPPolicyXML_def)
    ultimately show ?thesis using Some \<open>doc = Some roots\<close> by simp
  qed
qed (simp add: loadDLPPolicyXML_def Load_def)

text \<open>C6: Loading the policy document adds the policies of its policy set, in the order of the document,
  each to the list its group names and each as its element alone describes it, then the common ones,
  then the classes of network and mobile devices, where the sections are looked for one behind the
  other: one that stands before its predecessor is not found. Without the document or the path to
  the policy nothing is loaded. Policies that are the null policy, of an unknown type or not enabled
  are left out.\<close>

theorem policy_document_loaded:
  "loadDLPPolicyXML enabled junk doc s =
     (case doc of None \<Rightarrow> Some (False, s)
      | Some roots \<Rightarrow> (case elem_at policy_path roots of None \<Rightarrow> Some (False, s)
          | Some e \<Rightarrow> map_option (Pair True) (stored_sections enabled junk (kids e) s)))"
  by (rule document_loaded)

subsection \<open>When loading returns\<close>

lemma add_policy_short: "everywhere short e \<Longrightarrow> add_policy enabled junk (type, e) pm \<noteq> None"
  using policy_of_short by (fastforce simp: add_policy_def split: option.split)

lemma add_common_short:
  assumes "everywhere short e"
  shows "add_common enabled junk e pm = None \<longleftrightarrow> \<not> isNullPolicy (attr e ''guid'') \<and> \<not> creatable enabled e"
proof (cases "new_policy enabled junk (attr e) pm")
  case None
  then show ?thesis using new_policy_creatable [of enabled junk e pm] by (simp add: add_common_def)
next
  case (Some p)
  then show ?thesis using new_policy_creatable [of enabled junk e pm] policy_of_short [OF assms, of p] by (auto simp: add_common_def)
qed

definition push_ndis :: "xml \<Rightarrow> policy_store \<Rightarrow> policy_store" where
  "push_ndis k s = s\<lparr>ndisList := ndisList s @ [named_class_of (attr k)]\<rparr>"

definition push_usbmobile :: "xml \<Rightarrow> policy_store \<Rightarrow> policy_store" where
  "push_usbmobile k s = s\<lparr>usbmobileList := usbmobileList s @ [usb_mobile_of (attr k)]\<rparr>"

lemma list_looks:
  "child_reader P (set_by (\<lambda>m s. s\<lparr>ndisList := ndisList s @ [named_class_of (\<lambda>a. GetChildAttrib a m)]\<rparr>))
     (\<lambda>k s. Some (push_ndis k s))"
  "child_reader P (set_by (\<lambda>m s. s\<lparr>usbmobileList := usbmobileList s @ [usb_mobile_of (\<lambda>a. GetChildAttrib a m)]\<rparr>))
     (\<lambda>k s. Some (push_usbmobile k s))"
  by (unfold_locales; simp add: set_by_def child_attribs push_ndis_def push_usbmobile_def)+

lemma loadNdis_tree:
  "loadNdisXml doc s = Some (case doc of None \<Rightarrow> (False, s)
     | Some roots \<Rightarrow> (True, fold push_ndis (tagged ''ndis_class'' (sec ''ndis_class_list'' roots)) s))"
  by (cases doc) (simp_all add: loadNdisXml_def Load_def bind_fst root_section [OF list_looks(1)] del: map_option_eq_Some)

lemma loadUSBMobile_tree:
  "loadUSBMobileXml doc s = Some (case doc of None \<Rightarrow> (False, s)
     | Some roots \<Rightarrow> (True, fold push_usbmobile (tagged ''usbmobile'' (sec ''usbmobile_list'' roots)) s))"
  by (cases doc) (simp_all add: loadUSBMobileXml_def Load_def bind_fst root_section [OF list_looks(2)] del: map_option_eq_Some)

lemma push_man [simp]: "ps_man (push_ndis k s) = ps_man s" "ps_man (push_usbmobile k s) = ps_man s"
  by (simp_all add: push_ndis_def push_usbmobile_def)

lemma fold_ndis_man: "ps_man (fold push_ndis ks s) = ps_man s"
  by (induction ks arbitrary: s) simp_all

lemma fold_usbmobile_man: "ps_man (fold push_usbmobile ks s) = ps_man s"
  by (induction ks arbitrary: s) simp_all

lemma ndis_total: "\<exists>r s'. loadNdisXml doc s = Some (r, s') \<and> ps_man s' = ps_man s"
proof (cases doc)
  case None
  then show ?thesis by (auto simp: loadNdis_tree)
next
  case (Some roots)
  then show ?thesis by (auto simp: loadNdis_tree fold_ndis_man)
qed

lemma usbmobile_total: "\<exists>r s'. loadUSBMobileXml doc s = Some (r, s') \<and> ps_man s' = ps_man s"
proof (cases doc)
  case None
  then show ?thesis by (auto simp: loadUSBMobile_tree)
next
  case (Some roots)
  then show ?thesis by (auto simp: loadUSBMobile_tree fold_usbmobile_man)
qed

text \<open>The common policies of a document.\<close>

definition commons_of :: "xml \<Rightarrow> xml list" where
  "commons_of e = tagged ''dlppolicy'' (sec ''common'' (pass ''policyset'' (kids e)))"


definition doc_of :: "xml list \<Rightarrow> xml list" where
  "doc_of ks = [Elem ''pisec_policy_info'' [] [] [Elem ''policy_list'' [] [] [Elem ''pisec_policy'' [] [] ks]]]"

lemma doc_elem [simp]: "elem_at policy_path (doc_of ks) = Some (Elem ''pisec_policy'' [] [] ks)"
  by (simp add: policy_path_def doc_of_def first_with_def)


subsection \<open>The policies a document leaves are consistent\<close>

text \<open>What the element of a policy decides, and what it leaves as the policy was made.\<close>

lemma class_parse_kind: "class_parse m cl = Some (cl', m') \<Longrightarrow> class_kind cl' = class_kind cl"
  by (cases cl) (auto simp: part_parse_def bind_eq_Some_conv)

lemma policy_of_facts:
  assumes "policy_of_elem e p = Some q"
  shows "p_dlpType q = atoi (attr e ''dlppolicy_type'')" "p_dlpSubType q = atoi (attr e ''dlppolicy_subtype'')"
    "p_use q = getValueAsBool (attr e ''use'')" "p_guid q = attr e ''dlppolicy_guid''"
    "p_virtualType q = p_virtualType p" "p_enableDeviceRule q = p_enableDeviceRule p" "p_rule q = p_rule p"
    "class_kind (p_class q) = class_kind (p_class p)"
proof -
  obtain cl m where "class_parse (solo e None) (p_class p) = Some (cl, m)"
    "q = (p\<lparr>p_dlpType := atoi (attr e ''dlppolicy_type''), p_dlpSubType := atoi (attr e ''dlppolicy_subtype''),
       p_use := getValueAsBool (attr e ''use''), p_name := attr e ''dlppolicy_name'', p_guid := attr e ''dlppolicy_guid'',
       p_revision := atoi (attr e ''dlppolicy_revision'')\<rparr>)\<lparr>p_class := cl\<rparr>"
    using assms by (auto simp: policy_of_elem_def alone_def parsePolicyInfo_def base_parse_def set_by_def part_of_def bind_eq_Some_conv)
  then show "p_dlpType q = atoi (attr e ''dlppolicy_type'')" "p_dlpSubType q = atoi (attr e ''dlppolicy_subtype'')"
    "p_use q = getValueAsBool (attr e ''use'')" "p_guid q = attr e ''dlppolicy_guid''"
    "p_virtualType q = p_virtualType p" "p_enableDeviceRule q = p_enableDeviceRule p" "p_rule q = p_rule p"
    "class_kind (p_class q) = class_kind (p_class p)"
    using class_parse_kind by simp_all
qed

definition loaded_ok :: "(int \<Rightarrow> bool) \<Rightarrow> dlp_policy \<Rightarrow> bool" where
  "loaded_ok enabled p \<longleftrightarrow> enabled (p_dlpSubType p) \<and> p_dlpType p \<in> {dlptypePreventPlus, dlptypeControl} \<and>
     snd (class_kind (p_class p)) = (p_dlpSubType p, p_virtualType p) \<and> p_enableDeviceRule p \<and> virtualType (p_rule p) = [] \<and>
     deviceEx (p_rule p) = new_device_ex"

lemma made_ok:
  assumes "new_policy enabled junk (attr e) pm = Some p" "policy_of_elem e p = Some q"
  shows "loaded_ok enabled q"
proof -
  have "snd (class_kind cl) = (sub, vt)" if "class_of_subtype n sub = Some (cl, vt)" for n sub cl vt
    using that by (auto simp: class_of_subtype_def split: if_splits)
  then show ?thesis using assms(1) policy_of_facts [OF assms(2)]
    by (auto simp: loaded_ok_def new_policy_def addDLPPolicy_def CPISecRule_def rule_clear_def split: if_splits)
qed

definition all_policies :: "policy_man \<Rightarrow> dlp_policy set" where
  "all_policies pm = set (onlinePolicyList pm) \<union> set (offlinePolicyList pm) \<union> set (commonPolicyList pm)"

lemma push_all: "all_policies (push_policy type p pm) = insert p (all_policies pm)"
  by (auto simp: push_policy_def all_policies_def)

lemma add_ok:
  "add_policy enabled junk te pm = Some pm' \<Longrightarrow> \<forall>p \<in> all_policies pm. loaded_ok enabled p \<Longrightarrow> \<forall>p \<in> all_policies pm'. loaded_ok enabled p"
  "add_common enabled junk e pm = Some pm' \<Longrightarrow> \<forall>p \<in> all_policies pm. loaded_ok enabled p \<Longrightarrow> \<forall>p \<in> all_policies pm'. loaded_ok enabled p"
  by (auto simp: add_policy_def add_common_def push_all bind_eq_Some_conv dest: made_ok split: if_splits option.splits prod.splits)

text \<open>Off line nothing asks for an approval.\<close>

definition asks :: "policy_class \<Rightarrow> bool" where
  "asks cl \<longleftrightarrow> (case cl of PolicyCopyEx _ _ _ \<Rightarrow> False
     | _ \<Rightarrow> (case as_PreventPlus cl of None \<Rightarrow> False | Some pp \<Rightarrow> pp_asks (pp_controls pp)))"

lemma change_asks: "\<not> asks (changeControlApprovalToBlock cl)" "class_kind (changeControlApprovalToBlock cl) = class_kind cl"
  by (cases cl; simp add: asks_def changeControlApprovalToBlock_def pp_change_asks)+

lemma validate_policies:
  assumes "\<forall>p \<in> all_policies pm. loaded_ok enabled p"
  shows "\<forall>p \<in> all_policies (validateDLPPolicyXml pm). loaded_ok enabled p"
    "\<forall>p \<in> set (offlinePolicyList (validateDLPPolicyXml pm)). \<not> asks (p_class p)"
proof -
  have "loaded_ok enabled (p\<lparr>p_class := changeControlApprovalToBlock (p_class p)\<rparr>) = loaded_ok enabled p" for p
    by (simp add: loaded_ok_def change_asks)
  then show "\<forall>p \<in> all_policies (validateDLPPolicyXml pm). loaded_ok enabled p"
    using assms by (auto simp: validateDLPPolicyXml_def all_policies_def split: option.splits)
  show "\<forall>p \<in> set (offlinePolicyList (validateDLPPolicyXml pm)). \<not> asks (p_class p)"
    by (auto simp: validateDLPPolicyXml_def change_asks split: option.splits) (auto simp: asks_def split: policy_class.splits)
qed

lemma loaded_consistent:
  assumes "load_policies enabled junk ndis usbmobile doc s = Some s'"
  shows "\<forall>p \<in> all_policies (ps_man s'). loaded_ok enabled p"
    "\<forall>p \<in> set (offlinePolicyList (ps_man s')). \<not> asks (p_class p)"
proof -
  obtain r1 s1 where 1: "loadNdisXml ndis (policies_clear s) = Some (r1, s1)" "ps_man s1 = ps_man (policies_clear s)"
    using ndis_total by blast
  obtain r2 s2 where 2: "loadUSBMobileXml usbmobile s1 = Some (r2, s2)" "ps_man s2 = ps_man s1"
    using usbmobile_total by blast
  obtain r3 s3 where 3: "loadDLPPolicyXML enabled junk doc s2 = Some (r3, s3)"
    using assms 1(1) 2(1) by (auto simp: load_policies_def bind_eq_Some_conv)
  have "\<forall>p \<in> all_policies (ps_man s2). loaded_ok enabled p"
    using 1(2) 2(2) by (simp add: policies_clear_def all_policies_def)
  then have "\<forall>p \<in> all_policies (ps_man s3). loaded_ok enabled p"
    using 3 unfolding document_loaded
    by (auto simp: stored_sections_def Let_def bind_eq_Some_conv split: option.splits
      dest!: fold_opt_inv [where I = "\<lambda>pm. \<forall>p \<in> all_policies pm. loaded_ok enabled p"] dest: add_ok)
  note v = validate_policies [OF this]
  have "ps_man s' = (validateDLPPolicyXml (ps_man s3))\<lparr>enableMediaControlBlockLog := isEnableBlockLog (validateDLPPolicyXml (ps_man s3))\<rparr>"
    using assms 1(1) 2(1) 3 by (auto simp: load_policies_def Let_def)
  then show "\<forall>p \<in> all_policies (ps_man s'). loaded_ok enabled p"
    "\<forall>p \<in> set (offlinePolicyList (ps_man s')). \<not> asks (p_class p)"
    using v by (simp_all add: all_policies_def)
qed

lemma loaded_policy_ok:
  "loaded_ok enabled p \<Longrightarrow> p_dlpType p = fst (class_kind (p_class p)) \<Longrightarrow> policy_ok p"
  by (cases "class_kind (p_class p)") (simp add: loaded_ok_def policy_ok_def)


text \<open>A document with a media policy and a copy policy on line.\<close>

definition media_elem :: xml where
  "media_elem = Elem ''dlppolicy'' [(''dlppolicy_type'', ''2''), (''dlppolicy_subtype'', ''6''), (''use'', ''true'')] [] []"

definition copy_elem :: xml where
  "copy_elem = Elem ''dlppolicy'' [(''dlppolicy_type'', ''1''), (''dlppolicy_subtype'', ''1''), (''use'', ''true'')] [] []"

definition sample_doc :: "xml list" where
  "sample_doc = doc_of [Elem ''policyset'' [] [] [Elem ''policy'' [(''type'', ''online'')] [] [media_elem, copy_elem]]]"

definition no_junk :: junk where
  "no_junk = (\<lambda>_. (False, 0))"

definition empty_store :: policy_store where
  "empty_store = \<lparr>ps_man = online_man [], ndisClassList = [], usbmobileClassList = [], ndisList = [], usbmobileList = []\<rparr>"

definition sample_copy :: dlp_policy where
  "sample_copy = policy_of (PolicyCopy (clear_prevent_plus\<lparr>pp_controls := clear_pp_controls, allowLog := clear_pp_log, blockLog := clear_pp_log\<rparr>) new_copy_part)"

lemma sample_attrs:
  "attr media_elem ''dlppolicy_guid'' = []" "attr copy_elem ''dlppolicy_guid'' = []"
  "attr media_elem ''dlppolicy_type'' = ''2''" "attr media_elem ''dlppolicy_subtype'' = ''6''"
  "attr copy_elem ''dlppolicy_type'' = ''1''" "attr copy_elem ''dlppolicy_subtype'' = ''1''"
  "attr media_elem ''use'' = ''true''" "attr copy_elem ''use'' = ''true''"
  "attr media_elem ''dlppolicy_name'' = []" "attr copy_elem ''dlppolicy_name'' = []"
  "attr media_elem ''dlppolicy_revision'' = []" "attr copy_elem ''dlppolicy_revision'' = []"
  "kids media_elem = []" "kids copy_elem = []"
  by (simp_all add: attr_def media_elem_def copy_elem_def)

lemma sample_atoi: "atoi ''1'' = 1" "atoi ''2'' = 2" "atoi ''6'' = 6" "atoi [] = 0"
  by (simp_all add: atoi_def digits_value_def digit_value_def is_digit_def white_space_def)

lemma not_found: "siblings m = [] \<Longrightarrow> when_found t b m x = Some (x, m)"
  by (simp add: when_found_def FindElem_def x_FindElem_def)

lemma childless:
  assumes "kids e = []"
  shows "siblings (snd (IntoElem (solo e None))) = []" "snd (OutOfElem (snd (IntoElem (solo e None)))) = solo e None"
  using assms by (auto simp: IntoElem_def OutOfElem_def solo_def siblings_def)

lemma childless_class:
  assumes "kids e = []"
  shows "class_parse (solo e None) (PolicyMedia m) = Some (PolicyMedia m, solo e None)"
    "class_parse (solo e None) (PolicyCopy pp c) = Some (PolicyCopy
       (pp\<lparr>pp_controls := clear_pp_controls, allowLog := clear_pp_log, blockLog := clear_pp_log\<rparr>) c, solo e None)"
  using childless [OF assms]
  by (simp_all add: part_parse_def media_parse_def pp_parse_def copy_parse_def inside_def not_found set_by_def)

lemma sample_media_policy:
  "new_policy (\<lambda>_. True) no_junk (attr media_elem) pm =
     Some ((policy_of (PolicyMedia (new_media_part 0)))\<lparr>p_dlpType := dlptypeControl\<rparr>)"
  "policy_of_elem media_elem (policy_of (PolicyMedia (new_media_part 0))) = Some (policy_of (PolicyMedia (new_media_part 0)))"
  by (simp_all add: new_policy_def addDLPPolicy_def sample_attrs sample_atoi no_junk_def class_of_subtype_def policy_of_def dlp
    policy_of_elem_def alone_def parsePolicyInfo_def base_parse_def set_by_def part_of_def childless_class sample_attrs getValueAsBool_def del: class_parse.simps)

lemma sample_copy_policy:
  "new_policy (\<lambda>_. True) no_junk (attr copy_elem) pm = Some (policy_of (PolicyCopy clear_prevent_plus new_copy_part))"
  "policy_of_elem copy_elem (policy_of (PolicyCopy clear_prevent_plus new_copy_part)) = Some sample_copy"
  by (simp_all add: new_policy_def addDLPPolicy_def sample_attrs sample_atoi no_junk_def class_of_subtype_def policy_of_def dlp
    policy_of_elem_def alone_def parsePolicyInfo_def base_parse_def set_by_def part_of_def childless_class sample_attrs getValueAsBool_def sample_copy_def del: class_parse.simps)

lemma sample_sections:
  "policies_in (sec ''policyset'' [Elem ''policyset'' [] [] [Elem ''policy'' [(''type'', ''online'')] [] [media_elem, copy_elem]]]) =
     [(''online'', media_elem), (''online'', copy_elem)]"
  "pass ''policyset'' [Elem ''policyset'' [] [] ks] = []" "pass t [] = []" "sec t [] = []" "tagged t [] = []"
  by (simp_all add: policies_in_def sec_def first_with_def tagged_def attr_def pass_def media_elem_def copy_elem_def)

lemma sample_loaded:
  "load_policies (\<lambda>_. True) no_junk None None (Some sample_doc) empty_store =
     Some (empty_store\<lparr>ps_man := online_man [policy_of (PolicyMedia (new_media_part 0)), sample_copy]\<rparr>)"
proof -
  have "isNullPolicy [] \<longleftrightarrow> False" by (simp add: isNullPolicy_def null_guid_def)
  then show ?thesis
    using sample_media_policy sample_copy_policy
    by (simp add: load_policies_def loadNdis_tree loadUSBMobile_tree document_loaded sample_doc_def stored_sections_def sample_sections
      add_policy_def sample_attrs push_policy_def empty_store_def policies_clear_def online_man_def validateDLPPolicyXml_def
      isEnableBlockLog_def current_list_def policy_isEnableBlockLog_def policy_of_def sample_copy_def new_media_part_def dlp)
qed


text \<open>C12: From the policy document to the rules: with one media policy in use, the rules for removable drives
  that are current after the document has been loaded are the media policy's if it blocks reading or
  writing; otherwise that of the first extended copy policy; otherwise those of the plain copy policies,
  and the media policy's again when no copy policy is in use.\<close>

theorem policy_file_to_rules:
  assumes "load_policies enabled junk ndis usbmobile doc s = Some s'"
    and "\<forall>p \<in> set (current_list (ps_man s')). p_dlpType p = fst (class_kind (p_class p))"
    and "filter used_media (current_list (ps_man s')) = [mp]" and "p_class mp = PolicyMedia m"
  shows "filter is_removable (snd (getCurrentRule (makeDeviceRule bw (ps_man s')))) =
    removable_verdict bw (current_list (ps_man s')) mp m"
proof (rule removable_rules)
  have "set (current_list (ps_man s')) \<subseteq> all_policies (ps_man s')" by (auto simp: current_list_def all_policies_def)
  then show "\<forall>p \<in> set (current_list (ps_man s')). policy_ok p \<and> p_enableDeviceRule p"
    using loaded_consistent(1) [OF assms(1)] assms(2) loaded_policy_ok by (force simp: loaded_ok_def)
qed (use assms in simp_all)

theorem policy_file_to_rules_witness:
  "\<exists>s'. load_policies (\<lambda>_. True) no_junk None None (Some sample_doc) empty_store = Some s' \<and>
     filter is_removable (snd (getCurrentRule (makeDeviceRule False (ps_man s')))) = [p_rule (addDeviceRule False sample_copy)]"
proof -
  let ?m = "policy_of (PolicyMedia (new_media_part 0))"
  have "used_media ?m" "\<not> used_media sample_copy" "\<not> used_ex ?m" "\<not> used_ex sample_copy" "\<not> used_copy ?m" "used_copy sample_copy"
    by (simp_all add: used_media_def used_ex_def used_copy_def policy_of_def sample_copy_def dlp)
  moreover have "\<not> media_blocks (new_media_part 0)" by (simp add: media_blocks_def etc_bit_def new_media_part_def)
  moreover have "p_dlpType ?m = fst (class_kind (p_class ?m))" "p_dlpType sample_copy = fst (class_kind (p_class sample_copy))"
      "p_class ?m = PolicyMedia (new_media_part 0)"
    by (simp_all add: policy_of_def sample_copy_def)
  ultimately show ?thesis
    using policy_file_to_rules [OF sample_loaded, of ?m "new_media_part 0" False] sample_loaded
    by (simp add: removable_verdict_def)
qed

subsection \<open>Registered drives\<close>

text \<open>The entry of a drive in the media document: the last one with its serial number. With a copy policy
  that permits all media the document is not read.\<close>

definition drive_entry :: "policy_man \<Rightarrow> xml list option \<Rightarrow> string \<Rightarrow> xml option" where
  "drive_entry pm doc serial =
     (case doc of None \<Rightarrow> None
      | Some roots \<Rightarrow> if permits_all pm then None
          else List.find (\<lambda>k. serial \<noteq> [] \<and> attr k ''SerialNumber'' = serial)
            (rev (tagged ''MediaData'' (sec ''media_list'' (sec ''pisec_media_info'' roots)))))"

lemma media_lookup:
  "map_of (fold (\<lambda>k. load_media expired (attr k)) ks l) serial =
     (case List.find (\<lambda>k. serial \<noteq> [] \<and> attr k ''SerialNumber'' = serial) (rev ks) of
        None \<Rightarrow> map_of l serial | Some k \<Rightarrow> Some (media_data_of expired (attr k)))"
  by (induction ks rule: rev_induct) (auto simp: load_media_def update_conv')

lemma permits_all_media [simp]: "permits_all (pm\<lparr>mediaList := l\<rparr>) = permits_all pm"
proof -
  have "current_list (pm\<lparr>mediaList := l\<rparr>) = current_list pm" by (simp add: current_list_def)
  then show ?thesis by (simp only: permits_all_def getCurrentDLPPolicy_def)
qed

lemma drive_reads: "element_reader short (push_media expired) (\<lambda>e c y. Some (load_media expired (attr e) y, c))"
  by unfold_locales (simp_all add: push_media_def set_by_def main_attribs)

lemma media_list_tree:
  assumes "main_elem m = Some e" "mk_child m = None"
  shows "map_option fst (inside (when_found ''media_list'' (inside (while_found (FindElem ''MediaData'') (push_media expired)))) m l) =
    Some (fold (\<lambda>k. load_media expired (attr k)) (tagged ''MediaData'' (sec ''media_list'' (kids e))) l)"
proof -
  note r = element_reader.reads [OF sibling_reader.inside_reads [OF element_reader.when_scans
    [OF sibling_reader.inside_reads [OF element_reader.while_scans [OF drive_reads]]]] assms(1)]
  have "fold_opt (\<lambda>k y. map_option fst (Some (load_media expired (attr k) y, None))) ks l =
      Some (fold (\<lambda>k. load_media expired (attr k)) ks l)" for ks l
    by (rule fold_opt_Some) simp
  then show ?thesis
    by (auto simp: r assms(2) when_tree_sec after_def while_first sec_def tagged_def option.map_comp comp_def case_prod_beta'
      option.map_ident split: option.split)
qed

lemma reload_media:
  "\<exists>r l. reloadMediaList expired doc pm = Some (r, pm\<lparr>mediaList := l\<rparr>) \<and>
     (\<forall>serial. map_of l serial = map_option (\<lambda>k. media_data_of expired (attr k)) (drive_entry pm doc serial))"
proof (cases "permits_all pm \<or> doc = None")
  case True
  then show ?thesis
    by (cases doc) (auto simp: reloadMediaList_def drive_entry_def Load_def Let_def)
next
  case False
  then obtain roots where doc: "doc = Some roots" by blast
  let ?m = "\<lparr>mk_roots = roots, mk_parent = [], mk_pos = None, mk_child = None\<rparr>"
  have s: "mk_pos ?m = None" "siblings ?m = roots" by (simp_all add: siblings_def)
  show ?thesis
  proof (cases "first_with ''pisec_media_info'' roots")
    case None
    then show ?thesis using find_main(1) [OF s] False doc
      by (intro exI [of _ False] exI [of _ "[]"])
        (simp add: reloadMediaList_def drive_entry_def Load_def Let_def sec_def tagged_def first_with_def)
  next
    case (Some e)
    obtain m1 where m1: "FindElem ''pisec_media_info'' ?m = (True, m1)" "main_elem m1 = Some e" "mk_child m1 = None"
      using find_main(2) [OF s Some] by blast
    let ?l = "fold (\<lambda>k. load_media expired (attr k)) (tagged ''MediaData'' (sec ''media_list'' (kids e))) []"
    obtain m2 where "inside (when_found ''media_list'' (inside (while_found (FindElem ''MediaData'') (push_media expired)))) m1 [] = Some (?l, m2)"
      using media_list_tree [OF m1(2,3), of expired "[]"] by auto
    then have "reloadMediaList expired doc pm = Some (True, pm\<lparr>mediaList := ?l\<rparr>)"
      using False doc m1(1) by (simp add: reloadMediaList_def Load_def Let_def)
    moreover have "map_of ?l serial = map_option (\<lambda>k. media_data_of expired (attr k)) (drive_entry pm doc serial)" for serial
      using False doc Some by (auto simp: media_lookup drive_entry_def sec_def split: option.split)
    ultimately show ?thesis by blast
  qed
qed

text \<open>C19: After the media document has been read again a drive is registered if and only if it has an
  entry with its serial number, and the guid that is found for it is that of the last such entry, or
  empty if the entry counts as expired; a serial number that is empty is never registered.\<close>

theorem registered_drives:
  "\<exists>r pm'. reloadMediaList expired doc pm = Some (r, pm') \<and>
     isRegisteredUSB serial pm' = (drive_entry pm doc serial \<noteq> None) \<and>
     getDLPUSBDrive serial pm' = (case drive_entry pm doc serial of None \<Rightarrow> []
       | Some k \<Rightarrow> md_guid (media_data_of expired (attr k)))"
proof -
  obtain r l where 1: "reloadMediaList expired doc pm = Some (r, pm\<lparr>mediaList := l\<rparr>)"
    "\<And>serial. map_of l serial = map_option (\<lambda>k. media_data_of expired (attr k)) (drive_entry pm doc serial)"
    using reload_media by metis
  have "drive_entry pm doc [] = None" by (auto simp: drive_entry_def find_None_iff split: option.split)
  then have "isRegisteredUSB serial (pm\<lparr>mediaList := l\<rparr>) = (drive_entry pm doc serial \<noteq> None)"
    using 1(2) [of serial] by (cases "serial = []"; cases l) (auto simp: isRegisteredUSB_def)
  moreover have "getDLPUSBDrive serial (pm\<lparr>mediaList := l\<rparr>) = (case drive_entry pm doc serial of None \<Rightarrow> []
      | Some k \<Rightarrow> md_guid (media_data_of expired (attr k)))"
    using 1(2) [of serial] by (cases "drive_entry pm doc serial"; cases l) (auto simp: getDLPUSBDrive_def)
  ultimately show ?thesis using 1(1) by blast
qed

end
