(* ===== verification/ConfigMan.thy ===== *)
theory ConfigMan
  imports DlpPolicy Markup "HOL-Library.Multiset"
begin

text \<open>
  \<open>CPIConfigMan\<close> (\<open>PISupervisor/src/PIConfigMan.cpp\<close>): the paths, the configuration and the documents they are
  read from. A document is a tree or could not be read. \<open>CPIConfigMan::clear\<close> leaves the list of enabled
  policies as it is, so does this model; the lists of names are appended to by every load.
\<close>

subsection \<open>Paths\<close>

record config_path =
  basePath :: string
  binPath :: string
  configPath :: string
  logPath :: string
  serveriPath :: string
  dlpLogPath :: string
  dlpConfigPath :: string
  wallImagePath :: string
  dlpPolicyFile :: string
  policySetFile :: string
  configFile :: string
  ndisFile :: string
  usbmobileFile :: string
  deviceLogFile :: string
  wallFile :: string
  processControlFile :: string
  mediaSerialFile :: string

definition path_clear :: config_path where
  "path_clear = \<lparr>basePath = [], binPath = [], configPath = [], logPath = [], serveriPath = [], dlpLogPath = [],
     dlpConfigPath = [], wallImagePath = [], dlpPolicyFile = [], policySetFile = [], configFile = [], ndisFile = [],
     usbmobileFile = [], deviceLogFile = [], wallFile = [], processControlFile = [], mediaSerialFile = []\<rparr>"

definition directory_steps :: "config_path step" where
  "directory_steps = in_order
     [when_found ''serveri'' (set_by (\<lambda>m p. p\<lparr>serveriPath := GetData m\<rparr>)),
      from_first (when_found ''bin'' (set_by (\<lambda>m p. p\<lparr>binPath := GetData m\<rparr>))),
      from_first (when_found ''config'' (set_by (\<lambda>m p. p\<lparr>configPath := GetData m\<rparr>))),
      from_first (when_found ''log'' (set_by (\<lambda>m p. p\<lparr>logPath := GetData m\<rparr>)))]"

text \<open>The document is that of \<open>directoryFile\<close>; whether \<open>directory\<close> is found is not looked at.\<close>

definition directoryFile :: "config_path \<Rightarrow> string" where
  "directoryFile p = (if basePath p \<noteq> [] then basePath p @ ''/directory_info.xml'' else ''directory_info.xml'')"

definition loadDirectoryInfo :: "xml list option \<Rightarrow> config_path \<Rightarrow> (bool \<times> config_path) option" where
  "loadDirectoryInfo doc p =
     (case Load doc of None \<Rightarrow> Some (False, p)
      | Some m \<Rightarrow> do { (p', m') \<leftarrow> inside directory_steps (snd (FindElem ''directory'' m)) p; Some (True, p') })"

text \<open>\<open>sprintf(path, "%s/...")\<close> into 1024 characters.\<close>

definition path_printf :: "string \<Rightarrow> string \<Rightarrow> string option" where
  "path_printf dir name = (if length dir + length name < 1024 then Some (dir @ name) else None)"

definition default_paths :: "config_path \<Rightarrow> config_path" where
  "default_paths p = p\<lparr>binPath := ''/usr/local/Privacy-i'', configPath := ''/usr/local/Privacy-i/discover/ProgramData/config'',
     logPath := ''/usr/local/Privacy-i/discover/ProgramData/log'', serveriPath := ''/usr/local/Privacy-i/discover''\<rparr>"

definition path_initialize :: "xml list option \<Rightarrow> config_path \<Rightarrow> config_path option" where
  "path_initialize doc p0 = do {
     (r, p1) \<leftarrow> loadDirectoryInfo doc (default_paths p0);
     let p = p1\<lparr>dlpConfigPath := configPath p1 @ ''/security'', dlpLogPath := logPath p1 @ ''/pisec'',
       wallImagePath := serveriPath p1 @ ''/ProgramData/Data''\<rparr>;
     policy \<leftarrow> path_printf (configPath p) ''/pb_dlp_info.xml'';
     wall \<leftarrow> path_printf (configPath p) ''/cm_pwinterface.xml'';
     policySet \<leftarrow> path_printf (dlpConfigPath p) ''/pisec_policyset.xml'';
     config \<leftarrow> path_printf (dlpConfigPath p) ''/pisec_supervisor.xml'';
     ndis \<leftarrow> path_printf (dlpConfigPath p) ''/pisec_ndis_control.xml'';
     usbmobile \<leftarrow> path_printf (dlpConfigPath p) ''/pisec_usbmobile_control.xml'';
     deviceLog \<leftarrow> path_printf (logPath p) ''/pisecmsg.pidb'';
     process \<leftarrow> path_printf (dlpConfigPath p) ''/pisec_process_control.xml'';
     media \<leftarrow> path_printf (configPath p) ''/pb_pisec_media_serial.xml'';
     Some (p\<lparr>dlpPolicyFile := policy, wallFile := wall, policySetFile := policySet, configFile := config, ndisFile := ndis,
       usbmobileFile := usbmobile, deviceLogFile := deviceLog, processControlFile := process, mediaSerialFile := media\<rparr>)
   }"

subsection \<open>The parts of the configuration\<close>

record config_log =
  log_depth :: int
  log_info :: bool
  log_debug :: bool
  log_error :: bool
  useTickCount :: bool

definition log_clear :: config_log where
  "log_clear = \<lparr>log_depth = 0, log_info = False, log_debug = False, log_error = True, useTickCount = False\<rparr>"

definition applyDepth :: "config_log \<Rightarrow> config_log" where
  "applyDepth l = l\<lparr>log_info := (log_depth l \<noteq> 0), log_debug := (log_depth l \<noteq> 0 \<and> log_depth l \<noteq> 1), log_error := True\<rparr>"

record socket_support =
  unsignedType :: bool
  bigEndian :: bool
  savePacket :: bool
  savePacketPath :: string

definition socket_clear :: socket_support where
  "socket_clear = \<lparr>unsignedType = True, bigEndian = False, savePacket = False, savePacketPath = []\<rparr>"

record config_wall =
  usePWDisk :: bool
  useSparse :: bool
  diskSizeGb :: int

definition wall_clear :: config_wall where
  "wall_clear = \<lparr>usePWDisk = False, useSparse = False, diskSizeGb = 1\<rparr>"

definition wall_steps :: "config_wall step" where
  "wall_steps = in_order
     [when_found ''PWManager'' (if_inside (from_first (when_found ''PWDISK''
        (set_by (\<lambda>m w. w\<lparr>usePWDisk := (''1'' = GetAttrib ''Enable'' m)\<rparr>))))),
      when_found ''PWDisk'' (if_inside (from_first (when_found ''Sparse''
        (set_by (\<lambda>m w. w\<lparr>useSparse := (''1'' = GetAttrib ''Enable'' m), diskSizeGb := atoi (GetAttrib ''DiskSize'' m)\<rparr>)))))]"

definition wall_loadConfig :: "xml list option \<Rightarrow> config_wall \<Rightarrow> (bool \<times> config_wall) option" where
  "wall_loadConfig doc w =
     (case Load doc of None \<Rightarrow> Some (False, w)
      | Some m \<Rightarrow> (case FindElem ''PrivacyWall_Interface'' m of
           (False, m1) \<Rightarrow> Some (False, w)
         | (True, m1) \<Rightarrow> (case IntoElem m1 of
              (False, m2) \<Rightarrow> Some (False, w)
            | (True, m2) \<Rightarrow> do { (w', m3) \<leftarrow> wall_steps m2 w; Some (True, w') })))"

record application_control =
  checkBinary :: bool
  checkFilePath :: bool
  skipWindowsExecutable :: bool
  allowedFileList :: "string set"
  allowedProcessList :: "string set"

definition app_control_clear :: application_control where
  "app_control_clear = \<lparr>checkBinary = False, checkFilePath = True, skipWindowsExecutable = True,
     allowedFileList = {}, allowedProcessList = {}\<rparr>"

text \<open>An empty attribute leaves the setting as it was.\<close>

definition setCheckBinary :: "string \<Rightarrow> application_control \<Rightarrow> application_control" where
  "setCheckBinary v a = (if length v = 0 then a else a\<lparr>checkBinary := getValueAsBool v\<rparr>)"

definition setCheckFilePath :: "string \<Rightarrow> application_control \<Rightarrow> application_control" where
  "setCheckFilePath v a = (if length v = 0 then a else a\<lparr>checkFilePath := getValueAsBool v\<rparr>)"

definition setSkipWindowsExecutable :: "string \<Rightarrow> application_control \<Rightarrow> application_control" where
  "setSkipWindowsExecutable v a = (if length v = 0 then a else a\<lparr>skipWindowsExecutable := getValueAsBool v\<rparr>)"

definition allow_list_steps :: "application_control step" where
  "allow_list_steps = in_order
     [when_found ''file_list'' (while_found (FindChildElem ''file'')
        (set_by (\<lambda>m a. a\<lparr>allowedFileList := insert (GetChildData m) (allowedFileList a)\<rparr>))),
      when_found ''process_list'' (while_found (FindChildElem ''process'')
        (set_by (\<lambda>m a. a\<lparr>allowedProcessList := insert (GetChildData m) (allowedProcessList a)\<rparr>)))]"

definition app_control_set :: "application_control step" where
  "app_control_set = in_order
     [set_by (\<lambda>m a. setSkipWindowsExecutable (GetAttrib ''skip_windows_exe'' m)
        (setCheckFilePath (GetAttrib ''check_filepath'' m) (setCheckBinary (GetAttrib ''check_binary'' m) a))),
      if_inside (when_found ''allow_list'' (if_inside allow_list_steps))]"

subsection \<open>The configuration\<close>

record config_man =
  c_log :: config_log
  c_socket :: socket_support
  c_wall :: config_wall
  enableList :: "int \<rightharpoonup> bool"
  applicationControl :: application_control
  ttlCycle :: int
  agentAutoRestartUse :: bool
  fileMonitorAutoRestartUse :: bool
  quarantinePath :: string
  copyPreventBlockWriteAll :: bool
  blockHidUse :: bool
  blockHidCCSpec :: bool
  cdsuAutoRestartUse :: bool
  driveManagementUse :: bool
  driveDefaultBlockUse :: bool
  unRegisterUSBReadBlockUse :: bool
  allowProcessList :: "string list"
  allowFolderList :: "string list"
  allowFileExtList :: "string list"
  allowUSBIDList :: "string list"
  blockDeviceIDList :: "string list"
  accessBlockRegistryList :: "string list"
  qtLimitUse :: bool
  m_bAirDropProtectUse :: bool
  m_bFDAEnable :: bool
  m_nFDACheckInterval :: int

definition config_clear :: "config_man \<Rightarrow> config_man" where
  "config_clear c = c\<lparr>c_log := log_clear, c_socket := socket_clear, c_wall := wall_clear, ttlCycle := 10,
     agentAutoRestartUse := False, fileMonitorAutoRestartUse := False, quarantinePath := [],
     copyPreventBlockWriteAll := False, blockHidUse := False, blockHidCCSpec := False, allowProcessList := [],
     allowFolderList := [], allowFileExtList := [], cdsuAutoRestartUse := False, driveManagementUse := False,
     driveDefaultBlockUse := False, unRegisterUSBReadBlockUse := False, blockDeviceIDList := [],
     accessBlockRegistryList := [], qtLimitUse := False, allowUSBIDList := [], m_bAirDropProtectUse := False,
     m_bFDAEnable := False, m_nFDACheckInterval := 0\<rparr>"

text \<open>\<open>CPIConfigMan()\<close>: every part is constructed, then cleared.\<close>

definition new_config :: config_man where
  "new_config = \<lparr>c_log = log_clear, c_socket = socket_clear, c_wall = wall_clear, enableList = Map.empty,
     applicationControl = app_control_clear, ttlCycle = 10, agentAutoRestartUse = False, fileMonitorAutoRestartUse = False,
     quarantinePath = [], copyPreventBlockWriteAll = False, blockHidUse = False, blockHidCCSpec = False,
     cdsuAutoRestartUse = False, driveManagementUse = False, driveDefaultBlockUse = False,
     unRegisterUSBReadBlockUse = False, allowProcessList = [], allowFolderList = [], allowFileExtList = [],
     allowUSBIDList = [], blockDeviceIDList = [], accessBlockRegistryList = [], qtLimitUse = False,
     m_bAirDropProtectUse = False, m_bFDAEnable = False, m_nFDACheckInterval = 0\<rparr>"

definition setTTLCycle :: "string \<Rightarrow> config_man \<Rightarrow> config_man" where
  "setTTLCycle v c =
     (let t = atoi v; t1 = (if t < 2 then 2 else t); t2 = (if t1 > 60 then 60 else t1) in c\<lparr>ttlCycle := t2\<rparr>)"

definition policy_set :: "int \<Rightarrow> string \<Rightarrow> config_man \<Rightarrow> config_man" where
  "policy_set sub v c = c\<lparr>enableList := (enableList c)(sub \<mapsto> getValueAsBool v)\<rparr>"

definition isEnableWithSubType :: "config_man \<Rightarrow> int \<Rightarrow> bool" where
  "isEnableWithSubType c sub = (case enableList c sub of None \<Rightarrow> True | Some b \<Rightarrow> b)"

definition toUpper :: "string \<Rightarrow> string" where
  "toUpper v = map toupper_c v"

text \<open>A list of names: those that are not empty, in upper case.\<close>

definition push_name :: "string \<Rightarrow> string list \<Rightarrow> string list" where
  "push_name v l = (if v \<noteq> [] then l @ [toUpper v] else l)"

definition read_names :: "string \<Rightarrow> string \<Rightarrow> string list step" where
  "read_names t a = while_found (FindChildElem t) (set_by (\<lambda>m. push_name (GetChildAttrib a m)))"

text \<open>A section that is a switch.\<close>

definition use_of :: "(bool \<Rightarrow> config_man \<Rightarrow> config_man) \<Rightarrow> config_man step" where
  "use_of put = set_by (\<lambda>m. put (getValueAsBool (GetAttrib ''use'' m)))"

definition application_section :: "config_man step" where
  "application_section = in_order
     [set_by (\<lambda>m c. let v = GetAttrib ''enable'' m in if 0 < length v then policy_set dlpsubtypeApplicationPreventPlus v c else c),
      part_of applicationControl (\<lambda>a c. c\<lparr>applicationControl := a\<rparr>) app_control_set]"

definition fda_section :: "config_man step" where
  "fda_section = set_by (\<lambda>m c.
     (let b = getValueAsBool (GetAttrib ''enable'' m); c1 = c\<lparr>m_bFDAEnable := b\<rparr>
      in if b then c1\<lparr>m_nFDACheckInterval := atoi (GetAttrib ''CheckInterval'' m)\<rparr> else c1))"

text \<open>The sections of \<open>pisecurity\<close> with what is read of each, in the order of the code.\<close>

definition config_sections :: "(string \<times> config_man step) list" where
  "config_sections =
     [(''filelog'', set_by (\<lambda>m c. c\<lparr>c_log := (c_log c)\<lparr>log_depth := atoi (GetAttrib ''depth'' m),
         useTickCount := getValueAsBool (GetAttrib ''use_tickcount'' m)\<rparr>\<rparr>)),
      (''socket'', set_by (\<lambda>m c. c\<lparr>c_socket := (c_socket c)\<lparr>unsignedType := getValueAsBool (GetAttrib ''use_unsigned_type'' m),
         bigEndian := getValueAsBool (GetAttrib ''use_big_endian'' m), savePacket := getValueAsBool (GetAttrib ''save_packet'' m)\<rparr>\<rparr>)),
      (''client'', set_by (\<lambda>m. setTTLCycle (GetAttrib ''ttlcycle'' m))),
      (''agent_auto_restart'', use_of (\<lambda>b c. c\<lparr>agentAutoRestartUse := b\<rparr>)),
      (''filemonitor_auto_restart'', use_of (\<lambda>b c. c\<lparr>fileMonitorAutoRestartUse := b\<rparr>)),
      (''copy_prevent'', set_by (\<lambda>m c. c\<lparr>quarantinePath := GetAttrib ''save_path'' m,
         copyPreventBlockWriteAll := getValueAsBool (GetAttrib ''block_write_all'' m)\<rparr>)),
      (''block_hid'', set_by (\<lambda>m c. c\<lparr>blockHidUse := getValueAsBool (GetAttrib ''use'' m),
         blockHidCCSpec := getValueAsBool (GetAttrib ''cc_spec'' m)\<rparr>)),
      (''allow_program_list'', part_of allowProcessList (\<lambda>l c. c\<lparr>allowProcessList := l\<rparr>) (read_names ''program'' ''name'')),
      (''allow_paths_for_ext'', part_of allowFolderList (\<lambda>l c. c\<lparr>allowFolderList := l\<rparr>) (read_names ''path'' ''name'')),
      (''allow_file_ext'', part_of allowFileExtList (\<lambda>l c. c\<lparr>allowFileExtList := l\<rparr>) (read_names ''ext'' ''name'')),
      (''cdsu_auto_restart'', use_of (\<lambda>b c. c\<lparr>cdsuAutoRestartUse := b\<rparr>)),
      (''drive_management'', use_of (\<lambda>b c. c\<lparr>driveManagementUse := b\<rparr>)),
      (''drive_policy_default_block'', use_of (\<lambda>b c. c\<lparr>driveDefaultBlockUse := b\<rparr>)),
      (''nonregister_usbdisk_read_block'', use_of (\<lambda>b c. c\<lparr>unRegisterUSBReadBlockUse := b\<rparr>)),
      (''block_device_list'', part_of blockDeviceIDList (\<lambda>l c. c\<lparr>blockDeviceIDList := l\<rparr>) (read_names ''device'' ''InstanceID'')),
      (''access_block_registry_list'', part_of accessBlockRegistryList (\<lambda>l c. c\<lparr>accessBlockRegistryList := l\<rparr>) (read_names ''registry'' ''name'')),
      (''QuarantineLimit'', use_of (\<lambda>b c. c\<lparr>qtLimitUse := b\<rparr>)),
      (''application_control'', application_section),
      (''airdrop_protect'', use_of (\<lambda>b c. c\<lparr>m_bAirDropProtectUse := b\<rparr>)),
      (''FullDiskAccessCheck'', fda_section)]"

definition config_steps :: "config_man step" where
  "config_steps = in_order (map (\<lambda>(t, b). from_first (when_found t b)) config_sections)"

definition loadConfig :: "xml list option \<Rightarrow> config_man \<Rightarrow> (bool \<times> config_man) option" where
  "loadConfig doc c =
     (case Load doc of None \<Rightarrow> Some (False, c)
      | Some m \<Rightarrow> (case FindElem ''pisecurity'' m of
           (False, m1) \<Rightarrow> Some (False, c)
         | (True, m1) \<Rightarrow> do { (c', m2) \<leftarrow> inside config_steps m1 c; Some (True, c') }))"

text \<open>The devices that are excepted: identifiers of at least 15 characters.\<close>

definition push_device :: "(string \<Rightarrow> string) \<Rightarrow> string list \<Rightarrow> string list option" where
  "push_device a l =
     (let usbId = a ''instanceid''
      in if usbId = [] \<or> length usbId < 15 then Some l
         else do { (r, v) \<leftarrow> replace usbId ''$'' ''&''; Some (l @ [v]) })"

definition device_step :: "string list step" where
  "device_step m l = map_option (\<lambda>l. (l, m)) (push_device (\<lambda>a. GetChildAttrib a m) l)"

definition loadExceptionDeviceList :: "xml list option \<Rightarrow> config_man \<Rightarrow> (bool \<times> config_man) option" where
  "loadExceptionDeviceList doc c0 =
     (let c = c0\<lparr>allowUSBIDList := []\<rparr>
      in case Load doc of None \<Rightarrow> Some (False, c)
         | Some m \<Rightarrow> (case FindElem ''allow_device_list'' m of
              (False, m1) \<Rightarrow> Some (False, c)
            | (True, m1) \<Rightarrow> do {
                (l, m2) \<leftarrow> while_found (FindChildElem ''usbdevice'') device_step m1 (allowUSBIDList c);
                Some (True, c\<lparr>allowUSBIDList := l\<rparr>) }))"

text \<open>\<open>CPIConfigMan::load\<close>, from the three documents.\<close>

definition config_load :: "xml list option \<Rightarrow> xml list option \<Rightarrow> xml list option \<Rightarrow> config_man \<Rightarrow> (bool \<times> config_man) option" where
  "config_load doc except wall c0 = do {
     (r, c) \<leftarrow> loadConfig doc c0;
     (if \<not> r then Some (False, c)
      else do {
        (r1, c1) \<leftarrow> loadExceptionDeviceList except (c\<lparr>c_log := applyDepth (c_log c)\<rparr>);
        (r2, w) \<leftarrow> wall_loadConfig wall (c_wall c1);
        Some (True, c1\<lparr>c_wall := w\<rparr>)
      })
   }"

text \<open>\<open>CPIConfigMan::save\<close>: the document that is written when none could be read.\<close>

definition config_save :: "xml list" where
  "config_save = [Elem ''pisecurity'' [] []
     [Elem ''filelog'' [(''depth'', ''0'')] [] [],
      Elem ''socket'' [(''use_unsigned_type'', ''true''), (''use_big_endian'', ''false''), (''save_packet'', ''false'')] [] [],
      Elem ''client'' [(''ttlcycle'', ''10'')] [] []]]"

definition isBlockWriteAll :: "config_man \<Rightarrow> bool" where
  "isBlockWriteAll c = copyPreventBlockWriteAll c"

subsection \<open>What a configuration document sets\<close>

text \<open>Every section is a reader, so what it sets depends on its element alone.\<close>

abbreviation any_elem :: "xml \<Rightarrow> bool" where "any_elem \<equiv> \<lambda>_. True"

lemma any_everywhere [simp]: "everywhere any_elem e"
  by (induction e) (simp add: list_all_iff)

lemmas config_rules = element_rules sibling_rules set_looks

lemma names_read: "element_reader any_elem (read_names t a) (alone (read_names t a))"
  by (rule alone_reads(1), unfold read_names_def, (rule config_rules | simp)+)

lemma use_read: "element_reader any_elem (use_of put) (alone (use_of put))"
  by (rule alone_reads(1), unfold use_of_def, (rule config_rules | simp)+)

lemma app_control_read: "element_reader any_elem app_control_set (alone app_control_set)"
  by (rule alone_reads(1), unfold app_control_set_def allow_list_steps_def, (rule config_rules | simp)+)

lemma application_read: "element_reader any_elem application_section (alone application_section)"
  by (rule alone_reads(1), unfold application_section_def, (rule config_rules app_control_read | simp add: Let_def)+)

lemma fda_read: "element_reader any_elem fda_section (alone fda_section)"
  by (rule alone_reads(1), unfold fda_section_def, (rule config_rules | simp add: Let_def)+)

lemma section_reads: "\<forall>(t, b) \<in> set config_sections. element_reader any_elem b (alone b)"
  unfolding config_sections_def
  by (simp add: use_read application_read fda_read)
    (intro conjI; (rule alone_reads(1), (rule config_rules names_read | simp)+))

definition section_value :: "config_man step \<Rightarrow> xml \<Rightarrow> config_man \<Rightarrow> config_man" where
  "section_value b k c = fst (the (alone b k None c))"

definition apply_sections :: "xml list \<Rightarrow> config_man \<Rightarrow> config_man" where
  "apply_sections ks = fold (\<lambda>(t, b) c. case first_with t ks of None \<Rightarrow> c | Some k \<Rightarrow> section_value b k c) config_sections"

lemma fold_opt_set: "(\<And>x y. x \<in> set l \<Longrightarrow> f x y = Some (h x y)) \<Longrightarrow> fold_opt f l y = Some (fold h l y)"
  by (induction l arbitrary: y) simp_all

lemma sections_apply:
  "fold_opt (\<lambda>(t, b) y. case first_with t ks of None \<Rightarrow> Some y | Some k \<Rightarrow> map_option fst (alone b k None y)) config_sections c =
     Some (apply_sections ks c)"
  unfolding apply_sections_def
proof (rule fold_opt_set, clarify)
  fix t b y
  assume "(t, b) \<in> set config_sections"
  then have "element_reader any_elem b (alone b)" using section_reads by blast
  then have r: "alone b k None y \<noteq> None" for k by (rule element_reader.returns) simp
  then show "(case first_with t ks of None \<Rightarrow> Some y | Some k \<Rightarrow> map_option fst (alone b k None y)) =
      Some (case first_with t ks of None \<Rightarrow> y | Some k \<Rightarrow> section_value b k y)"
  proof (cases "first_with t ks")
    case (Some k)
    then show ?thesis using r [of k] by (auto simp: section_value_def)
  qed simp
qed

lemma config_tree:
  "loadConfig doc c = Some (case doc of None \<Rightarrow> (False, c)
     | Some roots \<Rightarrow> (case first_with ''pisecurity'' roots of None \<Rightarrow> (False, c)
         | Some e \<Rightarrow> (True, apply_sections (kids e) c)))"
proof (cases doc)
  case (Some roots)
  let ?m = "\<lparr>mk_roots = roots, mk_parent = [], mk_pos = None, mk_child = None\<rparr>"
  have s: "mk_pos ?m = None" "siblings ?m = roots" by (simp_all add: siblings_def)
  show ?thesis
  proof (cases "first_with ''pisecurity'' roots")
    case None
    then show ?thesis using find_main(1) [OF s] Some by (simp add: loadConfig_def Load_def)
  next
    case (Some e)
    obtain m1 where m1: "FindElem ''pisecurity'' ?m = (True, m1)" "main_elem m1 = Some e"
      using find_main(2) [OF s Some] by blast
    obtain G where G: "sibling_reader any_elem config_steps G"
      "\<And>ks p y. map_option fst (G ks p y) = fold_opt (\<lambda>(t, b) y. case first_with t ks of None \<Rightarrow> Some y
         | Some k \<Rightarrow> map_option fst (alone b k None y)) config_sections y"
      using any_order [OF section_reads] unfolding config_steps_def by auto
    then have "map_option fst (G (kids e) (mk_child m1) c) = Some (apply_sections (kids e) c)"
      by (simp only: sections_apply)
    then have "map_option fst (inside config_steps m1 c) = Some (apply_sections (kids e) c)"
      using element_reader.reads [OF sibling_reader.inside_reads [OF G(1)] m1(2), of c]
      by (auto simp: option.map_comp comp_def case_prod_beta')
    then show ?thesis using Some \<open>doc = Some roots\<close> m1(1) by (auto simp: loadConfig_def Load_def)
  qed
qed (simp add: loadConfig_def Load_def)

text \<open>What the sections of names and the client section set.\<close>

lemma names_value:
  "map_option fst (alone (read_names t a) k None l) = Some (l @ map toUpper (filter (\<lambda>v. v \<noteq> []) (map (\<lambda>x. attr x a) (tagged t (kids k)))))"
proof -
  have "child_reader any_elem (set_by (\<lambda>m. push_name (GetChildAttrib a m))) (\<lambda>x l. Some (push_name (attr x a) l))"
    by unfold_locales (simp_all add: set_by_def)
  note r = child_reader.while_reads [OF this, of t]
  have "fold_opt (\<lambda>x l. Some (push_name (attr x a) l)) ks l = Some (l @ map toUpper (filter (\<lambda>v. v \<noteq> []) (map (\<lambda>x. attr x a) ks)))" for ks l
    by (induction ks arbitrary: l) (simp_all add: push_name_def)
  then show ?thesis using alone_reads(2) [OF r] by (simp add: read_names_def child_first del: map_option_eq_Some)
qed

text \<open>The values of the sections.\<close>

lemma section_values [simp]:
  "section_value (set_by f) k c = f (solo k None) c"
  "section_value (use_of put) k c = put (getValueAsBool (attr k ''use'')) c"
  "section_value (part_of get putl (read_names t a)) k c =
     putl (get c @ map toUpper (filter (\<lambda>v. v \<noteq> []) (map (\<lambda>x. attr x a) (tagged t (kids k))))) c"
proof -
  show "section_value (set_by f) k c = f (solo k None) c" "section_value (use_of put) k c = put (getValueAsBool (attr k ''use'')) c"
    by (simp_all add: section_value_def alone_def set_by_def use_of_def)
  show "section_value (part_of get putl (read_names t a)) k c =
     putl (get c @ map toUpper (filter (\<lambda>v. v \<noteq> []) (map (\<lambda>x. attr x a) (tagged t (kids k))))) c"
    using names_value [of t a k "get c"] by (auto simp: section_value_def alone_def part_of_def)
qed

lemma application_value:
  "\<exists>a. section_value application_section k c =
     (if 0 < length (attr k ''enable'') then policy_set dlpsubtypeApplicationPreventPlus (attr k ''enable'') c else c)\<lparr>applicationControl := a\<rparr>"
proof -
  have "alone app_control_set k None a \<noteq> None" for a
    by (rule element_reader.returns [OF app_control_read]) simp
  then have "\<exists>z m. app_control_set (solo k None) a = Some (z, m)" for a by (simp add: alone_def)
  then obtain z m where "app_control_set (solo k None) (applicationControl c) = Some (z, m)" by blast
  then show ?thesis
    by (intro exI [of _ z]) (simp add: section_value_def alone_def application_section_def set_by_def part_of_def policy_set_def Let_def)
qed

lemma application_value_other [simp]:
  "ttlCycle (section_value application_section k c) = ttlCycle c"
  "allowProcessList (section_value application_section k c) = allowProcessList c"
  "allowFolderList (section_value application_section k c) = allowFolderList c"
  "allowFileExtList (section_value application_section k c) = allowFileExtList c"
  "copyPreventBlockWriteAll (section_value application_section k c) = copyPreventBlockWriteAll c"
  "enableList (section_value application_section k c) = (if 0 < length (attr k ''enable'')
     then (enableList c)(dlpsubtypeApplicationPreventPlus \<mapsto> getValueAsBool (attr k ''enable'')) else enableList c)"
  using application_value [of k c] by (auto simp: policy_set_def split: if_splits)

lemma fda_value_other [simp]:
  "ttlCycle (section_value fda_section k c) = ttlCycle c"
  "allowProcessList (section_value fda_section k c) = allowProcessList c"
  "allowFolderList (section_value fda_section k c) = allowFolderList c"
  "allowFileExtList (section_value fda_section k c) = allowFileExtList c"
  "copyPreventBlockWriteAll (section_value fda_section k c) = copyPreventBlockWriteAll c"
  "enableList (section_value fda_section k c) = enableList c"
  by (simp_all add: fda_section_def Let_def)

lemma setTTL_other [simp]:
  "allowProcessList (setTTLCycle v c) = allowProcessList c" "allowFolderList (setTTLCycle v c) = allowFolderList c"
  "allowFileExtList (setTTLCycle v c) = allowFileExtList c" "enableList (setTTLCycle v c) = enableList c"
  "copyPreventBlockWriteAll (setTTLCycle v c) = copyPreventBlockWriteAll c"
  "ttlCycle (setTTLCycle v c) = max 2 (min 60 (atoi v))"
  by (auto simp: setTTLCycle_def Let_def)

text \<open>A field that one section sets is what that section makes of it.\<close>

lemma sections_distinct: "distinct (map fst config_sections)"
  by (simp add: config_sections_def)

lemma kept_field:
  assumes "\<forall>(u, b) \<in> set l. \<forall>k c. F (section_value b k c) = F c"
  shows "F (fold (\<lambda>(t, b) c. case first_with t ks of None \<Rightarrow> c | Some k \<Rightarrow> section_value b k c) l c) = F c"
  using assms by (induction l arbitrary: c) (auto split: option.split)

lemma one_section:
  assumes "(t, b) \<in> set config_sections"
    and "\<forall>(u, b') \<in> set config_sections. u \<noteq> t \<longrightarrow> (\<forall>k c. F (section_value b' k c) = F c)"
    and "\<And>k c. F (section_value b k c) = G k (F c)"
  shows "F (apply_sections ks c) = (case first_with t ks of None \<Rightarrow> F c | Some k \<Rightarrow> G k (F c))"
proof -
  obtain l1 l2 where l: "config_sections = l1 @ (t, b) # l2" using split_list [OF assms(1)] by blast
  have d: "t \<notin> fst ` set l1" "t \<notin> fst ` set l2" using sections_distinct unfolding l by auto
  have in_l: "x \<in> set l1 \<union> set l2 \<Longrightarrow> x \<in> set config_sections" for x unfolding l by auto
  have k: "\<forall>(u, b) \<in> set l'. \<forall>k c. F (section_value b k c) = F c" if "set l' \<subseteq> set l1 \<union> set l2" "t \<notin> fst ` set l'" for l'
  proof clarify
    fix u b' k c
    assume ub: "(u, b') \<in> set l'"
    then have "(u, b') \<in> set config_sections" using in_l that(1) by blast
    moreover have "u \<noteq> t" using ub that(2) by force
    ultimately show "F (section_value b' k c) = F c" using assms(2) by blast
  qed
  show ?thesis
    using kept_field [OF k [OF _ d(1)]] kept_field [OF k [OF _ d(2)]] assms(3) by (simp add: apply_sections_def l split: option.split)
qed

definition names_of :: "string \<Rightarrow> xml list \<Rightarrow> string list" where
  "names_of t ks = map toUpper (filter (\<lambda>v. v \<noteq> []) (map (\<lambda>x. attr x ''name'') (tagged t ks)))"

lemma sections_fields:
  "ttlCycle (apply_sections ks c) = (case first_with ''client'' ks of None \<Rightarrow> ttlCycle c | Some k \<Rightarrow> max 2 (min 60 (atoi (attr k ''ttlcycle''))))"
  "copyPreventBlockWriteAll (apply_sections ks c) = (case first_with ''copy_prevent'' ks of None \<Rightarrow> copyPreventBlockWriteAll c
     | Some k \<Rightarrow> getValueAsBool (attr k ''block_write_all''))"
  "enableList (apply_sections ks c) = (case first_with ''application_control'' ks of None \<Rightarrow> enableList c
     | Some k \<Rightarrow> (if 0 < length (attr k ''enable'')
         then (enableList c)(dlpsubtypeApplicationPreventPlus \<mapsto> getValueAsBool (attr k ''enable'')) else enableList c))"
proof -
  show "ttlCycle (apply_sections ks c) = (case first_with ''client'' ks of None \<Rightarrow> ttlCycle c | Some k \<Rightarrow> max 2 (min 60 (atoi (attr k ''ttlcycle''))))"
    by (rule one_section [where F = ttlCycle and G = "\<lambda>k _. max 2 (min 60 (atoi (attr k ''ttlcycle'')))" and b = "set_by (\<lambda>m. setTTLCycle (GetAttrib ''ttlcycle'' m))"]) (simp_all add: config_sections_def)
  show "copyPreventBlockWriteAll (apply_sections ks c) = (case first_with ''copy_prevent'' ks of None \<Rightarrow> copyPreventBlockWriteAll c
     | Some k \<Rightarrow> getValueAsBool (attr k ''block_write_all''))"
    by (rule one_section [where F = copyPreventBlockWriteAll and G = "\<lambda>k _. getValueAsBool (attr k ''block_write_all'')" and b = "set_by (\<lambda>m c. c\<lparr>quarantinePath := GetAttrib ''save_path'' m,
         copyPreventBlockWriteAll := getValueAsBool (GetAttrib ''block_write_all'' m)\<rparr>)"]) (simp_all add: config_sections_def)
  show "enableList (apply_sections ks c) = (case first_with ''application_control'' ks of None \<Rightarrow> enableList c
     | Some k \<Rightarrow> (if 0 < length (attr k ''enable'')
         then (enableList c)(dlpsubtypeApplicationPreventPlus \<mapsto> getValueAsBool (attr k ''enable'')) else enableList c))"
    by (rule one_section [where F = enableList and G = "\<lambda>k x. if 0 < length (attr k ''enable'') then x(dlpsubtypeApplicationPreventPlus \<mapsto> getValueAsBool (attr k ''enable'')) else x" and b = application_section]) (simp_all add: config_sections_def)
qed

lemma sections_names:
  "allowProcessList (apply_sections ks c) = allowProcessList c @ names_of ''program'' (sec ''allow_program_list'' ks)"
  "allowFolderList (apply_sections ks c) = allowFolderList c @ names_of ''path'' (sec ''allow_paths_for_ext'' ks)"
  "allowFileExtList (apply_sections ks c) = allowFileExtList c @ names_of ''ext'' (sec ''allow_file_ext'' ks)"
proof -
  have "allowProcessList (apply_sections ks c) = (case first_with ''allow_program_list'' ks of None \<Rightarrow> allowProcessList c
      | Some k \<Rightarrow> allowProcessList c @ names_of ''program'' (kids k))"
    by (rule one_section [where F = allowProcessList and G = "\<lambda>k l. l @ names_of ''program'' (kids k)" and b = "part_of allowProcessList (\<lambda>l c. c\<lparr>allowProcessList := l\<rparr>) (read_names ''program'' ''name'')"])
      (simp_all add: config_sections_def names_of_def)
  moreover have "allowFolderList (apply_sections ks c) = (case first_with ''allow_paths_for_ext'' ks of None \<Rightarrow> allowFolderList c
      | Some k \<Rightarrow> allowFolderList c @ names_of ''path'' (kids k))"
    by (rule one_section [where F = allowFolderList and G = "\<lambda>k l. l @ names_of ''path'' (kids k)" and b = "part_of allowFolderList (\<lambda>l c. c\<lparr>allowFolderList := l\<rparr>) (read_names ''path'' ''name'')"])
      (simp_all add: config_sections_def names_of_def)
  moreover have "allowFileExtList (apply_sections ks c) = (case first_with ''allow_file_ext'' ks of None \<Rightarrow> allowFileExtList c
      | Some k \<Rightarrow> allowFileExtList c @ names_of ''ext'' (kids k))"
    by (rule one_section [where F = allowFileExtList and G = "\<lambda>k l. l @ names_of ''ext'' (kids k)" and b = "part_of allowFileExtList (\<lambda>l c. c\<lparr>allowFileExtList := l\<rparr>) (read_names ''ext'' ''name'')"])
      (simp_all add: config_sections_def names_of_def)
  ultimately show "allowProcessList (apply_sections ks c) = allowProcessList c @ names_of ''program'' (sec ''allow_program_list'' ks)"
    "allowFolderList (apply_sections ks c) = allowFolderList c @ names_of ''path'' (sec ''allow_paths_for_ext'' ks)"
    "allowFileExtList (apply_sections ks c) = allowFileExtList c @ names_of ''ext'' (sec ''allow_file_ext'' ks)"
    by (simp_all add: sec_def names_of_def tagged_def split: option.split)
qed


lemma first_in: "distinct (map tag ks) \<Longrightarrow> first_with t ks = Some k \<longleftrightarrow> k \<in> set ks \<and> tag k = t"
  by (induction ks) (auto simp: first_with_def)

lemma first_any_order:
  assumes "mset ks = mset ks'" "distinct (map tag ks)"
  shows "first_with t ks = first_with t ks'"
proof -
  have "mset (map tag ks) = mset (map tag ks')" using assms(1) by simp
  then have "distinct (map tag ks')" using assms(2) mset_eq_imp_distinct_iff by blast
  moreover have "set ks = set ks'" using assms(1) by (rule mset_eq_setD)
  ultimately show ?thesis using first_in [OF assms(2), of t] first_in [of ks' t]
    by (cases "first_with t ks"; cases "first_with t ks'") auto
qed

text \<open>C22: The sections of the configuration may be in any order.\<close>

theorem config_any_order:
  assumes "mset ks = mset ks'" and "distinct (map tag ks)"
  shows "loadConfig (Some [Elem ''pisecurity'' as x ks]) c = loadConfig (Some [Elem ''pisecurity'' as x ks']) c"
proof -
  have "apply_sections ks = apply_sections ks'" unfolding apply_sections_def first_any_order [OF assms] ..
  then show ?thesis unfolding config_tree by (simp add: first_with_def)
qed

theorem config_any_order_witness:
  "loadConfig (Some [Elem ''pisecurity'' [] [] [Elem ''client'' [(''ttlcycle'', ''5'')] [] [], Elem ''filelog'' [] [] []]]) new_config =
   loadConfig (Some [Elem ''pisecurity'' [] [] [Elem ''filelog'' [] [] [], Elem ''client'' [(''ttlcycle'', ''5'')] [] []]]) new_config"
  by (rule config_any_order) (simp_all add: add_mset_commute)

text \<open>The cycle stays in its bounds, so the heartbeat is never switched off.\<close>

lemma loaded_ttl:
  "loadConfig doc c = Some (r, c') \<Longrightarrow> ttlCycle c \<in> {2..60} \<Longrightarrow> ttlCycle c' \<in> {2..60}"
  unfolding config_tree by (auto simp: sections_fields split: option.splits)

lemma loaded_application:
  assumes "loadConfig (Some roots) c = Some (r, c')" "first_with ''pisecurity'' roots = Some e"
    "first_with ''application_control'' (kids e) = Some k" "attr k ''enable'' \<noteq> []" "\<not> getValueAsBool (attr k ''enable'')"
  shows "\<not> isEnableWithSubType c' dlpsubtypeApplicationPreventPlus"
  using assms unfolding config_tree by (auto simp: sections_fields isEnableWithSubType_def)

text \<open>The document that is written holds the settings a new configuration has.\<close>

lemma config_save_loads: "loadConfig (Some config_save) new_config = Some (True, new_config)"
proof -
  have n: "atoi ''0'' = 0" "atoi ''10'' = 10"
    by (simp_all add: atoi_def digits_value_def digit_value_def is_digit_def white_space_def)
  let ?ks = "kids (hd config_save)"
  have f: "first_with ''filelog'' ?ks = Some (?ks ! 0)" "first_with ''socket'' ?ks = Some (?ks ! 1)" "first_with ''client'' ?ks = Some (?ks ! 2)"
    by (simp_all add: config_save_def first_with_def)
  have a: "attr (?ks ! 0) ''depth'' = ''0''" "attr (?ks ! 0) ''use_tickcount'' = []"
    "attr (?ks ! Suc 0) ''use_unsigned_type'' = ''true''" "attr (?ks ! Suc 0) ''use_big_endian'' = ''false''" "attr (?ks ! Suc 0) ''save_packet'' = ''false''"
    "attr (?ks ! 2) ''ttlcycle'' = ''10''"
    by (simp_all add: config_save_def attr_def)
  have "first_with t ?ks = None" if "t \<notin> {''filelog'', ''socket'', ''client''}" for t
    using that by (auto simp: config_save_def first_with_def)
  then have "apply_sections ?ks new_config = new_config"
    by (simp add: apply_sections_def config_sections_def f a n setTTLCycle_def new_config_def log_clear_def
      socket_clear_def getValueAsBool_def)
  moreover have "first_with ''pisecurity'' config_save = Some (hd config_save)" by (simp add: config_save_def first_with_def)
  ultimately show ?thesis by (simp add: config_tree)
qed

subsection \<open>Excepted devices\<close>

lemma find_first: "find_at (u @ v) [a] (length u) =
  (if a \<in> set v then Some (length u + length (takeWhile (\<lambda>c. c \<noteq> a) v)) else None)"
proof -
  have "strpos [a] v = (if a \<in> set v then Some (length (takeWhile (\<lambda>c. c \<noteq> a) v)) else None)"
    by (induction v) auto
  then show ?thesis by (simp add: find_at_def)
qed

lemma replace_one:
  assumes "a \<noteq> b"
  shows "replace_loop (u @ v) [a] [b] (length u) r = Some (r \<or> a \<in> set v, u @ map (\<lambda>c. if c = a then b else c) v)"
proof (induction "count_list v a" arbitrary: u v r rule: less_induct)
  case less
  show ?case
  proof (cases "a \<in> set v")
    case False
    then have "map (\<lambda>c. if c = a then b else c) v = v" by (intro map_idI) auto
    then show ?thesis using False by (subst replace_loop.simps) (simp add: find_first)
  next
    case True
    then obtain w v' where v: "v = w @ a # v'" "a \<notin> set w" by (meson split_list_first)
    have w: "length (takeWhile (\<lambda>c. c \<noteq> a) v) = length w" using v(2) unfolding v(1) by (induction w) auto
    have "map (\<lambda>c. if c = a then b else c) w = w" using v(2) by (intro map_idI) auto
    moreover have "replace_loop ((u @ w) @ b # v') [a] [b] (length (u @ w)) True =
        Some (True, (u @ w) @ map (\<lambda>c. if c = a then b else c) (b # v'))"
      using less [of "b # v'" "u @ w" True] v assms by simp
    ultimately show ?thesis using v assms w
      by (subst replace_loop.simps) (simp add: find_first True)
  qed
qed

lemma replace_every: "a \<noteq> b \<Longrightarrow> replace s [a] [b] = Some (a \<in> set s, map (\<lambda>c. if c = a then b else c) s)"
  using replace_one [of a b "[]" s False] by (simp add: replace_def)

definition excepted :: "xml \<Rightarrow> string list" where
  "excepted e = map (map (\<lambda>c. if c = CHR ''$'' then CHR ''&'' else c))
     (filter (\<lambda>v. 15 \<le> length v) (map (\<lambda>x. attr x ''instanceid'') (tagged ''usbdevice'' (kids e))))"

lemma device_read: "push_device a l = Some (l @ (if length (a ''instanceid'') < 15 then []
    else [map (\<lambda>c. if c = CHR ''$'' then CHR ''&'' else c) (a ''instanceid'')]))"
  by (auto simp: push_device_def replace_every Let_def)

lemma devices_read:
  assumes "main_elem m = Some e" "mk_child m = None"
  shows "\<exists>m'. while_found (FindChildElem ''usbdevice'') device_step m l = Some (l @ excepted e, m')"
proof -
  let ?f = "\<lambda>x. push_device (\<lambda>a. attr x a)"
  have "child_reader any_elem device_step ?f"
    by unfold_locales (simp_all add: device_step_def device_read)
  note r = child_reader.while_reads [OF this, of "''usbdevice''"]
  have "fold_opt ?f ks l = Some (l @ map (map (\<lambda>c. if c = CHR ''$'' then CHR ''&'' else c))
      (filter (\<lambda>v. 15 \<le> length v) (map (\<lambda>x. attr x ''instanceid'') ks)))" for ks l
    by (induction ks arbitrary: l) (auto simp: device_read)
  then have "map_option fst (while_found (FindChildElem ''usbdevice'') device_step m l) = Some (l @ excepted e)"
    using element_reader.reads [OF r assms(1), of l] assms(2)
    by (simp add: excepted_def child_tree_def tagged_def later_def after_def option.map_comp comp_def case_prod_beta' del: map_option_eq_Some)
  then show ?thesis by auto
qed

lemma excepted_loaded:
  "loadExceptionDeviceList doc c = Some (case doc of None \<Rightarrow> (False, c\<lparr>allowUSBIDList := []\<rparr>)
     | Some roots \<Rightarrow> (case first_with ''allow_device_list'' roots of None \<Rightarrow> (False, c\<lparr>allowUSBIDList := []\<rparr>)
         | Some e \<Rightarrow> (True, c\<lparr>allowUSBIDList := excepted e\<rparr>)))"
proof (cases doc)
  case (Some roots)
  let ?m = "\<lparr>mk_roots = roots, mk_parent = [], mk_pos = None, mk_child = None\<rparr>"
  have s: "mk_pos ?m = None" "siblings ?m = roots" by (simp_all add: siblings_def)
  show ?thesis
  proof (cases "first_with ''allow_device_list'' roots")
    case None
    then show ?thesis using find_main(1) [OF s] Some by (simp add: loadExceptionDeviceList_def Load_def)
  next
    case (Some e)
    obtain m1 where m1: "FindElem ''allow_device_list'' ?m = (True, m1)" "main_elem m1 = Some e" "mk_child m1 = None"
      using find_main(2) [OF s Some] by blast
    then show ?thesis using devices_read [OF m1(2,3), of "[]"] Some \<open>doc = Some roots\<close>
      by (auto simp: loadExceptionDeviceList_def Load_def)
  qed
qed (simp add: loadExceptionDeviceList_def Load_def)

text \<open>C21: Loading the list of excepted devices always returns. The list is emptied, also when the document
  cannot be read or has another root; with the root there it holds the identifiers of at least 15 characters,
  in the order of the document, every dollar sign turned into an ampersand.\<close>

theorem excepted_devices_loaded:
  "loadExceptionDeviceList doc c = Some (case doc of None \<Rightarrow> (False, c\<lparr>allowUSBIDList := []\<rparr>)
     | Some roots \<Rightarrow> (case first_with ''allow_device_list'' roots of None \<Rightarrow> (False, c\<lparr>allowUSBIDList := []\<rparr>)
         | Some e \<Rightarrow> (True, c\<lparr>allowUSBIDList := excepted e\<rparr>)))"
  by (rule excepted_loaded)

end
