(* ===== verification/Startup.thy ===== *)
theory Startup
  imports PolicyLoad ConfigMan Registration DriveChain
begin

text \<open>
  The supervisor from its documents on: the start (\<open>initialize\<close> of \<open>PISuperivorMain.cpp\<close>), the action that
  reads the policies again (\<open>PIActionReloadPolicy.cpp\<close>) on the documents themselves, and what the settings
  and policies in the documents mean for the agent and for the files it watches.
\<close>

subsection \<open>The start\<close>

text \<open>The configuration the supervisor runs with, and the document it writes when it could not load one. The
  paths come before (\<open>path_initialize\<close>); the settings of the log writers follow \<open>c_log\<close>.\<close>

definition sup_initialize :: "xml list option \<Rightarrow> xml list option \<Rightarrow> xml list option \<Rightarrow> (config_man \<times> xml list option) option" where
  "sup_initialize doc except wall = do {
     (r, c) \<leftarrow> config_load doc except wall new_config;
     Some (c, if r then None else Some config_save)
   }"

lemma wall_total: "\<exists>r w'. wall_loadConfig doc w = Some (r, w')"
proof -
  have r: "element_reader any_elem (if_inside wall_steps) (alone (if_inside wall_steps))"
    by (rule alone_reads(1), unfold wall_steps_def, (rule config_rules | simp)+)
  have "\<exists>r w'. (case IntoElem m of (False, m2) \<Rightarrow> Some (False, w)
      | (True, m2) \<Rightarrow> do { (w', m3) \<leftarrow> wall_steps m2 w; Some (True, w') }) = Some (r, w')" if "main_elem m = Some e" for m e
  proof -
    have "alone (if_inside wall_steps) e (mk_child m) w \<noteq> None" by (rule element_reader.returns [OF r]) simp
    then have "if_inside wall_steps m w \<noteq> None" using element_reader.reads [OF r that, of w] by simp
    then show ?thesis
      by (cases "IntoElem m"; cases "fst (IntoElem m)"; cases "wall_steps (snd (IntoElem m)) w") (auto simp: if_inside_def)
  qed
  note at = this
  show ?thesis
  proof (cases doc)
    case (Some roots)
    let ?m = "\<lparr>mk_roots = roots, mk_parent = [], mk_pos = None, mk_child = None\<rparr>"
    have s: "mk_pos ?m = None" "siblings ?m = roots" by (simp_all add: siblings_def)
    show ?thesis
    proof (cases "first_with ''PrivacyWall_Interface'' roots")
      case None
      then show ?thesis using find_main(1) [OF s] Some by (simp add: wall_loadConfig_def Load_def ex_bool_eq)
    next
      case (Some e)
      then obtain m1 where "FindElem ''PrivacyWall_Interface'' ?m = (True, m1)" "main_elem m1 = Some e"
        using find_main(2) [OF s] by blast
      then show ?thesis using at [of m1 e] \<open>doc = Some roots\<close> by (simp add: wall_loadConfig_def Load_def)
    qed
  qed (simp add: wall_loadConfig_def Load_def ex_bool_eq)
qed

lemma config_unreadable: "loadConfig doc c = Some (False, c') \<Longrightarrow> c' = c"
  unfolding config_tree by (auto split: option.splits)

lemma exceptions_total: "\<exists>r l. loadExceptionDeviceList doc c = Some (r, c\<lparr>allowUSBIDList := l\<rparr>)"
proof -
  let ?e = "case doc of None \<Rightarrow> None | Some roots \<Rightarrow> first_with ''allow_device_list'' roots"
  have "loadExceptionDeviceList doc c =
      Some (?e \<noteq> None, c\<lparr>allowUSBIDList := (case ?e of None \<Rightarrow> [] | Some e \<Rightarrow> excepted e)\<rparr>)"
    by (simp add: excepted_loaded split: option.split)
  then show ?thesis by blast
qed

lemma config_total: "\<exists>r c'. loadConfig doc c = Some (r, c')"
  by (metis config_tree surj_pair)

lemma start_cases:
  "\<exists>c. sup_initialize doc except wall = Some (c, None) \<or> c = new_config \<and> sup_initialize doc except wall = Some (c, Some config_save)"
proof -
  obtain r c' where 1: "loadConfig doc new_config = Some (r, c')" using config_total by blast
  show ?thesis
  proof (cases r)
    case True
    let ?c = "c'\<lparr>c_log := applyDepth (c_log c')\<rparr>"
    obtain r1 l where 2: "loadExceptionDeviceList except ?c = Some (r1, ?c\<lparr>allowUSBIDList := l\<rparr>)"
      using exceptions_total by blast
    obtain r2 w where "wall_loadConfig wall (c_wall c') = Some (r2, w)" using wall_total by blast
    then show ?thesis using 1 2 True by (simp add: sup_initialize_def config_load_def)
  next
    case False
    then have "sup_initialize doc except wall = Some (new_config, Some config_save)"
      using 1 config_unreadable [of doc new_config c'] by (simp add: sup_initialize_def config_load_def)
    then show ?thesis by blast
  qed
qed

lemma start_with_saved:
  "\<exists>l w. sup_initialize (Some config_save) except wall = Some (new_config\<lparr>allowUSBIDList := l, c_wall := w\<rparr>, None)"
proof -
  have n: "new_config\<lparr>c_log := applyDepth (c_log new_config)\<rparr> = new_config"
    by (simp add: new_config_def applyDepth_def log_clear_def)
  obtain r1 l where 1: "loadExceptionDeviceList except new_config = Some (r1, new_config\<lparr>allowUSBIDList := l\<rparr>)"
    using exceptions_total by blast
  obtain r2 w where "wall_loadConfig wall (c_wall new_config) = Some (r2, w)" using wall_total by blast
  then have "sup_initialize (Some config_save) except wall = Some (new_config\<lparr>allowUSBIDList := l, c_wall := w\<rparr>, None)"
    by (simp add: sup_initialize_def config_load_def config_save_loads n 1)
  then show ?thesis by blast
qed

text \<open>C17: The start always returns. A supervisor that finds no configuration runs with the defaults and writes a
  document, and the next start reads that document as the same defaults and writes nothing; only the list of
  excepted devices and the settings of the quarantine disk come from documents of their own.\<close>

theorem default_config_roundtrip:
  "(\<exists>c. sup_initialize doc except wall = Some (c, None) \<or> c = new_config \<and> sup_initialize doc except wall = Some (c, Some config_save)) \<and>
   (\<exists>l w. sup_initialize (Some config_save) except' wall' = Some (new_config\<lparr>allowUSBIDList := l, c_wall := w\<rparr>, None))"
  using start_cases start_with_saved by simp

subsection \<open>Reading the policies again\<close>

text \<open>\<open>CPIActionReloadPolicy::run\<close> on the documents; \<open>adjust\<close> does nothing, and the document \<open>translatePolicy\<close>
  also writes is not read.\<close>

definition reload_documents :: "(int \<Rightarrow> bool) \<Rightarrow> junk \<Rightarrow> (string \<Rightarrow> bool) \<Rightarrow> bool \<Rightarrow> xml list option \<Rightarrow> xml list option \<Rightarrow> xml list option
    \<Rightarrow> xml list option \<Rightarrow> policy_store \<Rightarrow> policy_store option" where
  "reload_documents enabled junk expired bw ndis usbmobile policy media s = do {
     s1 \<leftarrow> load_policies enabled junk ndis usbmobile policy s;
     (r, pm) \<leftarrow> reloadMediaList expired media (makeDeviceRule bw (ps_man s1));
     Some (put_man pm s1)
   }"

text \<open>The registration reads lists of policies in place of documents: with those of the document it does the same.\<close>

definition env_of :: "int \<Rightarrow> bool \<Rightarrow> policy_man \<Rightarrow> (string \<times> media_data) list \<Rightarrow> sup_env" where
  "env_of cycle bw pm media = \<lparr>e_ttlCycle = cycle, e_blockWriteAll = bw, e_online = onlinePolicyList pm,
     e_offline = offlinePolicyList pm, e_common = commonPolicyList pm, e_media = media\<rparr>"

definition same_but_lists :: "policy_man \<Rightarrow> policy_man \<Rightarrow> bool" where
  "same_but_lists pm0 pm \<longleftrightarrow> pm = pm0\<lparr>onlinePolicyList := onlinePolicyList pm, offlinePolicyList := offlinePolicyList pm,
     commonPolicyList := commonPolicyList pm\<rparr>"

lemma add_lists:
  "add_policy enabled junk te pm = Some pm' \<Longrightarrow> same_but_lists pm0 pm \<Longrightarrow> same_but_lists pm0 pm'"
  "add_common enabled junk e pm = Some pm' \<Longrightarrow> same_but_lists pm0 pm \<Longrightarrow> same_but_lists pm0 pm'"
proof -
  have "same_but_lists pm0 (push_policy t p pm)" if "same_but_lists pm0 pm" for t p
    using that by (cases pm0; cases pm) (simp add: same_but_lists_def push_policy_def)
  then show "add_policy enabled junk te pm = Some pm' \<Longrightarrow> same_but_lists pm0 pm \<Longrightarrow> same_but_lists pm0 pm'"
    "add_common enabled junk e pm = Some pm' \<Longrightarrow> same_but_lists pm0 pm \<Longrightarrow> same_but_lists pm0 pm'"
    by (auto simp: add_policy_def add_common_def bind_eq_Some_conv split: if_splits option.splits prod.splits)
qed

lemma document_lists:
  assumes "loadDLPPolicyXML enabled junk policy s = Some (r, s')"
  shows "same_but_lists (ps_man s) (ps_man s')"
proof -
  have "same_but_lists (ps_man s) (ps_man s)" by (simp add: same_but_lists_def)
  then show ?thesis
    using assms unfolding document_loaded
    by (auto simp: stored_sections_def Let_def bind_eq_Some_conv split: option.splits
      dest!: fold_opt_inv [where I = "same_but_lists (ps_man s)"] dest: add_lists)
qed

lemma load_refines:
  assumes "load_policies enabled junk ndis usbmobile policy s = Some s'"
  shows "\<exists>pm. \<forall>cycle bw media. ps_man s' = pm_load (env_of cycle bw pm media) (ps_man s)"
proof -
  obtain r1 s1 where 1: "loadNdisXml ndis (policies_clear s) = Some (r1, s1)" "ps_man s1 = ps_man (policies_clear s)"
    using ndis_total by blast
  obtain r2 s2 where 2: "loadUSBMobileXml usbmobile s1 = Some (r2, s2)" "ps_man s2 = ps_man s1"
    using usbmobile_total by blast
  obtain r3 s3 where 3: "loadDLPPolicyXML enabled junk policy s2 = Some (r3, s3)"
    using assms 1(1) 2(1) by (auto simp: load_policies_def bind_eq_Some_conv)
  have "same_but_lists ((ps_man s)\<lparr>onlinePolicyList := [], offlinePolicyList := [], commonPolicyList := [],
      enableMediaControlBlockLog := False\<rparr>) (ps_man s3)"
    using document_lists [OF 3] 1(2) 2(2) by (simp add: policies_clear_def)
  then have "ps_man s3 = (ps_man s)\<lparr>onlinePolicyList := onlinePolicyList (ps_man s3), offlinePolicyList := offlinePolicyList (ps_man s3),
      commonPolicyList := commonPolicyList (ps_man s3), enableMediaControlBlockLog := False\<rparr>"
    by (cases "ps_man s") (simp add: same_but_lists_def)
  moreover have "ps_man s' = (validateDLPPolicyXml (ps_man s3))\<lparr>enableMediaControlBlockLog := isEnableBlockLog (validateDLPPolicyXml (ps_man s3))\<rparr>"
    using assms 1(1) 2(1) 3 by (auto simp: load_policies_def Let_def)
  ultimately have "\<forall>cycle bw media. ps_man s' = pm_load (env_of cycle bw (ps_man s3) media) (ps_man s)"
    by (simp add: pm_load_def env_of_def Let_def)
  then show ?thesis by blast
qed

text \<open>The media document read again is the list it holds.\<close>

lemma reload_media_alt:
  "reload_media e pm = (if permits_all pm then pm\<lparr>mediaList := []\<rparr> else pm\<lparr>mediaList := e_media e\<rparr>)"
proof -
  have "(case as_Copy x of None \<Rightarrow> False | Some c \<Rightarrow> policy_getMediaPermitType c = Some mdPermitAll) =
      (case x of None \<Rightarrow> False | Some p \<Rightarrow> policy_getMediaPermitType (p_class p) = Some mdPermitAll)" for x
    by (auto simp: as_Copy_def policy_getMediaPermitType_def split: option.splits policy_class.splits)
  note this [of "getCurrentDLPPolicy dlptypePreventPlus dlpsubtypeCopyPreventPlus pm", folded permits_all_def]
  then show ?thesis by (auto simp: reload_media_def split: option.splits)
qed

lemma media_refines:
  assumes "reloadMediaList expired media pm = Some (r, pm')"
  shows "\<exists>l. \<forall>cycle bw pm0. pm' = reload_media (env_of cycle bw pm0 l) pm"
proof -
  obtain r' l where l: "reloadMediaList expired media pm = Some (r', pm\<lparr>mediaList := l\<rparr>)"
    using reload_media by blast
  show ?thesis
  proof (cases "permits_all pm")
    case True
    then have "pm' = pm\<lparr>mediaList := []\<rparr>" using assms by (simp add: reloadMediaList_def Let_def)
    then have "\<forall>cycle bw pm0. pm' = reload_media (env_of cycle bw pm0 []) pm" using True by (simp add: reload_media_alt)
    then show ?thesis by blast
  next
    case False
    then have "\<forall>cycle bw pm0. pm' = reload_media (env_of cycle bw pm0 l) pm"
      using l assms by (simp add: reload_media_alt env_of_def)
    then show ?thesis by blast
  qed
qed

text \<open>Reading the policies again from the documents does to the policies what the action of the event model
  does with some lists of policies and drives, so what is shown of the events holds of the documents.\<close>

lemma reload_refines_documents:
  assumes "reload_documents enabled junk expired bw ndis usbmobile policy media s = Some s'"
  shows "\<exists>pm l. \<forall>sup. s_pm sup = ps_man s \<longrightarrow> s_pm (run_ReloadPolicy (env_of cycle bw pm l) sup) = ps_man s'"
proof -
  obtain s1 r pm' where 1: "load_policies enabled junk ndis usbmobile policy s = Some s1"
      "reloadMediaList expired media (makeDeviceRule bw (ps_man s1)) = Some (r, pm')" "s' = put_man pm' s1"
    using assms by (auto simp: reload_documents_def bind_eq_Some_conv)
  obtain pm where 2: "ps_man s1 = pm_load (env_of cycle bw pm l) (ps_man s)" for l using load_refines [OF 1(1)] by blast
  obtain l where 3: "pm' = reload_media (env_of cycle bw pm l) (makeDeviceRule bw (ps_man s1))"
    using media_refines [OF 1(2)] by blast
  have "e_blockWriteAll (env_of cycle bw pm l) = bw" by (simp add: env_of_def)
  then have "\<forall>sup. s_pm sup = ps_man s \<longrightarrow> s_pm (run_ReloadPolicy (env_of cycle bw pm l) sup) = ps_man s'"
    using 1(3) 2 [of l] 3 by (simp add: run_ReloadPolicy_def outer_def translatePolicy_def put_man_def)
  then show ?thesis by blast
qed

subsection \<open>Settings at work\<close>

lemma started_config:
  assumes "sup_initialize doc except wall = Some (c, saved)"
  shows "\<exists>r c'. loadConfig doc new_config = Some (r, c') \<and> ttlCycle c = ttlCycle c' \<and> enableList c = enableList c'"
proof -
  obtain r c' where 1: "loadConfig doc new_config = Some (r, c')" using config_total by blast
  let ?c = "c'\<lparr>c_log := applyDepth (c_log c')\<rparr>"
  obtain r1 l where 2: "loadExceptionDeviceList except ?c = Some (r1, ?c\<lparr>allowUSBIDList := l\<rparr>)"
    using exceptions_total by blast
  obtain r2 w where "wall_loadConfig wall (c_wall c') = Some (r2, w)" using wall_total by blast
  then have "c = c' \<or> c = ?c\<lparr>allowUSBIDList := l, c_wall := w\<rparr>"
    using 1 2 assms by (cases r) (simp_all add: sup_initialize_def config_load_def)
  then show ?thesis using 1 by auto
qed



text \<open>C16: When the configuration disables the application policies, none is ever loaded, whatever the policy
  document holds.\<close>

theorem disabled_policies_not_loaded:
  assumes "sup_initialize (Some roots) except wall = Some (c, saved)"
    and "first_with ''pisecurity'' roots = Some e" and "first_with ''application_control'' (kids e) = Some k"
    and "attr k ''enable'' \<noteq> []" and "\<not> getValueAsBool (attr k ''enable'')"
    and "load_policies (isEnableWithSubType c) junk ndis usbmobile policy s = Some s'"
  shows "\<forall>p \<in> all_policies (ps_man s'). p_dlpSubType p \<noteq> dlpsubtypeApplicationPreventPlus"
proof -
  obtain r c' where 1: "loadConfig (Some roots) new_config = Some (r, c')" "enableList c = enableList c'"
    using started_config [OF assms(1)] by blast
  then have "\<not> isEnableWithSubType c dlpsubtypeApplicationPreventPlus"
    using loaded_application [OF 1(1) assms(2-5)] by (simp add: isEnableWithSubType_def)
  then show ?thesis using loaded_consistent(1) [OF assms(6)] by (auto simp: loaded_ok_def)
qed

definition app_elem :: xml where
  "app_elem = Elem ''dlppolicy'' [(''dlppolicy_type'', ''1''), (''dlppolicy_subtype'', ''8''), (''use'', ''true'')] [] []"

definition no_apps :: "xml list" where
  "no_apps = [Elem ''pisecurity'' [] [] [Elem ''application_control'' [(''enable'', ''false'')] [] []]]"

lemma app_attrs:
  "attr app_elem ''dlppolicy_guid'' = []" "attr app_elem ''dlppolicy_type'' = ''1''" "attr app_elem ''dlppolicy_subtype'' = ''8''" "atoi ''8'' = 8"
  by (simp_all add: attr_def app_elem_def atoi_def digits_value_def digit_value_def is_digit_def white_space_def)

lemma app_skipped:
  assumes "\<not> enabled dlpsubtypeApplicationPreventPlus" "enabled dlpsubtypeCopyPreventPlus"
  shows "load_policies enabled no_junk None None
      (Some (doc_of [Elem ''policyset'' [] [] [Elem ''policy'' [(''type'', ''online'')] [] [app_elem, copy_elem]]])) empty_store =
     Some (empty_store\<lparr>ps_man := online_man [sample_copy]\<rparr>)"
proof -
  have "isNullPolicy [] \<longleftrightarrow> False" by (simp add: isNullPolicy_def null_guid_def)
  moreover have "new_policy enabled no_junk (attr app_elem) pm = None"
    "new_policy enabled no_junk (attr copy_elem) pm = Some (policy_of (PolicyCopy clear_prevent_plus new_copy_part))" for pm
    using assms sample_copy_policy(1) [of pm]
    by (simp_all add: new_policy_def addDLPPolicy_def app_attrs sample_attrs sample_atoi dlp)
  moreover have "policies_in (sec ''policyset'' [Elem ''policyset'' [] [] [Elem ''policy'' [(''type'', ''online'')] [] [app_elem, copy_elem]]]) =
     [(''online'', app_elem), (''online'', copy_elem)]"
    by (simp add: policies_in_def sec_def first_with_def tagged_def attr_def app_elem_def copy_elem_def)
  ultimately show ?thesis
    using sample_copy_policy(2)
    by (simp add: load_policies_def loadNdis_tree loadUSBMobile_tree document_loaded stored_sections_def sample_sections
      add_policy_def sample_attrs app_attrs push_policy_def empty_store_def policies_clear_def online_man_def validateDLPPolicyXml_def
      isEnableBlockLog_def current_list_def policy_isEnableBlockLog_def policy_of_def sample_copy_def dlp)
qed

theorem disabled_policies_not_loaded_witness:
  "\<exists>c saved s'. sup_initialize (Some no_apps) None None = Some (c, saved) \<and>
     load_policies (isEnableWithSubType c) no_junk None None
      (Some (doc_of [Elem ''policyset'' [] [] [Elem ''policy'' [(''type'', ''online'')] [] [app_elem, copy_elem]]])) empty_store = Some s' \<and>
     onlinePolicyList (ps_man s') = [sample_copy] \<and> p_dlpSubType sample_copy \<noteq> dlpsubtypeApplicationPreventPlus"
proof -
  have f: "first_with ''pisecurity'' no_apps = Some (hd no_apps)"
      "first_with ''application_control'' (kids (hd no_apps)) = Some (hd (kids (hd no_apps)))"
      "attr (hd (kids (hd no_apps))) ''enable'' = ''false''"
    by (simp_all add: no_apps_def first_with_def attr_def)
  have v: "attr (hd (kids (hd no_apps))) ''enable'' \<noteq> []" "\<not> getValueAsBool (attr (hd (kids (hd no_apps))) ''enable'')"
    by (simp_all add: f(3) getValueAsBool_def)
  obtain c saved where c: "sup_initialize (Some no_apps) None None = Some (c, saved)" using start_cases by blast
  obtain r c' where l: "loadConfig (Some no_apps) new_config = Some (r, c')" "enableList c = enableList c'"
    using started_config [OF c] by blast
  then have "enableList c = [dlpsubtypeApplicationPreventPlus \<mapsto> False]"
    unfolding config_tree using f v by (auto simp: sections_fields new_config_def)
  then have "\<not> isEnableWithSubType c dlpsubtypeApplicationPreventPlus" "isEnableWithSubType c dlpsubtypeCopyPreventPlus"
    by (simp_all add: isEnableWithSubType_def dlp)
  note a = app_skipped [of "isEnableWithSubType c", OF this]
  show ?thesis using disabled_policies_not_loaded [OF c f(1,2) v a] c a by (simp add: online_man_def all_policies_def)
qed

subsection \<open>From the document to the file\<close>

text \<open>The drive entries cached in the rules of loaded policies are blank until they are sent.\<close>

definition blank_rules :: "sec_rule list \<Rightarrow> bool" where
  "blank_rules l \<longleftrightarrow> (\<forall>r \<in> set l. deviceEx r = new_device_ex)"

definition fresh :: "dlp_policy \<Rightarrow> bool" where
  "fresh p \<longleftrightarrow> blank_rules [p_rule p] \<and>
     (case p_class p of PolicyMedia m \<Rightarrow> p_use p \<longrightarrow> blank_rules (ruleList m) | _ \<Rightarrow> True)"

lemma blank_base [simp]: "blank_rules [base_addDeviceRule vt all read write log inspect bt r1 r] = blank_rules [r]"
  by (simp add: blank_rules_def base_addDeviceRule_def rule_clear_def Let_def)

definition blank_state :: "rules \<Rightarrow> bool" where
  "blank_state s \<longleftrightarrow> blank_rules (fst s # snd s)"

lemma device_kept [simp]:
  "deviceEx (base_addDeviceRule vt all read write log inspect bt r1 r) = deviceEx r"
  "deviceEx (snd (setRemovableDrivePermitList l r)) = deviceEx r"
  "deviceEx (snd (setWLanPermitList w r)) = deviceEx r" "deviceEx (snd (setUSBMobilePermitList l r)) = deviceEx r"
  by (simp_all add: base_addDeviceRule_def rule_clear_def Let_def setRemovableDrivePermitList_def setWLanPermitList_def
    setUSBMobilePermitList_def)

lemma blank_push [simp]: "blank_state (push_rule s) = blank_state s"
  by (auto simp: blank_state_def blank_rules_def push_rule_def)

lemma blank_upd: "(\<And>r. deviceEx (f r) = deviceEx r) \<Longrightarrow> blank_state (upd_rule f s) = blank_state s"
  by (simp add: blank_state_def blank_rules_def upd_rule_def)

lemma blank_add [simp]: "blank_state (media_add m b vt s) = blank_state s"
  by (simp add: media_add_def blank_upd)

lemma blank_media: "blank_rules [r] \<Longrightarrow> blank_state (media_addDeviceRule m r)"
  by (simp add: media_addDeviceRule_def Let_def blank_upd) (simp add: blank_state_def)

lemma fresh_made: "blank_rules [p_rule p] \<Longrightarrow> fresh (made bw p)"
proof (cases "p_class p")
  case (PolicyMedia m)
  assume "blank_rules [p_rule p]"
  moreover from blank_media [OF this, of m] have "blank_rules [fst (media_addDeviceRule m (p_rule p))]"
      "blank_rules (snd (media_addDeviceRule m (p_rule p)))"
    by (simp_all add: blank_rules_def blank_state_def)
  ultimately show ?thesis using PolicyMedia
    by (cases "media_addDeviceRule m (p_rule p)") (simp add: fresh_def made_def addDeviceRule_def)
qed (simp_all add: fresh_def made_def addDeviceRule_def pp_rule_def Let_def)

lemma fresh_policy_rules: "fresh p \<Longrightarrow> blank_rules (policy_rules b p)"
  by (cases "p_class p") (simp_all add: policy_rules_def fresh_def rule_active_def blank_rules_def)

lemma fresh_rules:
  assumes "list_all fresh (current_list pm)"
  shows "blank_rules (snd (getCurrentRule pm))"
proof -
  have f: "\<forall>p \<in> set (current_list pm). fresh p" using assms by (simp add: list_all_iff)
  then have "blank_rules (concat (map (policy_rules b) (current_list pm)))" for b
    using fresh_policy_rules by (auto simp: blank_rules_def)
  moreover have "blank_rules [p_rule p]" if "List.find P (current_list pm) = Some p" for P p
    using f that by (auto simp: find_Some_iff fresh_def)
  ultimately show ?thesis
    by (auto simp: getCurrentRule_def Let_def blank_rules_def split: option.split)
qed

lemma loaded_rules_blank:
  assumes "\<forall>p \<in> all_policies pm. loaded_ok enabled p"
  shows "blank_rules (snd (getCurrentRule (makeDeviceRule bw pm)))"
proof (rule fresh_rules)
  have "list_all fresh (validateDeviceRule (makeDeviceRule_list bw l))" if "set l \<subseteq> all_policies pm" for l
  proof (rule made_inv)
    show "fresh (p\<lparr>p_enableDeviceRule := b\<rparr>)" if "fresh p" for p b
      using that by (cases "p_class p") (simp_all add: fresh_def)
    show "fresh (p\<lparr>p_class := PolicyMedia (media_validateDeviceRule cf sf m)\<rparr>)" if "fresh p" "p_class p = PolicyMedia m" for p m cf sf
      using that by (simp add: fresh_def media_validateDeviceRule_def blank_rules_def)
    show "fresh (made bw p)" if "p \<in> set l" for p
      using assms \<open>set l \<subseteq> all_policies pm\<close> that by (intro fresh_made) (auto simp: loaded_ok_def blank_rules_def)
  qed
  then show "list_all fresh (current_list (makeDeviceRule bw pm))"
    by (auto simp: current_list_def makeDeviceRule_def all_policies_def)
qed


lemma lone_media_loaded:
  "load_policies (\<lambda>_. True) no_junk None None
      (Some (doc_of [Elem ''policyset'' [] [] [Elem ''policy'' [(''type'', ''online'')] [] [media_elem]]])) empty_store =
     Some (empty_store\<lparr>ps_man := online_man [policy_of (PolicyMedia (new_media_part 0))]\<rparr>)"
proof -
  have "isNullPolicy [] \<longleftrightarrow> False" by (simp add: isNullPolicy_def null_guid_def)
  moreover have "policies_in (sec ''policyset'' [Elem ''policyset'' [] [] [Elem ''policy'' [(''type'', ''online'')] [] [media_elem]]]) =
     [(''online'', media_elem)]"
    by (simp add: policies_in_def sec_def first_with_def tagged_def attr_def media_elem_def)
  ultimately show ?thesis
    using sample_media_policy
    by (simp add: load_policies_def loadNdis_tree loadUSBMobile_tree document_loaded stored_sections_def sample_sections
      add_policy_def sample_attrs push_policy_def empty_store_def policies_clear_def online_man_def validateDLPPolicyXml_def
      isEnableBlockLog_def current_list_def policy_isEnableBlockLog_def policy_of_def new_media_part_def dlp)
qed


end
