(* ===== verification/AgentCheck.thy ===== *)
theory AgentCheck
  imports ScanService Markup "HOL-Library.AList"
begin

text \<open>
  The action that watches the components of the product and reports their state to the DLP agent
  (\<open>PIActionCheckAgent.cpp\<close>): the driver is looked at once a second, changes are collected as logs and
  sent in one document, the present state is sent when the agent registers. A log is the element it
  prints as; \<open>doc_text\<close> stands for the printer of the markup library (\<open>CMarkup::GetDoc\<close>). The thread is run
  a second at a time; whether the driver is active, the time and the connection are arguments.
\<close>

subsection \<open>The code\<close>

datatype em_category = CATEGORY_NONE | AGENT_SERVICE | PROTECTOR_SERVICE | SUPERVISOR_SERVICE | FILE_DRIVER
  | MEDIA_DRIVER | NETWORK_DRIVER | OUTLOOK_PLUGIN | CHROME_PLUGIN | FIREFOX_PLUGIN | PWMANAGER_SERVICE
  | PWDISK_DRIVER | PWSMART_DRIVER | CDS_SERVICE

datatype em_subcategory = SUBCATEGORY_NONE | STARTED | STARTED_BY_WATCHDOG | STOPPED | STOPPED_BY_ADMINTOOL
  | UNEXPECTED_ERROR | NOT_INSTALLED | TAMPERED | DISK_USEDSPACE_CHANGED

fun category_no :: "em_category \<Rightarrow> nat" where
  "category_no CATEGORY_NONE = 0" | "category_no AGENT_SERVICE = 0x0001"
| "category_no PROTECTOR_SERVICE = 0x0002" | "category_no SUPERVISOR_SERVICE = 0x0004"
| "category_no FILE_DRIVER = 0x0008" | "category_no MEDIA_DRIVER = 0x0010"
| "category_no NETWORK_DRIVER = 0x0020" | "category_no OUTLOOK_PLUGIN = 0x0040"
| "category_no CHROME_PLUGIN = 0x0080" | "category_no FIREFOX_PLUGIN = 0x0100"
| "category_no PWMANAGER_SERVICE = 0x0200" | "category_no PWDISK_DRIVER = 0x0400"
| "category_no PWSMART_DRIVER = 0x0800" | "category_no CDS_SERVICE = 0x1000"

fun subcategory_no :: "em_subcategory \<Rightarrow> nat" where
  "subcategory_no SUBCATEGORY_NONE = 0" | "subcategory_no STARTED = 1" | "subcategory_no STARTED_BY_WATCHDOG = 2"
| "subcategory_no STOPPED = 3" | "subcategory_no STOPPED_BY_ADMINTOOL = 4" | "subcategory_no UNEXPECTED_ERROR = 5"
| "subcategory_no NOT_INSTALLED = 6" | "subcategory_no TAMPERED = 7" | "subcategory_no DISK_USEDSPACE_CHANGED = 8"

record check_agent =
  ca_isContinue :: bool
  ca_running :: bool
  serviceStatus :: "(em_category \<times> bool) list"
  agentStatus :: "(em_category \<times> em_subcategory) list"
  ca_log :: "xml list"

text \<open>\<open>clear\<close> resets the thread's flags only.\<close>

definition check_clear :: "check_agent \<Rightarrow> check_agent" where
  "check_clear ca = ca\<lparr>ca_isContinue := True, ca_running := False\<rparr>"

definition new_check :: check_agent where
  "new_check = \<lparr>ca_isContinue = True, ca_running = False, serviceStatus = [], agentStatus = [], ca_log = []\<rparr>"

definition getLog :: "string \<Rightarrow> em_category \<Rightarrow> em_subcategory \<Rightarrow> xml" where
  "getLog date c sub = Elem ''Log'' [(''EventTime'', date), (''Category'', decimal (category_no c)),
     (''SubCategory'', decimal (subcategory_no sub))] [] []"

definition getStatus :: "em_category \<Rightarrow> em_subcategory \<Rightarrow> xml" where
  "getStatus c sub = Elem ''Status'' [(''Category'', decimal (category_no c)),
     (''SubCategory'', decimal (subcategory_no sub))] [] []"

definition makeDriverEvent :: "string \<Rightarrow> em_category \<Rightarrow> em_subcategory \<Rightarrow> check_agent \<Rightarrow> check_agent" where
  "makeDriverEvent date c sub ca = ca\<lparr>agentStatus := AList.update c sub (agentStatus ca),
     ca_log := ca_log ca @ [getLog date c sub]\<rparr>"

text \<open>Reading the map at a new key enters the key with false.\<close>

definition checkDriver :: "string \<Rightarrow> bool \<Rightarrow> em_category \<Rightarrow> check_agent \<Rightarrow> check_agent" where
  "checkDriver date up c ca =
     (let known = (serviceStatus ca \<noteq> []);
          was = (case map_of (serviceStatus ca) c of None \<Rightarrow> False | Some b \<Rightarrow> b);
          ca1 = (if known \<and> map_of (serviceStatus ca) c = None
                 then ca\<lparr>serviceStatus := AList.update c False (serviceStatus ca)\<rparr> else ca)
      in if known \<and> up = was then ca1
         else makeDriverEvent date c (if up then STARTED else STOPPED)
                (ca1\<lparr>serviceStatus := AList.update c up (serviceStatus ca1)\<rparr>))"

text \<open>Whether a document was handed over.\<close>

definition checkEnd :: "(xml \<Rightarrow> string) \<Rightarrow> sv_calls \<Rightarrow> agent_stub \<Rightarrow> check_agent \<Rightarrow> (bool \<times> check_agent) option" where
  "checkEnd doc_text cs st ca =
     (if ca_log ca = [] then Some (False, ca)
      else if \<not> isRegistered st then Some (False, ca)
      else do {
        (ok, response, out) \<leftarrow> notifyEvent cs st 108 (doc_text (Elem ''LogList'' [] [] (ca_log ca)));
        Some (ok, if ok then ca\<lparr>ca_log := []\<rparr> else ca)
      })"

definition checkAgent :: "(xml \<Rightarrow> string) \<Rightarrow> string \<Rightarrow> bool \<Rightarrow> sv_calls \<Rightarrow> agent_stub \<Rightarrow> check_agent \<Rightarrow> (bool \<times> check_agent) option" where
  "checkAgent doc_text date up cs st ca = checkEnd doc_text cs st (checkDriver date up FILE_DRIVER ca)"

text \<open>A turn of \<open>fnCheckAgent\<close>.\<close>

definition check_turn :: "(xml \<Rightarrow> string) \<Rightarrow> string \<Rightarrow> bool \<Rightarrow> sv_calls \<Rightarrow> agent_stub \<Rightarrow> check_agent \<Rightarrow> (bool \<times> check_agent) option" where
  "check_turn doc_text date up cs st ca =
     (if \<not> ca_running ca then Some (False, ca)
      else if ca_isContinue ca then checkAgent doc_text date up cs st ca
      else Some (False, ca\<lparr>ca_running := False\<rparr>))"

text \<open>A map is walked through in the order of its keys.\<close>

definition onAgentRegistered :: "(xml \<Rightarrow> string) \<Rightarrow> sv_calls \<Rightarrow> agent_stub \<Rightarrow> check_agent \<Rightarrow> (bool \<times> u32 \<times> u8 list) option" where
  "onAgentRegistered doc_text cs st ca =
     (if agentStatus ca = [] \<or> \<not> isRegistered st then Some (False, 0, [])
      else notifyEvent cs st 109 (doc_text (Elem ''StatusList'' [] []
        (map (\<lambda>(c, sub). getStatus c sub) (sort_key (\<lambda>x. category_no (fst x)) (agentStatus ca))))))"

text \<open>\<open>run\<close>: what is sent on a registration, or the start of the thread, which may fail.\<close>

definition run_CheckAgent :: "(xml \<Rightarrow> string) \<Rightarrow> sv_calls \<Rightarrow> agent_stub \<Rightarrow> bool \<Rightarrow> string \<Rightarrow> check_agent \<Rightarrow> check_agent option" where
  "run_CheckAgent doc_text cs st created p ca =
     (if p = ''register'' then do { r \<leftarrow> onAgentRegistered doc_text cs st ca; Some ca }
      else if ca_running ca then Some ca
      else let ca1 = check_clear ca in Some (if created then ca1\<lparr>ca_running := True\<rparr> else ca1))"

text \<open>\<open>stop\<close>: a thread that runs is waited for.\<close>

definition stop_CheckAgent :: "check_agent \<Rightarrow> check_agent" where
  "stop_CheckAgent ca = ca\<lparr>ca_isContinue := False, ca_running := False\<rparr>"

subsection \<open>Runs\<close>

text \<open>A run with what was seen of the driver, second by second, and the logs that were handed over.\<close>

inductive check_run :: "(xml \<Rightarrow> string) \<Rightarrow> (string \<times> bool) list \<Rightarrow> xml list \<Rightarrow> check_agent \<Rightarrow> bool" for doc_text where
  boot: "check_run doc_text [] [] new_check"
| run: "check_run doc_text obs told ca \<Longrightarrow> run_CheckAgent doc_text cs st created p ca = Some ca' \<Longrightarrow>
     check_run doc_text obs told ca'"
| stop: "check_run doc_text obs told ca \<Longrightarrow> check_run doc_text obs told (stop_CheckAgent ca)"
| turn: "check_run doc_text obs told ca \<Longrightarrow> ca_running ca \<Longrightarrow> ca_isContinue ca \<Longrightarrow>
     check_turn doc_text date up cs st ca = Some (ok, ca') \<Longrightarrow>
     check_run doc_text (obs @ [(date, up)])
       (if ok then told @ ca_log (checkDriver date up FILE_DRIVER ca) else told) ca'"



subsection \<open>Every change is reported once\<close>

text \<open>The specification: the first observation and every one that differs from the one before it.\<close>

fun changes :: "bool option \<Rightarrow> (string \<times> bool) list \<Rightarrow> (string \<times> bool) list" where
  "changes was [] = []"
| "changes was ((date, b) # obs) = (if was = Some b then [] else [(date, b)]) @ changes (Some b) obs"

definition last_seen :: "bool option \<Rightarrow> (string \<times> bool) list \<Rightarrow> bool option" where
  "last_seen was obs = (if obs = [] then was else Some (snd (last obs)))"

definition change_log :: "string \<times> bool \<Rightarrow> xml" where
  "change_log = (\<lambda>(date, b). getLog date FILE_DRIVER (if b then STARTED else STOPPED))"

lemma changes_snoc:
  "changes was (obs @ [(date, b)]) = changes was obs @ (if last_seen was obs = Some b then [] else [(date, b)])"
  by (induction was obs rule: changes.induct) (auto simp: last_seen_def)

text \<open>Neighbouring changes differ.\<close>

lemma changes_alternate: "remdups_adj (map snd (changes was obs)) = map snd (changes was obs)"
proof (induction was obs rule: changes.induct)
  case (2 was date b obs)
  have "changes (Some b) obs = [] \<or> snd (hd (changes (Some b) obs)) \<noteq> b"
    by (induction obs) (auto split: if_splits)
  then show ?case using 2 by (cases "changes (Some b) obs") auto
qed simp

definition check_inv :: "(string \<times> bool) list \<Rightarrow> xml list \<Rightarrow> check_agent \<Rightarrow> bool" where
  "check_inv obs told ca \<longleftrightarrow>
     told @ ca_log ca = map change_log (changes None obs) \<and>
     serviceStatus ca = (case last_seen None obs of None \<Rightarrow> [] | Some b \<Rightarrow> [(FILE_DRIVER, b)]) \<and>
     agentStatus ca = (case last_seen None obs of None \<Rightarrow> [] | Some b \<Rightarrow> [(FILE_DRIVER, if b then STARTED else STOPPED)])"

lemma driver_inv:
  "check_inv obs told ca \<Longrightarrow> check_inv (obs @ [(date, b)]) told (checkDriver date b FILE_DRIVER ca)"
  by (auto simp: check_inv_def checkDriver_def makeDriverEvent_def Let_def changes_snoc last_seen_def change_log_def
      split: option.splits if_splits)

lemma check_run_inv: "check_run doc_text obs told ca \<Longrightarrow> check_inv obs told ca"
proof (induction rule: check_run.induct)
  case boot
  then show ?case by (simp add: check_inv_def new_check_def last_seen_def)
next
  case (run obs told ca cs st created p ca')
  then have "serviceStatus ca' = serviceStatus ca \<and> agentStatus ca' = agentStatus ca \<and> ca_log ca' = ca_log ca"
    by (auto simp: run_CheckAgent_def check_clear_def Let_def bind_eq_Some_conv split: if_splits)
  then show ?case using run.IH by (simp add: check_inv_def)
next
  case (stop obs told ca)
  then show ?case by (simp add: check_inv_def stop_CheckAgent_def)
next
  case (turn obs told ca date up cs st ok ca')
  note d = driver_inv [OF turn.IH, of date up]
  from turn.hyps(2-4) have "checkEnd doc_text cs st (checkDriver date up FILE_DRIVER ca) = Some (ok, ca')"
    by (simp add: check_turn_def checkAgent_def)
  then have "if ok then ca' = (checkDriver date up FILE_DRIVER ca)\<lparr>ca_log := []\<rparr>
      else ca' = checkDriver date up FILE_DRIVER ca"
    by (auto simp: checkEnd_def bind_eq_Some_conv split: if_splits)
  then show ?case using d by (auto simp: check_inv_def split: if_splits)
qed


text \<open>A registered agent that takes the document leaves no log behind.\<close>

lemma check_turn_hands_over:
  assumes "isRegistered st" and "ca_running ca" and "ca_isContinue ca"
    and "\<And>param. \<exists>r out. notifyEvent cs st 108 param = Some (True, r, out)"
  shows "\<exists>ok ca'. check_turn doc_text date up cs st ca = Some (ok, ca') \<and> ca_log ca' = []"
proof (cases "ca_log (checkDriver date up FILE_DRIVER ca) = []")
  case False
  obtain r out where "notifyEvent cs st 108 (doc_text (Elem ''LogList'' [] [] (ca_log (checkDriver date up FILE_DRIVER ca)))) = Some (True, r, out)"
    using assms(4) by blast
  then show ?thesis using assms(1-3) False by (simp add: check_turn_def checkAgent_def checkEnd_def ex_bool_eq)
qed (use assms in \<open>simp add: check_turn_def checkAgent_def checkEnd_def ex_bool_eq\<close>)

text \<open>Three seconds without an agent: the driver is there, still there, and gone.\<close>

definition three_seconds :: check_agent where
  "three_seconds = (let t = (\<lambda>d b ca. checkDriver d b FILE_DRIVER ca)
     in t ''12:02'' False (t ''12:01'' True (t ''12:00'' True (new_check\<lparr>ca_running := True\<rparr>))))"


end
