(* ===== verification/PolicyReport.thy ===== *)
theory PolicyReport
  imports PolicyLoad KauthListener
begin

text \<open>
  The document \<open>CPIPolicyMan::translatePolicy\<close> writes beside making the rules
  (\<open>getDLPPolicyForPISupervisor\<close>, \<open>makeDeviceRuleXml\<close>, \<open>makeInformationXml\<close> of \<open>PIPolicyMan.cpp\<close> and the writers of
  \<open>DLPPolicy.cpp\<close>). Every writer adds its elements behind those that are there, so it is the list of the
  elements it adds; \<open>AddAttrib\<close> and \<open>SetAttrib\<close> replace an attribute that is there. Printing and saving the text
  are the markup library's.
\<close>

subsection \<open>The code\<close>

definition getValueAsString :: "bool \<Rightarrow> string" where
  "getValueAsString b = (if b then ''true'' else ''false'')"

text \<open>\<open>%d\<close>.\<close>

definition int_text :: "int \<Rightarrow> string" where
  "int_text i = (if i < 0 then CHR ''-'' # decimal (nat (- i)) else decimal (nat i))"

definition rule_attribs :: "sec_rule \<Rightarrow> (string \<times> string) list" where
  "rule_attribs r =
     (let l = [(''virtualtype'', virtualType r), (''block_all'', getValueAsString (disableAll r)),
        (''block_read'', getValueAsString (disableRead r)), (''block_write'', getValueAsString (disableWrite r)),
        (''enable_log'', getValueAsString (enableLog r)), (''reserved1'', int_text (reserved1 r))]
      in if reserved1 r = 1 \<and> disableWrite r then AList.update ''block_write'' ''all'' l else l)"

definition rule_xml :: "sec_rule \<Rightarrow> xml list \<Rightarrow> xml" where
  "rule_xml r ks = Elem ''rule'' (rule_attribs r) [] ks"

definition permit_xml :: "string \<Rightarrow> mb_permit \<Rightarrow> xml" where
  "permit_xml t p = Elem t [(''medianame'', czMediaName p), (''mediaid'', czMediaID p)] [] []"

text \<open>What a media policy adds to a rule of its list.\<close>

definition media_kids :: "media_part \<Rightarrow> sec_rule \<Rightarrow> xml list" where
  "media_kids m r =
     (if virtualType r = Device_Bluetooth \<and> disableAll r \<and> m_bBlockSelectedBluetooth m
      then [Elem ''bluetooth'' [(''block_selected_bluetooth'', ''true'')] [] []] else []) @
     (if virtualType r = NDIS_WLAN \<and> comm_bit commdeviceBlockWLAN m \<and> 0 < length (m_wlanPermit m)
      then [Elem ''wlan_permit_list'' [] [] (map (\<lambda>ssid. Elem ''wlan'' [(''ssid'', ssid)] [] []) (m_wlanPermit m))] else []) @
     (if virtualType r = Device_USBMobile \<and> comm_bit commdeviceBlockUSBMobile m \<and> 0 < length (m_usbMobilePermit m)
      then [Elem ''usbmobile_permit_list'' [] [] (map (permit_xml ''usbmobile'') (m_usbMobilePermit m))] else []) @
     (if virtualType r = Drive_Removable \<and> removable_bits m \<and> 0 < length (m_removablePermit m)
      then [Elem ''removabledrive_permit_list'' [] [] (map (permit_xml ''removabledrive'') (m_removablePermit m)),
            Elem ''removabledrive'' [(''permit_allow_control_type'', int_text (m_removableAllowType m))] [] []] else [])"

text \<open>The virtual \<open>addDeviceRule\<close> with a document. That of a media policy copies each rule of its list over its
  own on the way.\<close>

definition write_rule :: "dlp_policy \<Rightarrow> xml list \<times> dlp_policy" where
  "write_rule p =
     (case p_class p of
        PolicyMedia m \<Rightarrow>
          (if ruleList m = [] then ([], p)
           else (map (\<lambda>r. rule_xml r (media_kids m r)) (ruleList m), p\<lparr>p_rule := last (ruleList m)\<rparr>))
      | _ \<Rightarrow> ([rule_xml (p_rule p) []], p))"

fun write_copyex :: "dlp_policy list \<Rightarrow> bool \<times> xml list \<times> dlp_policy list" where
  "write_copyex [] = (False, [], [])"
| "write_copyex (p # ps) =
     (if rule_active p \<and> p_dlpSubType p = dlpsubtypeCopyExPreventPlus
      then (case write_rule p of (xs, q) \<Rightarrow> (True, xs, q # ps))
      else (case write_copyex ps of (cf, xs, qs) \<Rightarrow> (cf, xs, p # qs)))"

fun write_rules :: "bool \<Rightarrow> dlp_policy list \<Rightarrow> xml list \<times> dlp_policy list" where
  "write_rules copyPreventFound [] = ([], [])"
| "write_rules copyPreventFound (p # ps) =
     (let (xs, q) = (if \<not> rule_active p then ([], p)
            else if p_dlpSubType p = dlpsubtypeCopyPreventPlus then (if copyPreventFound then ([], p) else write_rule p)
            else if p_dlpSubType p = dlpsubtypeCopyExPreventPlus then ([], p)
            else write_rule p);
          (ys, qs) = write_rules copyPreventFound ps
      in (xs @ ys, q # qs))"

definition makeDeviceRuleXml :: "dlp_policy list \<Rightarrow> xml list \<times> dlp_policy list" where
  "makeDeviceRuleXml l =
     (let (cf, xs, l1) = write_copyex l; (ys, l2) = write_rules cf l1 in (xs @ ys, l2))"

text \<open>\<open>makeInformationXml\<close> of the two classes that have one.\<close>

definition application_info :: "application_part \<Rightarrow> xml list" where
  "application_info a =
     [Elem ''control_process'' [(''log_block'', getValueAsString (execControlBlockLog a))] []
        (map (\<lambda>x. Elem ''process'' [(''guid'', app_guid x), (''type'', int_text (app_type x)), (''display'', app_display x),
             (''name'', app_fileName x), (''check_binary_string'', app_binData x)] [] [])
          (filter (\<lambda>x. app_controlType x = controltypeExecControl) (applicationList a))),
      Elem ''PIFileAccessControl'' [(''Enable'', ''true'')] []
        (map (\<lambda>x. Elem ''process'' [(''display'', app_display x), (''name'', app_fileName x),
             (''type'', int_text (app_fileOpenControlType x))] [] [])
          (filter (\<lambda>x. app_controlType x = controltypeFileOpenControl) (applicationList a)))]"

definition clipboard_info :: "dlp_application list \<Rightarrow> xml list" where
  "clipboard_info l = [Elem ''control_paste_by_process'' [] []
     (map (\<lambda>x. Elem ''process'' [(''type'', int_text (app_type x)), (''display'', app_display x), (''name'', app_fileName x)] [] []) l)]"

definition policy_info :: "dlp_policy \<Rightarrow> xml list" where
  "policy_info p = (case p_class p of PolicyApplication pp a \<Rightarrow> application_info a
     | PolicyClipboard pp l \<Rightarrow> clipboard_info l | _ \<Rightarrow> [])"

definition makeInformationXml :: "dlp_policy list \<Rightarrow> xml list" where
  "makeInformationXml l = concat (map policy_info (filter p_use l))"

definition policy_xml :: "string \<Rightarrow> dlp_policy list \<Rightarrow> xml \<times> dlp_policy list" where
  "policy_xml type l =
     (let (rules, l1) = makeDeviceRuleXml l
      in (Elem ''policy'' [(''type'', type)] [] [Elem ''rule_list'' [] [] rules, Elem ''info'' [] [] (makeInformationXml l1)], l1))"

definition class_xml :: "string \<Rightarrow> named_class \<Rightarrow> xml" where
  "class_xml t c = Elem t [(''keyword'', nc_keyword c), (''name'', nc_name c)] [] []"

definition getDLPPolicyForPISupervisor :: "string \<Rightarrow> policy_store \<Rightarrow> xml \<times> policy_store" where
  "getDLPPolicyForPISupervisor date s =
     (let pm = ps_man s;
          (on, l1) = policy_xml ''online'' (onlinePolicyList pm);
          (off, l2) = policy_xml ''offline'' (offlinePolicyList pm)
      in (Elem ''policyset'' [] []
            [Elem ''info'' [(''type'', if isOnline pm then ''online'' else ''offline''), (''timestamp'', date),
                 (''enable_block_log'', getValueAsString (enableMediaControlBlockLog pm))] []
               [Elem ''ndis_class_list'' [] [] (map (class_xml ''ndis_class'') (ndisClassList s)),
                Elem ''usbmobile_class_list'' [] [] (map (class_xml ''usbmobile_class'') (usbmobileClassList s))],
             Elem ''policy_list'' [] [] [on, off]],
          s\<lparr>ps_man := pm\<lparr>onlinePolicyList := l1, offlinePolicyList := l2\<rparr>\<rparr>))"

text \<open>\<open>translatePolicy\<close>: the rules, then the document, which is saved.\<close>

definition translate_policy :: "string \<Rightarrow> bool \<Rightarrow> policy_store \<Rightarrow> xml \<times> policy_store" where
  "translate_policy date bw s = getDLPPolicyForPISupervisor date (s\<lparr>ps_man := makeDeviceRule bw (ps_man s)\<rparr>)"

subsection \<open>The written rules are the rules\<close>

text \<open>What a reader of the document finds in a rule.\<close>

definition read_rule :: "xml \<Rightarrow> string \<times> bool \<times> bool \<times> bool \<times> bool \<times> string" where
  "read_rule e = (attr e ''virtualtype'', getValueAsBool (attr e ''block_all''), getValueAsBool (attr e ''block_read''),
     attr e ''block_write'' \<noteq> ''false'', getValueAsBool (attr e ''enable_log''), attr e ''reserved1'')"

definition rule_texts :: "sec_rule \<Rightarrow> string \<times> bool \<times> bool \<times> bool \<times> bool \<times> string" where
  "rule_texts r = (virtualType r, disableAll r, disableRead r, disableWrite r, enableLog r, int_text (reserved1 r))"

lemma rule_read [simp]: "read_rule (rule_xml r ks) = rule_texts r"
  by (simp add: read_rule_def rule_xml_def rule_texts_def rule_attribs_def attr_def getValueAsString_def getValueAsBool_def Let_def)

text \<open>A policy whose rule is the last one of its list is left as it is.\<close>

definition settled :: "dlp_policy \<Rightarrow> bool" where
  "settled p \<longleftrightarrow> p_use p \<longrightarrow> (case p_class p of PolicyMedia m \<Rightarrow>
     ruleList m \<noteq> [] \<and> last (ruleList m) = p_rule p \<and> virtualType (p_rule p) = Share_AirDrop | _ \<Rightarrow> True)"

lemma write_settled: "settled p \<Longrightarrow> p_use p \<Longrightarrow> snd (write_rule p) = p"
  by (cases "p_class p") (simp_all add: write_rule_def settled_def)

lemma write_copyex_kept:
  "list_all settled l \<Longrightarrow> write_copyex l =
     (case List.find (\<lambda>p. rule_active p \<and> p_dlpSubType p = dlpsubtypeCopyExPreventPlus) l of
        None \<Rightarrow> (False, [], l) | Some p \<Rightarrow> (True, fst (write_rule p), l))"
  using write_settled by (induction l) (auto simp: rule_active_def case_prod_beta' split: option.splits)

text \<open>What a policy adds in the second pass.\<close>

definition rules_of :: "bool \<Rightarrow> dlp_policy \<Rightarrow> xml list" where
  "rules_of cf p =
     (if \<not> rule_active p \<or> p_dlpSubType p = dlpsubtypeCopyExPreventPlus \<or> p_dlpSubType p = dlpsubtypeCopyPreventPlus \<and> cf
      then [] else fst (write_rule p))"

lemma write_rules_kept:
  "list_all settled l \<Longrightarrow> write_rules cf l = (concat (map (rules_of cf) l), l)"
  using write_settled by (induction l) (auto simp: rule_active_def rules_of_def case_prod_beta' Let_def dlp)

lemma written_policy_rules:
  "policy_ok p \<Longrightarrow> map read_rule (rules_of cf p) = map rule_texts (policy_rules cf p)"
  by (cases "p_class p") (auto simp: rules_of_def policy_ok_def policy_rules_def write_rule_def is_copyex_rule_def dlp comp_def)

lemma last_media_rule:
  "snd (media_addDeviceRule m r) \<noteq> [] \<and> last (snd (media_addDeviceRule m r)) = fst (media_addDeviceRule m r) \<and>
     virtualType (fst (media_addDeviceRule m r)) = Share_AirDrop"
  by (simp add: media_addDeviceRule_def Let_def media_add_def)

lemma settled_made: "settled (made bw p)"
proof (cases "p_use p \<and> (\<exists>m. p_class p = PolicyMedia m)")
  case True
  then obtain m where m: "p_use p" "p_class p = PolicyMedia m" by blast
  then show ?thesis using last_media_rule [of m "p_rule p"]
    by (cases "media_addDeviceRule m (p_rule p)") (simp add: settled_def made_def addDeviceRule_def)
next
  case False
  then show ?thesis
    by (cases "p_class p") (auto simp: settled_def made_def addDeviceRule_def pp_rule_def Let_def)
qed

lemma last_filtered: "l \<noteq> [] \<Longrightarrow> P (last l) \<Longrightarrow> filter P l \<noteq> [] \<and> last (filter P l) = last l"
  by (induction l) (auto split: if_splits)

lemma settled_validated:
  assumes "settled p" "p_class p = PolicyMedia m"
  shows "settled (p\<lparr>p_class := PolicyMedia (media_validateDeviceRule cf sf m)\<rparr>)"
  using assms last_filtered [of "ruleList m"]
  by (simp add: settled_def media_validateDeviceRule_def vt)

text \<open>Making the rules leaves every policy settled and consistent.\<close>

lemma rules_settled:
  "list_all settled (validateDeviceRule (makeDeviceRule_list bw l))"
proof (rule made_inv)
  show "settled (p\<lparr>p_enableDeviceRule := b\<rparr>)" if "settled p" for p b
    using that by (cases "p_class p") (simp_all add: settled_def)
qed (simp_all only: settled_made settled_validated)

lemma rules_ok:
  assumes "\<forall>p \<in> set l. policy_ok p"
  shows "list_all policy_ok (validateDeviceRule (makeDeviceRule_list bw l))"
proof (rule made_inv)
  show "policy_ok (made bw p)" if "p \<in> set l" for p
    using assms that policy_ok_made by (simp add: made_def)
qed (auto simp: policy_ok_def)

text \<open>The rules a document has for a mode, as its reader finds them.\<close>

definition written_rules :: "string \<Rightarrow> xml \<Rightarrow> xml list" where
  "written_rules mode doc =
     concat (map (\<lambda>pl. concat (map (\<lambda>p. concat (map kids (filter (\<lambda>e. tag e = ''rule_list'') (kids p))))
        (filter (\<lambda>p. tag p = ''policy'' \<and> attr p ''type'' = mode) (kids pl))))
      (filter (\<lambda>e. tag e = ''policy_list'') (kids doc)))"

lemma policy_list_written:
  assumes "list_all settled l" "list_all policy_ok l"
  shows "map read_rule (fst (makeDeviceRuleXml l)) =
      map rule_texts (snd (getCurrentRule (pm\<lparr>isOnline := True, onlinePolicyList := l\<rparr>))) \<and>
    snd (makeDeviceRuleXml l) = l"
proof -
  let ?P = "\<lambda>p. rule_active p \<and> p_dlpSubType p = dlpsubtypeCopyExPreventPlus"
  let ?Q = "\<lambda>p. rule_active p \<and> is_copyex_rule p"
  have "List.find ?P l = List.find ?Q l"
    using assms(2) by (induction l) (auto simp: policy_ok_ex)
  moreover have "map read_rule (fst (write_rule p)) = [rule_texts (p_rule p)]" if "List.find ?P l = Some p" for p
    using that assms(2)
    by (cases "p_class p") (auto simp: find_Some_iff list_all_length policy_ok_def write_rule_def dlp)
  moreover have "map read_rule (concat (map (rules_of cf) l)) = map rule_texts (concat (map (policy_rules cf) l))" for cf
    using assms(2) written_policy_rules by (induction l) simp_all
  ultimately show ?thesis
    by (simp add: makeDeviceRuleXml_def write_copyex_kept [OF assms(1)] write_rules_kept [OF assms(1)] getCurrentRule_def
      current_list_def Let_def split: option.split)
qed

text \<open>The rules in force once the client is on or off line.\<close>

definition rules_in :: "bool \<Rightarrow> policy_man \<Rightarrow> sec_rule list" where
  "rules_in online pm = snd (getCurrentRule (pm\<lparr>isOnline := online\<rparr>))"

lemma rules_in_list:
  "rules_in online pm = snd (getCurrentRule (pm0\<lparr>isOnline := True,
     onlinePolicyList := if online then onlinePolicyList pm else offlinePolicyList pm\<rparr>))"
  by (simp add: rules_in_def getCurrentRule_def current_list_def)

lemma policy_set:
  assumes "\<forall>p \<in> set (onlinePolicyList (ps_man s)) \<union> set (offlinePolicyList (ps_man s)). policy_ok p"
  shows "\<exists>doc. translate_policy date bw s = (doc, s\<lparr>ps_man := makeDeviceRule bw (ps_man s)\<rparr>) \<and>
    map read_rule (written_rules ''online'' doc) = map rule_texts (rules_in True (makeDeviceRule bw (ps_man s))) \<and>
    map read_rule (written_rules ''offline'' doc) = map rule_texts (rules_in False (makeDeviceRule bw (ps_man s)))"
proof -
  define pm where "pm = makeDeviceRule bw (ps_man s)"
  let ?on = "onlinePolicyList pm" let ?off = "offlinePolicyList pm"
  have "list_all settled ?on" "list_all settled ?off"
    by (simp_all add: pm_def makeDeviceRule_def rules_settled)
  moreover have "list_all policy_ok ?on" "list_all policy_ok ?off"
    using assms by (auto simp: pm_def makeDeviceRule_def intro!: rules_ok)
  ultimately have "map read_rule (fst (makeDeviceRuleXml ?on)) = map rule_texts (rules_in True pm)" "snd (makeDeviceRuleXml ?on) = ?on"
      "map read_rule (fst (makeDeviceRuleXml ?off)) = map rule_texts (rules_in False pm)" "snd (makeDeviceRuleXml ?off) = ?off"
    using policy_list_written [of _ pm] by (simp_all add: rules_in_list [of _ pm pm])
  moreover obtain xs ls ys ms where "makeDeviceRuleXml ?on = (xs, ls)" "makeDeviceRuleXml ?off = (ys, ms)" by fastforce
  ultimately show ?thesis
    by (simp add: translate_policy_def getDLPPolicyForPISupervisor_def policy_xml_def written_rules_def attr_def Let_def flip: pm_def)
qed


text \<open>A copy policy and a media policy on line: the drives get the rule of the copy policy.\<close>

definition two_policies :: policy_man where
  "two_policies = online_man [policy_of (PolicyCopy clear_prevent_plus new_copy_part), policy_of (PolicyMedia (new_media_part 0))]"


end
